theory Spec2Isabelle
  imports Complex_Main "HOL-Library.Word"
begin

unbundle bit_operations_syntax

chapter \<open>ESP8266 retro console: input system, game modules and engine\<close>

text \<open>
  A shallow embedding of \<^verbatim>\<open>retroconsole8266.ino\<close>. Conventions used throughout:
  \<^item> \<^verbatim>\<open>unsigned long\<close> (32 bits on the ESP8266) is \<open>32 word\<close>, so \<open>+\<close> and \<open>-\<close> wrap;
    \<^verbatim>\<open>uint16_t\<close> is \<open>16 word\<close>, \<^verbatim>\<open>uint8_t\<close> is \<open>8 word\<close>;
  \<^item> \<^verbatim>\<open>int\<close> variables hold small values (coordinates, indices, speeds) and are \<open>int\<close>;
  \<^item> \<^verbatim>\<open>float\<close> variables are exact rationals (\<open>rat\<close>): the arithmetic is the one the
    source writes, without IEEE rounding;
  \<^item> \<^verbatim>\<open>millis()\<close> is an argument \<open>now\<close> of the function that reads the clock;
  \<^item> \<^verbatim>\<open>digitalRead\<close> is an argument: which pins read LOW at this poll;
  \<^item> the pseudo-random generator is a sequence of raw non-negative values, one consumed
    per call of \<^verbatim>\<open>random\<close>;
  \<^item> calls that only drive the buzzer or the display change nothing a game or the engine
    reads, and are left out.
\<close>

section \<open>Input system\<close>

type_synonym u32 = "32 word"

datatype ButtonID = UP | DOWN | LEFT | RIGHT | SELECT

text \<open>The value of the enumerator, used as the index into \<^verbatim>\<open>buttons[5]\<close>.\<close>

fun bidx :: "ButtonID \<Rightarrow> nat" where
  "bidx UP = 0"
| "bidx DOWN = 1"
| "bidx LEFT = 2"
| "bidx RIGHT = 3"
| "bidx SELECT = 4"

record ButtonState =
  pin :: nat
  pressed :: bool
  justPressed :: bool
  pressTime :: u32
  longPressHandled :: bool

type_synonym InputSystem = "ButtonState list"

definition LONG_PRESS_MS :: u32 where
  "LONG_PRESS_MS = 600"

definition PIN_UP :: nat where "PIN_UP = 12"
definition PIN_DOWN :: nat where "PIN_DOWN = 13"
definition PIN_LEFT :: nat where "PIN_LEFT = 14"
definition PIN_RIGHT :: nat where "PIN_RIGHT = 3"
definition PIN_SELECT :: nat where "PIN_SELECT = 1"

definition mkButton :: "nat \<Rightarrow> ButtonState" where
  "mkButton p = \<lparr>pin = p, pressed = False, justPressed = False, pressTime = 0,
                 longPressHandled = False\<rparr>"

definition input_init :: InputSystem where
  "input_init = [mkButton PIN_UP, mkButton PIN_DOWN, mkButton PIN_LEFT,
                 mkButton PIN_RIGHT, mkButton PIN_SELECT]"

text \<open>
  The body of the loop of \<^verbatim>\<open>InputSystem::update\<close> for one button. \<open>low p\<close> says that
  \<^verbatim>\<open>digitalRead(p) == LOW\<close> at this poll.
\<close>

definition poll_button :: "(nat \<Rightarrow> bool) \<Rightarrow> u32 \<Rightarrow> ButtonState \<Rightarrow> ButtonState" where
  "poll_button low now b =
     (let reading = low (pin b);
          b1 = b\<lparr>justPressed := False\<rparr>
      in if reading \<and> \<not> pressed b1 then
           b1\<lparr>pressed := True, justPressed := True, pressTime := now,
              longPressHandled := False\<rparr>
         else if \<not> reading \<and> pressed b1 then b1\<lparr>pressed := False\<rparr>
         else b1)"

text \<open>\<^verbatim>\<open>InputSystem::update\<close>: iteration \<open>i\<close> of the loop touches \<^verbatim>\<open>buttons[i]\<close> only.\<close>

definition input_update :: "(nat \<Rightarrow> bool) \<Rightarrow> u32 \<Rightarrow> InputSystem \<Rightarrow> InputSystem" where
  "input_update low now bs = map (\<lambda>i. poll_button low now (bs ! i)) [0..<5]"

definition isPressed :: "InputSystem \<Rightarrow> ButtonID \<Rightarrow> bool" where
  "isPressed bs b = pressed (bs ! bidx b)"

definition isJustPressed :: "InputSystem \<Rightarrow> ButtonID \<Rightarrow> bool" where
  "isJustPressed bs b = justPressed (bs ! bidx b)"

text \<open>\<^verbatim>\<open>InputSystem::isLongPressed\<close>: the answer and the input system after the call.\<close>

definition isLongPressed :: "ButtonID \<Rightarrow> u32 \<Rightarrow> InputSystem \<Rightarrow> bool \<times> InputSystem" where
  "isLongPressed b now bs =
     (let st = bs ! bidx b in
      if pressed st \<and> \<not> longPressHandled st then
        if now - pressTime st > LONG_PRESS_MS then
          (True, bs[bidx b := st\<lparr>longPressHandled := True\<rparr>])
        else (False, bs)
      else (False, bs))"

text \<open>
  What happens to the input system over time: polls and long-press queries, in any order.
  \<open>run\<close> returns the answer of every query, with its button and the time it read.
\<close>

datatype event = Poll "nat \<Rightarrow> bool" u32 | Ask ButtonID u32

fun run :: "event list \<Rightarrow> InputSystem \<Rightarrow> (ButtonID \<times> u32 \<times> bool) list" where
  "run [] bs = []"
| "run (Poll low now # es) bs = run es (input_update low now bs)"
| "run (Ask b now # es) bs =
     (let (r, bs') = isLongPressed b now bs in (b, now, r) # run es bs')"

text \<open>The button's pin reads LOW at every poll of the trace: one continuous press.\<close>

fun held :: "nat \<Rightarrow> event list \<Rightarrow> bool" where
  "held p [] = True"
| "held p (Poll low now # es) = (low p \<and> held p es)"
| "held p (Ask b now # es) = held p es"

text \<open>The answers given for button \<open>b\<close>, and the times of the queries for \<open>b\<close>.\<close>

definition answers :: "ButtonID \<Rightarrow> (ButtonID \<times> u32 \<times> bool) list \<Rightarrow> bool list" where
  "answers b lg = map (\<lambda>(c, t, r). r) (filter (\<lambda>(c, t, r). c = b) lg)"

definition asked :: "ButtonID \<Rightarrow> (ButtonID \<times> u32 \<times> bool) list \<Rightarrow> u32 list" where
  "asked b lg = map (\<lambda>(c, t, r). t) (filter (\<lambda>(c, t, r). c = b) lg)"

text \<open>
  The specification of the one-shot: given the time \<open>t0\<close> of the press and the times of the
  queries, the answer is true at the first query whose elapsed time exceeds 600 and false
  at every other one.
\<close>

fun one_shot :: "u32 \<Rightarrow> u32 list \<Rightarrow> bool list" where
  "one_shot t0 [] = []"
| "one_shot t0 (t # ts) =
     (if t - t0 > 600 then True # replicate (length ts) False
      else False # one_shot t0 ts)"

text \<open>The number of true answers in a list of answers.\<close>

definition fired :: "bool list \<Rightarrow> nat" where
  "fired rs = length (filter (\<lambda>r. r) rs)"

text \<open>Concrete inputs: only SELECT's pin reads LOW; a trace of polls and queries with
  SELECT held; the input system after SELECT was pressed at time 0 and its long press was
  reported at time 650.\<close>

definition only_select_low :: "nat \<Rightarrow> bool" where
  "only_select_low p = (p = PIN_SELECT)"

definition select_trace :: "event list" where
  "select_trace = [Ask SELECT 100, Poll only_select_low 300, Ask SELECT 700,
                   Poll only_select_low 750, Ask SELECT 800]"

definition held_and_fired :: InputSystem where
  "held_and_fired = snd (isLongPressed SELECT 650 (input_update only_select_low 0 input_init))"

section \<open>Shared conventions of the game modules\<close>

text \<open>
  \<^verbatim>\<open>random(lo, hi)\<close> of the Arduino core: \<open>lo\<close> when the range is empty, otherwise \<open>lo\<close>
  plus the next raw value reduced modulo \<open>hi - lo\<close>. The generator is the sequence of
  raw values it is going to return; the result comes with the rest of the sequence.
\<close>

type_synonym rng = "nat \<Rightarrow> nat"

definition rng_rest :: "rng \<Rightarrow> rng" where
  "rng_rest r = (\<lambda>n. r (Suc n))"

text \<open>The generator after \<open>m\<close> values have been taken.\<close>

definition rng_skip :: "nat \<Rightarrow> rng \<Rightarrow> rng" where
  "rng_skip m r = (\<lambda>n. r (n + m))"

definition random_range :: "int \<Rightarrow> int \<Rightarrow> rng \<Rightarrow> int \<times> rng" where
  "random_range lo hi r =
     (if hi \<le> lo then (lo, r) else (lo + int (r 0) mod (hi - lo), rng_rest r))"

text \<open>A generator that only ever returns 0.\<close>

definition zeros :: rng where
  "zeros = (\<lambda>n. 0)"

text \<open>The remainder of C++ (\<^verbatim>\<open>%\<close>): it truncates towards zero.\<close>

definition cmod :: "int \<Rightarrow> int \<Rightarrow> int" where
  "cmod a b = sgn a * (\<bar>a\<bar> mod \<bar>b\<bar>)"

text \<open>
  What C++ leaves undefined is a value of the model: an array access outside the array,
  a read of a local that was never assigned, a shift by a count outside the width.
\<close>

datatype fault = OutOfBounds | Uninitialised | BadShift

definition fbind :: "fault + 'a \<Rightarrow> ('a \<Rightarrow> fault + 'b) \<Rightarrow> fault + 'b" where
  "fbind m f = (case m of Inl e \<Rightarrow> Inl e | Inr v \<Rightarrow> f v)"

definition SCREEN_WIDTH :: int where "SCREEN_WIDTH = 128"
definition SCREEN_HEIGHT :: int where "SCREEN_HEIGHT = 64"

text \<open>
  Conversions of C++: a \<^verbatim>\<open>float\<close> to \<^verbatim>\<open>int\<close> truncates towards zero; a \<^verbatim>\<open>float\<close> to
  \<^verbatim>\<open>unsigned long\<close> truncates and is defined by the language only for values in
  \<open>[0, 2^32)\<close> (outside, the model wraps).
\<close>

definition ftrunc :: "rat \<Rightarrow> int" where
  "ftrunc q = (if 0 \<le> q then \<lfloor>q\<rfloor> else \<lceil>q\<rceil>)"

definition float_to_u32 :: "rat \<Rightarrow> u32" where
  "float_to_u32 q = word_of_int (ftrunc q)"

text \<open>The score went from \<open>a\<close> to \<open>b\<close> by adding at most \<open>k\<close>, in 32-bit arithmetic.\<close>

definition bumped :: "nat \<Rightarrow> u32 \<Rightarrow> u32 \<Rightarrow> bool" where
  "bumped k a b = (unat (b - a) \<le> k)"

section \<open>Tetris\<close>

definition Tetris_COLS :: int where "Tetris_COLS = 10"
definition Tetris_ROWS :: int where "Tetris_ROWS = 20"

record Piece =
  piece_x :: int
  piece_y :: int
  piece_type :: int
  piece_rot :: int

record TetrisState =
  Tetris_grid :: "16 word list"
  Tetris_curr :: Piece
  Tetris_lastDrop :: u32
  Tetris_dropSpeed :: int

text \<open>
  \<^verbatim>\<open>Tetris::getBlocks\<close>: the four cells \<open>(x1, y1)\<close> ... \<open>(x4, y4)\<close> of a piece. For a
  type outside 0..6, and for T, J and L with a rotation outside 0..3, the source assigns
  nothing and the caller's locals stay unassigned: \<open>None\<close>.
\<close>

definition Tetris_getBlocks :: "int \<Rightarrow> int \<Rightarrow> (int \<times> int) list option" where
  "Tetris_getBlocks type rot =
     (if type = 0 then
        (if cmod rot 2 = 0 then Some [(0, 1), (1, 1), (2, 1), (3, 1)]
         else Some [(1, 0), (1, 1), (1, 2), (1, 3)])
      else if type = 1 then Some [(1, 0), (2, 0), (1, 1), (2, 1)]
      else if type = 2 then
        (if rot = 0 then Some [(1, 0), (0, 1), (1, 1), (2, 1)]
         else if rot = 1 then Some [(1, 0), (1, 1), (2, 1), (1, 2)]
         else if rot = 2 then Some [(0, 1), (1, 1), (2, 1), (1, 2)]
         else if rot = 3 then Some [(1, 0), (0, 1), (1, 1), (1, 2)]
         else None)
      else if type = 3 then
        (if cmod rot 2 = 0 then Some [(1, 0), (2, 0), (0, 1), (1, 1)]
         else Some [(1, 0), (1, 1), (2, 1), (2, 2)])
      else if type = 4 then
        (if cmod rot 2 = 0 then Some [(0, 0), (1, 0), (1, 1), (2, 1)]
         else Some [(2, 0), (1, 1), (2, 1), (1, 2)])
      else if type = 5 then
        (if rot = 0 then Some [(0, 0), (0, 1), (1, 1), (2, 1)]
         else if rot = 1 then Some [(1, 0), (2, 0), (1, 1), (1, 2)]
         else if rot = 2 then Some [(0, 1), (1, 1), (2, 1), (2, 2)]
         else if rot = 3 then Some [(1, 0), (1, 1), (0, 2), (1, 2)]
         else None)
      else if type = 6 then
        (if rot = 0 then Some [(2, 0), (0, 1), (1, 1), (2, 1)]
         else if rot = 1 then Some [(1, 0), (1, 1), (1, 2), (2, 2)]
         else if rot = 2 then Some [(0, 1), (1, 1), (2, 1), (0, 2)]
         else if rot = 3 then Some [(0, 0), (1, 0), (1, 1), (1, 2)]
         else None)
      else None)"

text \<open>A read of \<^verbatim>\<open>grid[i]\<close>: outside the array it is the fault \<open>OutOfBounds\<close>.\<close>

definition grid_read :: "16 word list \<Rightarrow> int \<Rightarrow> fault + 16 word" where
  "grid_read g i = (if 0 \<le> i \<and> i < int (length g) then Inr (g ! nat i) else Inl OutOfBounds)"

text \<open>The loop of \<^verbatim>\<open>Tetris::checkCollision\<close> over the cells that are left.\<close>

fun cells_collide :: "16 word list \<Rightarrow> int \<Rightarrow> int \<Rightarrow> (int \<times> int) list \<Rightarrow> fault + bool" where
  "cells_collide g px py [] = Inr False"
| "cells_collide g px py ((bx, by) # cs) =
     (let nx = px + bx; ny = py + by in
      if nx < 0 \<or> nx \<ge> Tetris_COLS \<or> ny \<ge> Tetris_ROWS then Inr True
      else if ny \<ge> 0 then
        fbind (grid_read g ny)
          (\<lambda>row. if row AND push_bit (nat nx) 1 \<noteq> 0 then Inr True
                  else cells_collide g px py cs)
      else cells_collide g px py cs)"

definition Tetris_checkCollision :: "TetrisState \<Rightarrow> int \<Rightarrow> int \<Rightarrow> int \<Rightarrow> fault + bool" where
  "Tetris_checkCollision s px py rot =
     (case Tetris_getBlocks (piece_type (Tetris_curr s)) rot of
        None \<Rightarrow> Inl Uninitialised
      | Some cs \<Rightarrow> cells_collide (Tetris_grid s) px py cs)"

text \<open>
  The loop of \<^verbatim>\<open>Tetris::placePiece\<close>: \<^verbatim>\<open>if (ny >= 0) grid[ny] |= (1 << nx)\<close>. The row is
  not compared with \<^verbatim>\<open>ROWS\<close> here, and the shift is defined for counts 0..30 only.
\<close>

fun place_cells :: "16 word list \<Rightarrow> int \<Rightarrow> int \<Rightarrow> (int \<times> int) list \<Rightarrow> fault + 16 word list" where
  "place_cells g cx cy [] = Inr g"
| "place_cells g cx cy ((bx, by) # cs) =
     (let ny = cy + by; nx = cx + bx in
      if ny \<ge> 0 then
        (if \<not> ny < int (length g) then Inl OutOfBounds
         else if nx < 0 \<or> nx \<ge> 31 then Inl BadShift
         else place_cells (g[nat ny := g ! nat ny OR push_bit (nat nx) 1]) cx cy cs)
      else place_cells g cx cy cs)"

definition Tetris_placePiece :: "TetrisState \<Rightarrow> fault + TetrisState" where
  "Tetris_placePiece s =
     (let c = Tetris_curr s in
      case Tetris_getBlocks (piece_type c) (piece_rot c) of
        None \<Rightarrow> Inl Uninitialised
      | Some cs \<Rightarrow>
          fbind (place_cells (Tetris_grid s) (piece_x c) (piece_y c) cs)
            (\<lambda>g. Inr (s\<lparr>Tetris_grid := g\<rparr>)))"

definition Tetris_spawnPiece :: "rng \<Rightarrow> TetrisState \<Rightarrow> TetrisState \<times> rng" where
  "Tetris_spawnPiece r s =
     (let (t, r') = random_range 0 7 r in
      (s\<lparr>Tetris_curr := \<lparr>piece_x = 3, piece_y = - 2, piece_type = t, piece_rot = 0\<rparr>\<rparr>, r'))"

definition Tetris_init :: "u32 \<Rightarrow> rng \<Rightarrow> TetrisState \<Rightarrow> TetrisState \<times> rng" where
  "Tetris_init now r s =
     (let (s1, r') = Tetris_spawnPiece r (s\<lparr>Tetris_grid := replicate 20 0\<rparr>) in
      (s1\<lparr>Tetris_lastDrop := now, Tetris_dropSpeed := 500\<rparr>, r'))"

text \<open>The inner loop of the line clearing: \<^verbatim>\<open>for (k = y; k > 0; k--) grid[k] = grid[k-1]\<close>.\<close>

fun shiftRows :: "nat \<Rightarrow> 16 word list \<Rightarrow> 16 word list" where
  "shiftRows 0 g = g"
| "shiftRows (Suc k) g = shiftRows k (g[Suc k := g ! k])"

text \<open>One iteration of the outer loop, on the grid, the score and the drop speed.\<close>

definition clear_step :: "nat \<Rightarrow> 16 word list \<times> u32 \<times> int \<Rightarrow> 16 word list \<times> u32 \<times> int" where
  "clear_step y = (\<lambda>(g, score, speed).
     if g ! y = 1023 then ((shiftRows y g)[0 := 0], score + 10, speed - 10)
     else (g, score, speed))"

definition Tetris_clearLines :: "16 word list \<times> u32 \<times> int \<Rightarrow> 16 word list \<times> u32 \<times> int" where
  "Tetris_clearLines = fold clear_step [0..<20]"

text \<open>The three guarded moves at the start of \<^verbatim>\<open>Tetris::update\<close>.\<close>

definition Tetris_rotate :: "InputSystem \<Rightarrow> TetrisState \<Rightarrow> fault + TetrisState" where
  "Tetris_rotate inp s =
     (if isJustPressed inp SELECT then
        (let c = Tetris_curr s; nextRot = cmod (piece_rot c + 1) 4 in
         fbind (Tetris_checkCollision s (piece_x c) (piece_y c) nextRot)
           (\<lambda>hit. Inr (if \<not> hit then s\<lparr>Tetris_curr := c\<lparr>piece_rot := nextRot\<rparr>\<rparr> else s)))
      else Inr s)"

definition Tetris_left :: "InputSystem \<Rightarrow> TetrisState \<Rightarrow> fault + TetrisState" where
  "Tetris_left inp s =
     (if isJustPressed inp LEFT then
        (let c = Tetris_curr s in
         fbind (Tetris_checkCollision s (piece_x c - 1) (piece_y c) (piece_rot c))
           (\<lambda>hit. Inr (if \<not> hit then s\<lparr>Tetris_curr := c\<lparr>piece_x := piece_x c - 1\<rparr>\<rparr> else s)))
      else Inr s)"

definition Tetris_right :: "InputSystem \<Rightarrow> TetrisState \<Rightarrow> fault + TetrisState" where
  "Tetris_right inp s =
     (if isJustPressed inp RIGHT then
        (let c = Tetris_curr s in
         fbind (Tetris_checkCollision s (piece_x c + 1) (piece_y c) (piece_rot c))
           (\<lambda>hit. Inr (if \<not> hit then s\<lparr>Tetris_curr := c\<lparr>piece_x := piece_x c + 1\<rparr>\<rparr> else s)))
      else Inr s)"

text \<open>
  The lock branch: game over when the piece is still above the grid, otherwise place it,
  clear the full lines and spawn the next piece.
\<close>

definition Tetris_lock ::
  "rng \<Rightarrow> TetrisState \<Rightarrow> u32 \<Rightarrow> fault + (TetrisState \<times> u32 \<times> bool \<times> rng)" where
  "Tetris_lock r s score =
     (if piece_y (Tetris_curr s) < 0 then Inr (s, score, True, r)
      else
        fbind (Tetris_placePiece s)
          (\<lambda>s1. let (g, score', speed) =
                       Tetris_clearLines (Tetris_grid s1, score, Tetris_dropSpeed s1);
                     (s2, r') = Tetris_spawnPiece r
                                  (s1\<lparr>Tetris_grid := g, Tetris_dropSpeed := speed\<rparr>)
                 in Inr (s2, score', False, r')))"

text \<open>
  The drop: forced by DOWN or due when the elapsed time exceeds \<^verbatim>\<open>dropSpeed\<close>, which the
  comparison converts to \<^verbatim>\<open>unsigned long\<close>.
\<close>

definition Tetris_drop ::
  "InputSystem \<Rightarrow> u32 \<Rightarrow> rng \<Rightarrow> TetrisState \<Rightarrow> u32
   \<Rightarrow> fault + (TetrisState \<times> u32 \<times> bool \<times> rng)" where
  "Tetris_drop inp now r s score =
     (let forceDrop = isPressed inp DOWN in
      if forceDrop \<or> now - Tetris_lastDrop s > word_of_int (Tetris_dropSpeed s) then
        (let s0 = s\<lparr>Tetris_lastDrop := now\<rparr>; c = Tetris_curr s0 in
         fbind (Tetris_checkCollision s0 (piece_x c) (piece_y c + 1) (piece_rot c))
           (\<lambda>hit. if \<not> hit then
                     Inr (s0\<lparr>Tetris_curr := c\<lparr>piece_y := piece_y c + 1\<rparr>\<rparr>, score, False, r)
                   else Tetris_lock r s0 score))
      else Inr (s, score, False, r))"

text \<open>
  \<^verbatim>\<open>Tetris::update\<close>: the state, the score, the game-over flag (the engine passes it in as
  false) and the rest of the random sequence.
\<close>

definition Tetris_moves :: "InputSystem \<Rightarrow> TetrisState \<Rightarrow> fault + TetrisState" where
  "Tetris_moves inp s =
     fbind (Tetris_rotate inp s) (\<lambda>s1.
     fbind (Tetris_left inp s1) (\<lambda>s2.
     Tetris_right inp s2))"

definition Tetris_update ::
  "InputSystem \<Rightarrow> u32 \<Rightarrow> rng \<Rightarrow> TetrisState \<Rightarrow> u32
   \<Rightarrow> fault + (TetrisState \<times> u32 \<times> bool \<times> rng)" where
  "Tetris_update inp now r s score =
     fbind (Tetris_moves inp s) (\<lambda>s3. Tetris_drop inp now r s3 score)"

text \<open>
  A session: one update per tick, with the input system and the clock of that tick, until
  the game is over.
\<close>

fun Tetris_play ::
  "(InputSystem \<times> u32) list \<Rightarrow> rng \<Rightarrow> TetrisState \<Rightarrow> u32
   \<Rightarrow> fault + (TetrisState \<times> u32 \<times> bool \<times> rng)" where
  "Tetris_play [] r s score = Inr (s, score, False, r)"
| "Tetris_play ((inp, now) # ticks) r s score =
     fbind (Tetris_update inp now r s score)
       (\<lambda>(s', score', over, r').
          if over then Inr (s', score', True, r') else Tetris_play ticks r' s' score')"

text \<open>The variables of the namespace as the program starts: statics are zero.\<close>

definition Tetris_boot :: TetrisState where
  "Tetris_boot = \<lparr>Tetris_grid = replicate 20 0,
                   Tetris_curr = \<lparr>piece_x = 0, piece_y = 0, piece_type = 0, piece_rot = 0\<rparr>,
                   Tetris_lastDrop = 0, Tetris_dropSpeed = 0\<rparr>"

text \<open>The states the game keeps to: a grid of 20 rows, a piece of a known type and
  rotation that collides with nothing where it is.\<close>

definition Tetris_inv :: "TetrisState \<Rightarrow> bool" where
  "Tetris_inv s =
     (length (Tetris_grid s) = 20
      \<and> 0 \<le> piece_type (Tetris_curr s) \<and> piece_type (Tetris_curr s) < 7
      \<and> 0 \<le> piece_rot (Tetris_curr s) \<and> piece_rot (Tetris_curr s) < 4
      \<and> Tetris_checkCollision s (piece_x (Tetris_curr s)) (piece_y (Tetris_curr s))
            (piece_rot (Tetris_curr s)) = Inr False)"

text \<open>The specification of the line clearing: the full rows are removed, the rows above
  them move down, and as many empty rows enter at the top.\<close>

definition full_rows :: "16 word list \<Rightarrow> nat" where
  "full_rows g = length (filter (\<lambda>row. row = 1023) g)"

definition cleared :: "16 word list \<Rightarrow> 16 word list" where
  "cleared g = replicate (full_rows g) 0 @ filter (\<lambda>row. row \<noteq> 1023) g"

text \<open>
  A concrete position: the bottom row lacks columns 3..6 only, and a flat I piece sits
  right above that gap, one step from locking.
\<close>

definition Tetris_almost :: TetrisState where
  "Tetris_almost = \<lparr>Tetris_grid = replicate 18 0 @ [5, 903],
                     Tetris_curr = \<lparr>piece_x = 3, piece_y = 18, piece_type = 0, piece_rot = 0\<rparr>,
                     Tetris_lastDrop = 0, Tetris_dropSpeed = 500\<rparr>"

text \<open>The position one update later: the piece has locked, the bottom row is gone and
  the next piece waits above the grid.\<close>

definition Tetris_locked :: TetrisState where
  "Tetris_locked = \<lparr>Tetris_grid = 0 # replicate 18 0 @ [5],
                     Tetris_curr = \<lparr>piece_x = 3, piece_y = - 2, piece_type = 0, piece_rot = 0\<rparr>,
                     Tetris_lastDrop = 1000, Tetris_dropSpeed = 490\<rparr>"

text \<open>And one more update later: only the new piece has moved.\<close>

definition Tetris_falling :: TetrisState where
  "Tetris_falling = \<lparr>Tetris_grid = 0 # replicate 18 0 @ [5],
                     Tetris_curr = \<lparr>piece_x = 3, piece_y = - 1, piece_type = 0, piece_rot = 0\<rparr>,
                     Tetris_lastDrop = 2000, Tetris_dropSpeed = 490\<rparr>"

section \<open>Snake\<close>

definition Snake_GRID_SIZE :: int where "Snake_GRID_SIZE = 4"
definition Snake_MAX_LEN :: int where "Snake_MAX_LEN = 128"

record Point =
  pt_x :: int
  pt_y :: int

record SnakeState =
  Snake_body :: "Point list"
  Snake_length :: int
  Snake_dir :: Point
  Snake_food :: Point
  Snake_lastMove :: u32
  Snake_speedMs :: int

text \<open>
  \<^verbatim>\<open>Snake::spawnFood\<close>: draw a cell, look for it in the first \<^verbatim>\<open>length\<close> entries of the
  body, and draw again while it is on the body. The loop has no bound, so the function is
  partial: \<open>None\<close> stands for a loop that never ends.
\<close>

partial_function (option) Snake_spawnFood ::
  "rng \<Rightarrow> SnakeState \<Rightarrow> (SnakeState \<times> rng) option" where
  "Snake_spawnFood r s =
     (let fx = random_range 0 (SCREEN_WIDTH div Snake_GRID_SIZE) r;
          fy = random_range 2 (SCREEN_HEIGHT div Snake_GRID_SIZE) (snd fx);
          s' = s\<lparr>Snake_food := \<lparr>pt_x = fst fx, pt_y = fst fy\<rparr>\<rparr>;
          onBody = list_ex (\<lambda>i. Snake_body s' ! i = Snake_food s') [0..<nat (Snake_length s')]
      in if onBody then Snake_spawnFood (snd fy) s' else Some (s', snd fy))"

declare Snake_spawnFood.simps [code]

text \<open>The assignments of \<^verbatim>\<open>Snake::init\<close> before the food is placed.\<close>

definition Snake_reset :: "SnakeState \<Rightarrow> SnakeState" where
  "Snake_reset s =
     s\<lparr>Snake_length := 3,
       Snake_body := (Snake_body s)[0 := \<lparr>pt_x = 10, pt_y = 10\<rparr>,
                                    1 := \<lparr>pt_x = 9, pt_y = 10\<rparr>,
                                    2 := \<lparr>pt_x = 8, pt_y = 10\<rparr>],
       Snake_dir := \<lparr>pt_x = 1, pt_y = 0\<rparr>\<rparr>"

definition Snake_init :: "u32 \<Rightarrow> rng \<Rightarrow> SnakeState \<Rightarrow> (SnakeState \<times> rng) option" where
  "Snake_init now r s =
     (case Snake_spawnFood r (Snake_reset s) of
        None \<Rightarrow> None
      | Some (s2, r') \<Rightarrow> Some (s2\<lparr>Snake_lastMove := now, Snake_speedMs := 150\<rparr>, r'))"

text \<open>The input part of \<^verbatim>\<open>Snake::update\<close>: the chain of four guarded turns.\<close>

definition Snake_turn :: "InputSystem \<Rightarrow> SnakeState \<Rightarrow> SnakeState" where
  "Snake_turn inp s =
     (if isJustPressed inp UP \<and> pt_y (Snake_dir s) = 0 then
        s\<lparr>Snake_dir := \<lparr>pt_x = 0, pt_y = - 1\<rparr>\<rparr>
      else if isJustPressed inp DOWN \<and> pt_y (Snake_dir s) = 0 then
        s\<lparr>Snake_dir := \<lparr>pt_x = 0, pt_y = 1\<rparr>\<rparr>
      else if isJustPressed inp LEFT \<and> pt_x (Snake_dir s) = 0 then
        s\<lparr>Snake_dir := \<lparr>pt_x = - 1, pt_y = 0\<rparr>\<rparr>
      else if isJustPressed inp RIGHT \<and> pt_x (Snake_dir s) = 0 then
        s\<lparr>Snake_dir := \<lparr>pt_x = 1, pt_y = 0\<rparr>\<rparr>
      else s)"

text \<open>\<^verbatim>\<open>for (i = length - 1; i > 0; i--) body[i] = body[i-1]\<close>, from \<open>i = k\<close> on.\<close>

fun Snake_shift :: "nat \<Rightarrow> Point list \<Rightarrow> Point list" where
  "Snake_shift 0 b = b"
| "Snake_shift (Suc k) b = Snake_shift k (b[Suc k := b ! k])"

text \<open>The body after one step: shifted, with the head moved by the direction.\<close>

definition Snake_moveBody :: "SnakeState \<Rightarrow> SnakeState" where
  "Snake_moveBody s =
     (let b = Snake_shift (nat (Snake_length s - 1)) (Snake_body s);
          h = b ! 0
      in s\<lparr>Snake_body := b[0 := \<lparr>pt_x = pt_x h + pt_x (Snake_dir s),
                                  pt_y = pt_y h + pt_y (Snake_dir s)\<rparr>]\<rparr>)"

definition Snake_hitsWall :: "SnakeState \<Rightarrow> bool" where
  "Snake_hitsWall s =
     (let h = Snake_body s ! 0 in
      pt_x h < 0 \<or> pt_x h \<ge> SCREEN_WIDTH div Snake_GRID_SIZE
      \<or> pt_y h < 2 \<or> pt_y h \<ge> SCREEN_HEIGHT div Snake_GRID_SIZE)"

definition Snake_hitsSelf :: "SnakeState \<Rightarrow> bool" where
  "Snake_hitsSelf s =
     list_ex (\<lambda>i. Snake_body s ! 0 = Snake_body s ! i) [1..<nat (Snake_length s)]"

text \<open>The last block of the update: the head is on the food.\<close>

definition Snake_grow :: "SnakeState \<Rightarrow> SnakeState" where
  "Snake_grow s =
     (if Snake_length s < Snake_MAX_LEN then s\<lparr>Snake_length := Snake_length s + 1\<rparr> else s)"

definition Snake_eat ::
  "rng \<Rightarrow> SnakeState \<Rightarrow> u32 \<Rightarrow> (SnakeState \<times> u32 \<times> bool \<times> rng) option" where
  "Snake_eat r s score =
     (case Snake_spawnFood r (Snake_grow s) of
        None \<Rightarrow> None
      | Some (s2, r') \<Rightarrow>
          Some (if Snake_speedMs s2 > 50 then s2\<lparr>Snake_speedMs := Snake_speedMs s2 - 2\<rparr>
                else s2,
                score + 1, False, r'))"

text \<open>
  \<^verbatim>\<open>Snake::update\<close>. The comparison of the elapsed time with \<^verbatim>\<open>speedMs\<close> is unsigned.
  The two collisions return at once.
\<close>

text \<open>The state after the turn, the time stamp and the step of the body.\<close>

definition Snake_moved :: "InputSystem \<Rightarrow> u32 \<Rightarrow> SnakeState \<Rightarrow> SnakeState" where
  "Snake_moved inp now s = Snake_moveBody ((Snake_turn inp s)\<lparr>Snake_lastMove := now\<rparr>)"

definition Snake_update ::
  "InputSystem \<Rightarrow> u32 \<Rightarrow> rng \<Rightarrow> SnakeState \<Rightarrow> u32
   \<Rightarrow> (SnakeState \<times> u32 \<times> bool \<times> rng) option" where
  "Snake_update inp now r s score =
     (let s1 = Snake_turn inp s in
      if now - Snake_lastMove s1 > word_of_int (Snake_speedMs s1) then
        (let s2 = Snake_moved inp now s in
         if Snake_hitsWall s2 then Some (s2, score, True, r)
         else if Snake_hitsSelf s2 then Some (s2, score, True, r)
         else if Snake_body s2 ! 0 = Snake_food s2 then Snake_eat r s2 score
         else Some (s2, score, False, r))
      else Some (s1, score, False, r))"

text \<open>
  What decides whether \<^verbatim>\<open>spawnFood\<close> returns: the cell of the \<open>k\<close>-th pass of its
  loop, read off the generator, and the test of a cell against the body.
\<close>

definition Snake_draw :: "rng \<Rightarrow> nat \<Rightarrow> Point" where
  "Snake_draw r k = \<lparr>pt_x = int (r (2 * k)) mod 32, pt_y = 2 + int (r (2 * k + 1)) mod 14\<rparr>"

definition Snake_onBody :: "SnakeState \<Rightarrow> Point \<Rightarrow> bool" where
  "Snake_onBody s c = list_ex (\<lambda>i. Snake_body s ! i = c) [0..<nat (Snake_length s)]"

text \<open>The values the threshold takes: even, from 150 down to 50.\<close>

definition speed_ok :: "SnakeState \<Rightarrow> bool" where
  "speed_ok s = (50 \<le> Snake_speedMs s \<and> Snake_speedMs s \<le> 150 \<and> even (Snake_speedMs s))"

text \<open>A session: one update per tick until the game is over.\<close>

fun Snake_play ::
  "(InputSystem \<times> u32) list \<Rightarrow> rng \<Rightarrow> SnakeState \<Rightarrow> u32
   \<Rightarrow> (SnakeState \<times> u32 \<times> bool \<times> rng) option" where
  "Snake_play [] r s score = Some (s, score, False, r)"
| "Snake_play ((inp, now) # ticks) r s score =
     (case Snake_update inp now r s score of
        None \<Rightarrow> None
      | Some (s', score', over, r') \<Rightarrow>
          if over then Some (s', score', True, r') else Snake_play ticks r' s' score')"

text \<open>The variables of the namespace as the program starts, and a generator that puts the
  first food right in front of the snake.\<close>

definition Snake_boot :: SnakeState where
  "Snake_boot = \<lparr>Snake_body = replicate 128 \<lparr>pt_x = 0, pt_y = 0\<rparr>, Snake_length = 0,
                  Snake_dir = \<lparr>pt_x = 0, pt_y = 0\<rparr>, Snake_food = \<lparr>pt_x = 0, pt_y = 0\<rparr>,
                  Snake_lastMove = 0, Snake_speedMs = 0\<rparr>"

definition food_ahead :: rng where
  "food_ahead n = (if n = 0 then 11 else if n = 1 then 8 else 0)"

definition Snake_started :: SnakeState where
  "Snake_started =
     \<lparr>Snake_body = [\<lparr>pt_x = 10, pt_y = 10\<rparr>, \<lparr>pt_x = 9, pt_y = 10\<rparr>, \<lparr>pt_x = 8, pt_y = 10\<rparr>]
                     @ replicate 125 \<lparr>pt_x = 0, pt_y = 0\<rparr>,
      Snake_length = 3, Snake_dir = \<lparr>pt_x = 1, pt_y = 0\<rparr>,
      Snake_food = \<lparr>pt_x = 11, pt_y = 10\<rparr>, Snake_lastMove = 0, Snake_speedMs = 150\<rparr>"

text \<open>Input systems in which LEFT, or UP, has just gone down.\<close>

definition only_left_low :: "nat \<Rightarrow> bool" where
  "only_left_low p = (p = PIN_LEFT)"

definition only_up_low :: "nat \<Rightarrow> bool" where
  "only_up_low p = (p = PIN_UP)"

definition left_pressed :: InputSystem where
  "left_pressed = input_update only_left_low 0 input_init"

definition up_pressed :: InputSystem where
  "up_pressed = input_update only_up_low 0 input_init"

section \<open>Stack Builder\<close>

record StackState =
  Stack_currentX :: rat
  Stack_currentW :: rat
  Stack_speed :: rat
  Stack_movingRight :: bool
  Stack_prevX :: rat
  Stack_prevW :: rat
  Stack_stackHeight :: int

definition Stack_init :: "StackState \<Rightarrow> StackState" where
  "Stack_init s =
     s\<lparr>Stack_currentW := 60, Stack_currentX := 0, Stack_speed := 1.5,
       Stack_movingRight := True, Stack_prevX := (of_int SCREEN_WIDTH - 60) / 2,
       Stack_prevW := 60, Stack_stackHeight := 0\<rparr>"

text \<open>The first block of \<^verbatim>\<open>Stack::update\<close>: the block slides and turns at the edges.\<close>

definition Stack_move :: "StackState \<Rightarrow> StackState" where
  "Stack_move s =
     (if Stack_movingRight s then
        (let s1 = s\<lparr>Stack_currentX := Stack_currentX s + Stack_speed s\<rparr> in
         if Stack_currentX s1 + Stack_currentW s1 \<ge> of_int SCREEN_WIDTH
         then s1\<lparr>Stack_movingRight := False\<rparr> else s1)
      else
        (let s1 = s\<lparr>Stack_currentX := Stack_currentX s - Stack_speed s\<rparr> in
         if Stack_currentX s1 \<le> 0 then s1\<lparr>Stack_movingRight := True\<rparr> else s1))"

text \<open>The locals \<^verbatim>\<open>left\<close>, \<^verbatim>\<open>right\<close> and \<^verbatim>\<open>overlap\<close> of the drop.\<close>

definition Stack_left :: "StackState \<Rightarrow> rat" where
  "Stack_left s = max (Stack_currentX s) (Stack_prevX s)"

definition Stack_right :: "StackState \<Rightarrow> rat" where
  "Stack_right s = min (Stack_currentX s + Stack_currentW s) (Stack_prevX s + Stack_prevW s)"

definition Stack_overlap :: "StackState \<Rightarrow> rat" where
  "Stack_overlap s = Stack_right s - Stack_left s"

text \<open>\<^verbatim>\<open>Stack::update\<close>: the state, the score and the game-over flag.\<close>

definition Stack_update :: "InputSystem \<Rightarrow> StackState \<Rightarrow> u32 \<Rightarrow> StackState \<times> u32 \<times> bool" where
  "Stack_update inp s score =
     (let s1 = Stack_move s in
      if isJustPressed inp SELECT then
        (let left = Stack_left s1; overlap = Stack_overlap s1 in
         if overlap \<le> 0 then (s1, score, True)
         else
           (s1\<lparr>Stack_prevX := left, Stack_prevW := overlap, Stack_currentW := overlap,
               Stack_currentX := 0, Stack_movingRight := True,
               Stack_stackHeight := Stack_stackHeight s1 + 1,
               Stack_speed := Stack_speed s1 + 0.2\<rparr>,
            score + 1, False))
      else (s1, score, False))"

definition Stack_boot :: StackState where
  "Stack_boot = \<lparr>Stack_currentX = 0, Stack_currentW = 0, Stack_speed = 0,
                  Stack_movingRight = False, Stack_prevX = 0, Stack_prevW = 0,
                  Stack_stackHeight = 0\<rparr>"

text \<open>An input system in which SELECT has just gone down.\<close>

definition select_pressed :: InputSystem where
  "select_pressed = input_update only_select_low 0 input_init"

section \<open>Knife Thrower\<close>

definition Knife_RADIUS :: int where "Knife_RADIUS = 16"
definition Knife_CENTER_Y :: int where "Knife_CENTER_Y = SCREEN_HEIGHT div 2 - 5"

record KnifeState =
  Knife_angle :: rat
  Knife_knifeY :: rat
  Knife_knifeFlying :: bool
  Knife_knives :: "rat list"
  Knife_knifeCount :: int
  Knife_knivesToWin :: int
  Knife_level :: int

definition Knife_init :: "KnifeState \<Rightarrow> KnifeState" where
  "Knife_init s =
     s\<lparr>Knife_angle := 0, Knife_knifeY := of_int (SCREEN_HEIGHT - 10),
       Knife_knifeFlying := False, Knife_knifeCount := 0, Knife_knivesToWin := 6,
       Knife_level := 1\<rparr>"

text \<open>The target turns, and the angle is brought back once it passes 6.28.\<close>

definition Knife_rotate :: "KnifeState \<Rightarrow> KnifeState" where
  "Knife_rotate s =
     (let a = Knife_angle s + (0.05 + of_int (Knife_level s) * 0.01) in
      s\<lparr>Knife_angle := (if a > 6.28 then a - 6.28 else a)\<rparr>)"

text \<open>The local \<^verbatim>\<open>hitAngle\<close>: the angle of the target that is at the bottom.\<close>

definition Knife_hitAngle :: "KnifeState \<Rightarrow> rat" where
  "Knife_hitAngle s =
     (let h = Knife_angle s + 1.57 in if h > 6.28 then h - 6.28 else h)"

text \<open>The local \<^verbatim>\<open>collision\<close>: the loop over the knives that stick in the target.\<close>

definition Knife_collision :: "KnifeState \<Rightarrow> bool" where
  "Knife_collision s =
     list_ex (\<lambda>i. \<bar>Knife_knives s ! i - Knife_hitAngle s\<bar> < 0.2) [0..<nat (Knife_knifeCount s)]"

text \<open>The knife sticks: it is stored, the score grows, and the level may be complete.\<close>

definition Knife_stick :: "KnifeState \<Rightarrow> u32 \<Rightarrow> KnifeState \<times> u32" where
  "Knife_stick s score =
     (if Knife_knifeCount s < 20 then
        (let s1 = s\<lparr>Knife_knives := (Knife_knives s)[nat (Knife_knifeCount s) := Knife_hitAngle s],
                    Knife_knifeCount := Knife_knifeCount s + 1\<rparr>;
             score1 = score + 1
         in if Knife_knifeCount s1 \<ge> Knife_knivesToWin s1 then
              (let w = Knife_knivesToWin s1 + 2 in
               (s1\<lparr>Knife_knifeCount := 0, Knife_level := Knife_level s1 + 1,
                   Knife_knivesToWin := (if w > 15 then 15 else w)\<rparr>,
                score1 + 10))
            else (s1, score1))
      else (s, score))"

definition Knife_update :: "InputSystem \<Rightarrow> KnifeState \<Rightarrow> u32 \<Rightarrow> KnifeState \<times> u32 \<times> bool" where
  "Knife_update inp s score =
     (let s1 = Knife_rotate s;
          s2 = (if \<not> Knife_knifeFlying s1 \<and> isJustPressed inp SELECT
                then s1\<lparr>Knife_knifeFlying := True\<rparr> else s1)
      in if Knife_knifeFlying s2 then
           (let s3 = s2\<lparr>Knife_knifeY := Knife_knifeY s2 - 4\<rparr> in
            if Knife_knifeY s3 \<le> of_int (Knife_CENTER_Y + Knife_RADIUS) then
              (let reset = (\<lambda>t. t\<lparr>Knife_knifeFlying := False,
                                    Knife_knifeY := of_int (SCREEN_HEIGHT - 10)\<rparr>)
               in if Knife_collision s3 then (reset s3, score, True)
                  else (let (s4, score') = Knife_stick s3 score in (reset s4, score', False)))
            else (s3, score, False))
         else (s2, score, False))"

definition Knife_boot :: KnifeState where
  "Knife_boot = \<lparr>Knife_angle = 0, Knife_knifeY = 0, Knife_knifeFlying = False,
                  Knife_knives = replicate 20 0, Knife_knifeCount = 0, Knife_knivesToWin = 0,
                  Knife_level = 0\<rparr>"

text \<open>The distance of two angles around a circle of circumference \<open>c\<close>.\<close>

definition circular_distance :: "rat \<Rightarrow> rat \<Rightarrow> rat \<Rightarrow> rat" where
  "circular_distance c a b = min \<bar>a - b\<bar> (c - \<bar>a - b\<bar>)"

text \<open>
  A session of \<open>n\<close> updates from a given start: SELECT is just pressed in the updates
  number 182 and 390 and in no other.
\<close>

definition Knife_script :: "nat \<Rightarrow> InputSystem" where
  "Knife_script k = (if k = 182 \<or> k = 390 then select_pressed else input_init)"

fun Knife_play :: "nat \<Rightarrow> KnifeState \<times> u32 \<times> bool \<Rightarrow> KnifeState \<times> u32 \<times> bool" where
  "Knife_play 0 st = st"
| "Knife_play (Suc n) st =
     (let (s, score, over) = Knife_play n st in
      if over then (s, score, over) else Knife_update (Knife_script (Suc n)) s score)"

text \<open>
  A concrete position: one knife sticks at 0.05, just past the zero of the target; the
  knife in the air arrives in this update, when the target has turned to 4.68 and its
  bottom is at 6.25.
\<close>

definition Knife_near_zero :: KnifeState where
  "Knife_near_zero =
     \<lparr>Knife_angle = 4.62, Knife_knifeY = 46, Knife_knifeFlying = True,
      Knife_knives = 0.05 # replicate 19 0, Knife_knifeCount = 1, Knife_knivesToWin = 6,
      Knife_level = 1\<rparr>"

section \<open>Pong\<close>

definition Pong_PADDLE_H :: int where "Pong_PADDLE_H = 12"
definition Pong_PADDLE_W :: int where "Pong_PADDLE_W = 3"

record PongState =
  Pong_ballX :: rat
  Pong_ballY :: rat
  Pong_ballVx :: rat
  Pong_ballVy :: rat
  Pong_paddleY :: rat
  Pong_aiY :: rat

definition Pong_init :: "PongState \<Rightarrow> PongState" where
  "Pong_init s =
     s\<lparr>Pong_ballX := of_int (SCREEN_WIDTH div 2), Pong_ballY := of_int (SCREEN_HEIGHT div 2),
       Pong_ballVx := 2.0, Pong_ballVy := 1.5,
       Pong_paddleY := of_int (SCREEN_HEIGHT div 2 - Pong_PADDLE_H div 2),
       Pong_aiY := of_int (SCREEN_HEIGHT div 2 - Pong_PADDLE_H div 2)\<rparr>"

text \<open>The player's paddle: two steps of 2, then the clamp.\<close>

definition Pong_player :: "InputSystem \<Rightarrow> PongState \<Rightarrow> PongState" where
  "Pong_player inp s =
     (let p1 = (if isPressed inp UP then Pong_paddleY s - 2 else Pong_paddleY s);
          p2 = (if isPressed inp DOWN then p1 + 2 else p1);
          p3 = (if p2 < 8 then 8 else p2);
          p4 = (if p3 > of_int (SCREEN_HEIGHT - Pong_PADDLE_H)
                then of_int (SCREEN_HEIGHT - Pong_PADDLE_H) else p3)
      in s\<lparr>Pong_paddleY := p4\<rparr>)"

text \<open>The two tests of the AI paddle, one after the other, before the clamp.\<close>

definition Pong_track :: "rat \<Rightarrow> rat \<Rightarrow> rat" where
  "Pong_track aiY ballY =
     (let a1 = (if aiY + of_int (Pong_PADDLE_H div 2) < ballY then aiY + 1.5 else aiY);
          a2 = (if a1 + of_int (Pong_PADDLE_H div 2) > ballY then a1 - 1.5 else a1)
      in a2)"

definition Pong_clamp :: "rat \<Rightarrow> rat" where
  "Pong_clamp a =
     (let a3 = (if a < 8 then 8 else a)
      in if a3 > of_int (SCREEN_HEIGHT - Pong_PADDLE_H)
         then of_int (SCREEN_HEIGHT - Pong_PADDLE_H) else a3)"

definition Pong_ai :: "PongState \<Rightarrow> PongState" where
  "Pong_ai s = s\<lparr>Pong_aiY := Pong_clamp (Pong_track (Pong_aiY s) (Pong_ballY s))\<rparr>"

text \<open>The ball moves and bounces off the top and the bottom.\<close>

definition Pong_ball :: "PongState \<Rightarrow> PongState" where
  "Pong_ball s =
     (let s1 = s\<lparr>Pong_ballX := Pong_ballX s + Pong_ballVx s,
                 Pong_ballY := Pong_ballY s + Pong_ballVy s\<rparr>
      in if Pong_ballY s1 \<le> 8 \<or> Pong_ballY s1 \<ge> of_int (SCREEN_HEIGHT - 2)
         then s1\<lparr>Pong_ballVy := - Pong_ballVy s1\<rparr> else s1)"

text \<open>The conditions of the two paddle hits, and the hits.\<close>

definition Pong_playerHit :: "PongState \<Rightarrow> bool" where
  "Pong_playerHit s =
     (Pong_ballX s \<le> of_int (Pong_PADDLE_W + 2) \<and> Pong_ballY s \<ge> Pong_paddleY s
      \<and> Pong_ballY s \<le> Pong_paddleY s + of_int Pong_PADDLE_H)"

definition Pong_aiHit :: "PongState \<Rightarrow> bool" where
  "Pong_aiHit s =
     (Pong_ballX s \<ge> of_int (SCREEN_WIDTH - Pong_PADDLE_W - 4) \<and> Pong_ballY s \<ge> Pong_aiY s
      \<and> Pong_ballY s \<le> Pong_aiY s + of_int Pong_PADDLE_H)"

definition Pong_hitPlayer :: "PongState \<Rightarrow> PongState" where
  "Pong_hitPlayer s =
     (if Pong_playerHit s
      then s\<lparr>Pong_ballVx := - Pong_ballVx s * 1.1, Pong_ballX := of_int (Pong_PADDLE_W + 2)\<rparr>
      else s)"

definition Pong_hitAi :: "PongState \<Rightarrow> PongState" where
  "Pong_hitAi s =
     (if Pong_aiHit s
      then s\<lparr>Pong_ballVx := - Pong_ballVx s,
             Pong_ballX := of_int (SCREEN_WIDTH - Pong_PADDLE_W - 4)\<rparr>
      else s)"

text \<open>The end of the update: the left wall ends the game, the right wall scores and
  serves the ball again.\<close>

definition Pong_walls :: "PongState \<Rightarrow> u32 \<Rightarrow> PongState \<times> u32 \<times> bool" where
  "Pong_walls s score =
     (let over = (Pong_ballX s < 0) in
      if Pong_ballX s > of_int SCREEN_WIDTH then
        (s\<lparr>Pong_ballX := of_int (Pong_PADDLE_W + 10),
           Pong_ballY := Pong_paddleY s + of_int (Pong_PADDLE_H div 2),
           Pong_ballVx := 2.0, Pong_ballVy := 1.5\<rparr>,
         score + 1, over)
      else (s, score, over))"

definition Pong_update :: "InputSystem \<Rightarrow> PongState \<Rightarrow> u32 \<Rightarrow> PongState \<times> u32 \<times> bool" where
  "Pong_update inp s score =
     Pong_walls (Pong_hitAi (Pong_hitPlayer (Pong_ball (Pong_ai (Pong_player inp s))))) score"

definition Pong_boot :: PongState where
  "Pong_boot = \<lparr>Pong_ballX = 0, Pong_ballY = 0, Pong_ballVx = 0, Pong_ballVy = 0,
                 Pong_paddleY = 0, Pong_aiY = 0\<rparr>"

text \<open>An update with no button down, on the state alone.\<close>

definition Pong_tick :: "PongState \<Rightarrow> PongState" where
  "Pong_tick s = fst (Pong_update input_init s 0)"

text \<open>The position after 18 updates of a new game with no button down: the AI paddle is
  half a step above its lower stop and the ball is further down.\<close>

definition Pong_low :: PongState where
  "Pong_low = \<lparr>Pong_ballX = 100, Pong_ballY = 59, Pong_ballVx = 2, Pong_ballVy = 1.5,
                Pong_paddleY = 26, Pong_aiY = 51.5\<rparr>"

text \<open>Whether an update with no button down reports game over, and a session of up to
  \<open>n\<close> such updates: the state it ends in, and whether it ended on game over.\<close>

definition Pong_over :: "PongState \<Rightarrow> bool" where
  "Pong_over s = snd (snd (Pong_update input_init s 0))"

fun Pong_idle :: "nat \<Rightarrow> PongState \<Rightarrow> PongState \<times> bool" where
  "Pong_idle 0 s = (s, False)"
| "Pong_idle (Suc n) s = (if Pong_over s then (Pong_tick s, True) else Pong_idle n (Pong_tick s))"

text \<open>The position after 89 updates of a new game with no button down: the ball is about
  to pass the player's paddle, far below it.\<close>

definition Pong_last :: PongState where
  "Pong_last = \<lparr>Pong_ballX = 1, Pong_ballY = 57.5, Pong_ballVx = - 2, Pong_ballVy = 1.5,
                 Pong_paddleY = 26, Pong_aiY = 50\<rparr>"

section \<open>Flappy Bird\<close>

definition Flappy_BIRD_X :: int where "Flappy_BIRD_X = 20"
definition Flappy_PIPE_W :: int where "Flappy_PIPE_W = 10"
definition Flappy_PIPE_GAP :: int where "Flappy_PIPE_GAP = 24"

record Pipe =
  pipe_x :: rat
  pipe_gapY :: int
  pipe_active :: bool
  pipe_passed :: bool

record FlappyState =
  Flappy_birdY :: rat
  Flappy_birdVy :: rat
  Flappy_pipes :: "Pipe list"

definition Flappy_init :: "FlappyState \<Rightarrow> FlappyState" where
  "Flappy_init s =
     s\<lparr>Flappy_birdY := of_int (SCREEN_HEIGHT div 2), Flappy_birdVy := 0,
       Flappy_pipes :=
         [\<lparr>pipe_x = of_int SCREEN_WIDTH, pipe_gapY = 32, pipe_active = True,
           pipe_passed = False\<rparr>,
          \<lparr>pipe_x = of_int (SCREEN_WIDTH + SCREEN_WIDTH div 2 + Flappy_PIPE_W), pipe_gapY = 32,
           pipe_active = True, pipe_passed = False\<rparr>]\<rparr>"

text \<open>The body of the loop over the pipes, for one pipe: the pipe, the score, the
  game-over flag and the generator.\<close>

definition Flappy_pipe ::
  "rat \<Rightarrow> Pipe \<times> u32 \<times> bool \<times> rng \<Rightarrow> Pipe \<times> u32 \<times> bool \<times> rng" where
  "Flappy_pipe birdY = (\<lambda>(p, score, over, r).
     let p1 = p\<lparr>pipe_x := pipe_x p - 1.5\<rparr>;
         (p2, r') = (if pipe_x p1 < - of_int Flappy_PIPE_W then
                       (let (g, r1) = random_range 10 (SCREEN_HEIGHT - 10 - Flappy_PIPE_GAP) r
                        in (p1\<lparr>pipe_x := of_int SCREEN_WIDTH, pipe_gapY := g,
                               pipe_passed := False\<rparr>, r1))
                     else (p1, r));
         over' = (if pipe_x p2 < of_int (Flappy_BIRD_X + 4)
                       \<and> pipe_x p2 + of_int Flappy_PIPE_W > of_int Flappy_BIRD_X
                       \<and> (birdY < of_int (pipe_gapY p2)
                            \<or> birdY + 4 > of_int (pipe_gapY p2 + Flappy_PIPE_GAP))
                  then True else over)
     in if \<not> pipe_passed p2 \<and> pipe_x p2 < of_int Flappy_BIRD_X
        then (p2\<lparr>pipe_passed := True\<rparr>, score + 1, over', r')
        else (p2, score, over', r'))"

text \<open>Iteration \<open>i\<close> of the loop, on the array of pipes.\<close>

definition Flappy_pipeAt ::
  "rat \<Rightarrow> nat \<Rightarrow> Pipe list \<times> u32 \<times> bool \<times> rng \<Rightarrow> Pipe list \<times> u32 \<times> bool \<times> rng" where
  "Flappy_pipeAt birdY i = (\<lambda>(ps, score, over, r).
     let (p, score', over', r') = Flappy_pipe birdY (ps ! i, score, over, r)
     in (ps[i := p], score', over', r'))"

definition Flappy_update ::
  "InputSystem \<Rightarrow> rng \<Rightarrow> FlappyState \<Rightarrow> u32 \<Rightarrow> FlappyState \<times> u32 \<times> bool \<times> rng" where
  "Flappy_update inp r s score =
     (let vy1 = Flappy_birdVy s + 0.25;
          y1 = Flappy_birdY s + vy1;
          vy2 = (if isJustPressed inp SELECT \<or> isJustPressed inp UP then - 2.5 else vy1);
          over1 = (y1 < 0 \<or> y1 > of_int (SCREEN_HEIGHT - 8));
          (ps, score', over, r') = fold (Flappy_pipeAt y1) [0..<2] (Flappy_pipes s, score, over1, r)
      in (s\<lparr>Flappy_birdY := y1, Flappy_birdVy := vy2, Flappy_pipes := ps\<rparr>, score', over, r'))"

definition Flappy_boot :: FlappyState where
  "Flappy_boot = \<lparr>Flappy_birdY = 0, Flappy_birdVy = 0,
                   Flappy_pipes = replicate 2 \<lparr>pipe_x = 0, pipe_gapY = 0, pipe_active = False,
                                                pipe_passed = False\<rparr>\<rparr>"

section \<open>Brick Breaker\<close>

definition Brick_PADDLE_W :: int where "Brick_PADDLE_W = 20"
definition Brick_PADDLE_H :: int where "Brick_PADDLE_H = 3"
definition Brick_BRICK_W :: int where "Brick_BRICK_W = 10"
definition Brick_BRICK_H :: int where "Brick_BRICK_H = 6"
definition Brick_COLS :: int where "Brick_COLS = 12"
definition Brick_ROWS :: int where "Brick_ROWS = 8"

record BrickState =
  Brick_ballX :: rat
  Brick_ballY :: rat
  Brick_ballVx :: rat
  Brick_ballVy :: rat
  Brick_paddleX :: rat
  Brick_bricks :: "bool list list"
  Brick_lastRowTime :: u32
  Brick_speedMs :: int

text \<open>\<^verbatim>\<open>for (y = ROWS-1; y > 0; y--) bricks[y] = bricks[y-1]\<close>, row by row, from \<open>y = k\<close> on.\<close>

fun Brick_shift :: "nat \<Rightarrow> bool list list \<Rightarrow> bool list list" where
  "Brick_shift 0 b = b"
| "Brick_shift (Suc k) b = Brick_shift k (b[Suc k := b ! k])"

text \<open>The new row: one call of \<^verbatim>\<open>random(0, 10)\<close> per column, left to right.\<close>

fun Brick_newRow :: "nat \<Rightarrow> rng \<Rightarrow> bool list \<times> rng" where
  "Brick_newRow 0 r = ([], r)"
| "Brick_newRow (Suc n) r =
     (let (v, r1) = random_range 0 10 r; (row, r2) = Brick_newRow n r1 in ((v > 3) # row, r2))"

definition Brick_spawnRow :: "rng \<Rightarrow> BrickState \<Rightarrow> BrickState \<times> rng" where
  "Brick_spawnRow r s =
     (let b = Brick_shift (nat (Brick_ROWS - 1)) (Brick_bricks s);
          (row, r') = Brick_newRow (nat Brick_COLS) r
      in (s\<lparr>Brick_bricks := b[0 := row]\<rparr>, r'))"

definition Brick_init :: "u32 \<Rightarrow> rng \<Rightarrow> BrickState \<Rightarrow> BrickState \<times> rng" where
  "Brick_init now r s =
     (let s0 = s\<lparr>Brick_paddleX := of_int (SCREEN_WIDTH div 2 - Brick_PADDLE_W div 2),
                 Brick_ballX := of_int (SCREEN_WIDTH div 2),
                 Brick_ballY := of_int (SCREEN_HEIGHT - 10),
                 Brick_ballVx := 1.5, Brick_ballVy := - 1.5, Brick_speedMs := 5000,
                 Brick_lastRowTime := now,
                 Brick_bricks := replicate (nat Brick_ROWS) (replicate (nat Brick_COLS) False)\<rparr>;
          (s1, r1) = Brick_spawnRow r s0;
          (s2, r2) = Brick_spawnRow r1 s1
      in Brick_spawnRow r2 s2)"

text \<open>Paddle, ball, walls and the paddle bounce: everything before the bricks.\<close>

definition Brick_physics :: "InputSystem \<Rightarrow> BrickState \<Rightarrow> BrickState \<times> bool" where
  "Brick_physics inp s =
     (let p1 = (if isPressed inp LEFT then Brick_paddleX s - 3 else Brick_paddleX s);
          p2 = (if isPressed inp RIGHT then p1 + 3 else p1);
          p3 = (if p2 < 0 then 0 else p2);
          p4 = (if p3 > of_int (SCREEN_WIDTH - Brick_PADDLE_W)
                then of_int (SCREEN_WIDTH - Brick_PADDLE_W) else p3);
          x = Brick_ballX s + Brick_ballVx s;
          y = Brick_ballY s + Brick_ballVy s;
          vx1 = (if x \<le> 0 \<or> x \<ge> of_int SCREEN_WIDTH then - Brick_ballVx s else Brick_ballVx s);
          vy1 = (if y \<le> 8 then - Brick_ballVy s else Brick_ballVy s);
          over = (y > of_int SCREEN_HEIGHT);
          hit = (y \<ge> of_int (SCREEN_HEIGHT - Brick_PADDLE_H - 2) \<and> y < of_int (SCREEN_HEIGHT - 2)
                 \<and> x \<ge> p4 \<and> x \<le> p4 + of_int Brick_PADDLE_W);
          vy2 = (if hit then - \<bar>vy1\<bar> else vy1);
          vx2 = (if hit then ((x - p4) / of_int Brick_PADDLE_W - 0.5) * 4.0 else vx1)
      in (s\<lparr>Brick_paddleX := p4, Brick_ballX := x, Brick_ballY := y, Brick_ballVx := vx2,
            Brick_ballVy := vy2\<rparr>, over))"

text \<open>The brick under the ball, if there is one, goes and scores.\<close>

definition Brick_hitBrick :: "BrickState \<Rightarrow> u32 \<Rightarrow> BrickState \<times> u32" where
  "Brick_hitBrick s score =
     (let bx = ftrunc (Brick_ballX s / of_int Brick_BRICK_W);
          by = ftrunc ((Brick_ballY s - 8) / of_int Brick_BRICK_H)
      in if by \<ge> 0 \<and> by < Brick_ROWS \<and> bx \<ge> 0 \<and> bx < Brick_COLS
            \<and> Brick_bricks s ! nat by ! nat bx
         then (s\<lparr>Brick_bricks := (Brick_bricks s)[nat by := (Brick_bricks s ! nat by)[nat bx := False]],
                 Brick_ballVy := - Brick_ballVy s\<rparr>, score + 1)
         else (s, score))"

text \<open>A new row when the interval has passed; a brick in the bottom row ends the game.\<close>

definition Brick_rows :: "u32 \<Rightarrow> rng \<Rightarrow> BrickState \<Rightarrow> BrickState \<times> bool \<times> rng" where
  "Brick_rows now r s =
     (if now - Brick_lastRowTime s > word_of_int (Brick_speedMs s) then
        (let over = list_ex (\<lambda>x. Brick_bricks s ! nat (Brick_ROWS - 1) ! x) [0..<nat Brick_COLS];
             (s1, r') = Brick_spawnRow r (s\<lparr>Brick_lastRowTime := now\<rparr>)
         in (if Brick_speedMs s1 > 1000 then s1\<lparr>Brick_speedMs := Brick_speedMs s1 - 50\<rparr> else s1,
             over, r'))
      else (s, False, r))"

definition Brick_update ::
  "InputSystem \<Rightarrow> u32 \<Rightarrow> rng \<Rightarrow> BrickState \<Rightarrow> u32 \<Rightarrow> BrickState \<times> u32 \<times> bool \<times> rng" where
  "Brick_update inp now r s score =
     (let (s1, over1) = Brick_physics inp s;
          (s2, score') = Brick_hitBrick s1 score;
          (s3, over2, r') = Brick_rows now r s2
      in (s3, score', over1 \<or> over2, r'))"

definition Brick_boot :: BrickState where
  "Brick_boot = \<lparr>Brick_ballX = 0, Brick_ballY = 0, Brick_ballVx = 0, Brick_ballVy = 0,
                  Brick_paddleX = 0, Brick_bricks = replicate 8 (replicate 12 False),
                  Brick_lastRowTime = 0, Brick_speedMs = 0\<rparr>"

section \<open>Dodge Pixels\<close>

record Obstacle =
  obs_x :: rat
  obs_y :: rat
  obs_vy :: rat
  obs_active :: bool

record DodgeState =
  Dodge_obs :: "Obstacle list"
  Dodge_playerX :: rat
  Dodge_playerY :: rat
  Dodge_spawnRate :: rat
  Dodge_lastSpawn :: u32

definition Dodge_init :: "u32 \<Rightarrow> DodgeState \<Rightarrow> DodgeState" where
  "Dodge_init now s =
     s\<lparr>Dodge_playerX := of_int (SCREEN_WIDTH div 2), Dodge_playerY := of_int (SCREEN_HEIGHT - 10),
       Dodge_spawnRate := 1000, Dodge_lastSpawn := now,
       Dodge_obs := map (\<lambda>ob. ob\<lparr>obs_active := False\<rparr>) (Dodge_obs s)\<rparr>"

definition Dodge_player :: "InputSystem \<Rightarrow> DodgeState \<Rightarrow> DodgeState" where
  "Dodge_player inp s =
     (let x1 = (if isPressed inp LEFT then Dodge_playerX s - 2 else Dodge_playerX s);
          x2 = (if isPressed inp RIGHT then x1 + 2 else x1);
          y1 = (if isPressed inp UP then Dodge_playerY s - 2 else Dodge_playerY s);
          y2 = (if isPressed inp DOWN then y1 + 2 else y1);
          x3 = (if x2 < 0 then 0 else x2);
          x4 = (if x3 > of_int (SCREEN_WIDTH - 4) then of_int (SCREEN_WIDTH - 4) else x3);
          y3 = (if y2 < 8 then 8 else y2);
          y4 = (if y3 > of_int (SCREEN_HEIGHT - 4) then of_int (SCREEN_HEIGHT - 4) else y3)
      in s\<lparr>Dodge_playerX := x4, Dodge_playerY := y4\<rparr>)"

text \<open>The search for a free slot, from index \<open>i\<close> on; the first one found is filled, and
  only then are the two random numbers drawn.\<close>

function Dodge_fill :: "nat \<Rightarrow> rng \<Rightarrow> Obstacle list \<Rightarrow> Obstacle list \<times> rng" where
  "Dodge_fill i r obs =
     (if i < 10 then
        (if \<not> obs_active (obs ! i) then
           (let (x, r1) = random_range 0 (SCREEN_WIDTH - 4) r;
                (v, r2) = random_range 10 30 r1
            in (obs[i := \<lparr>obs_x = of_int x, obs_y = 8, obs_vy = of_int v / 10.0,
                          obs_active = True\<rparr>], r2))
         else Dodge_fill (Suc i) r obs)
      else (obs, r))"
  by pat_completeness auto
termination
  by (relation "measure (\<lambda>(i, r, obs). 10 - i)") auto

definition Dodge_spawn :: "u32 \<Rightarrow> rng \<Rightarrow> DodgeState \<Rightarrow> DodgeState \<times> rng" where
  "Dodge_spawn now r s =
     (if of_nat (unat (now - Dodge_lastSpawn s)) > Dodge_spawnRate s then
        (let (obs, r') = Dodge_fill 0 r (Dodge_obs s);
             s1 = s\<lparr>Dodge_lastSpawn := now, Dodge_obs := obs\<rparr>
         in (if Dodge_spawnRate s1 > 200 then s1\<lparr>Dodge_spawnRate := Dodge_spawnRate s1 - 10\<rparr>
             else s1, r'))
      else (s, r))"

text \<open>The body of the last loop, for one obstacle.\<close>

definition Dodge_obstacle ::
  "rat \<Rightarrow> rat \<Rightarrow> Obstacle \<times> u32 \<times> bool \<Rightarrow> Obstacle \<times> u32 \<times> bool" where
  "Dodge_obstacle px py = (\<lambda>(ob, score, over).
     if obs_active ob then
       (let ob1 = ob\<lparr>obs_y := obs_y ob + obs_vy ob\<rparr>;
            over' = (if obs_x ob1 < px + 4 \<and> obs_x ob1 + 4 > px
                        \<and> obs_y ob1 < py + 4 \<and> obs_y ob1 + 4 > py then True else over)
        in if obs_y ob1 > of_int SCREEN_HEIGHT
           then (ob1\<lparr>obs_active := False\<rparr>, score + 1, over')
           else (ob1, score, over'))
     else (ob, score, over))"

definition Dodge_obstacleAt ::
  "rat \<Rightarrow> rat \<Rightarrow> nat \<Rightarrow> Obstacle list \<times> u32 \<times> bool \<Rightarrow> Obstacle list \<times> u32 \<times> bool" where
  "Dodge_obstacleAt px py i = (\<lambda>(obs, score, over).
     let (ob, score', over') = Dodge_obstacle px py (obs ! i, score, over)
     in (obs[i := ob], score', over'))"

definition Dodge_update ::
  "InputSystem \<Rightarrow> u32 \<Rightarrow> rng \<Rightarrow> DodgeState \<Rightarrow> u32 \<Rightarrow> DodgeState \<times> u32 \<times> bool \<times> rng" where
  "Dodge_update inp now r s score =
     (let s1 = Dodge_player inp s;
          (s2, r') = Dodge_spawn now r s1;
          (obs, score', over) =
             fold (Dodge_obstacleAt (Dodge_playerX s2) (Dodge_playerY s2)) [0..<10]
               (Dodge_obs s2, score, False)
      in (s2\<lparr>Dodge_obs := obs\<rparr>, score', over, r'))"

definition Dodge_boot :: DodgeState where
  "Dodge_boot = \<lparr>Dodge_obs = replicate 10 \<lparr>obs_x = 0, obs_y = 0, obs_vy = 0, obs_active = False\<rparr>,
                  Dodge_playerX = 0, Dodge_playerY = 0, Dodge_spawnRate = 0, Dodge_lastSpawn = 0\<rparr>"

section \<open>Mario Runner\<close>

definition Mario_PLAYER_X :: int where "Mario_PLAYER_X = 20"
definition Mario_COLS :: int where "Mario_COLS = 17"

record Entity =
  ent_x :: rat
  ent_y :: rat
  ent_type :: int
  ent_active :: bool

record MarioState =
  Mario_playerY :: rat
  Mario_playerVy :: rat
  Mario_ground :: "8 word list"
  Mario_entities :: "Entity list"
  Mario_speed :: rat
  Mario_offset :: rat

definition Mario_init :: "MarioState \<Rightarrow> MarioState" where
  "Mario_init s =
     s\<lparr>Mario_playerY := 32, Mario_playerVy := 0, Mario_speed := 1.5, Mario_offset := 0,
       Mario_ground := replicate (nat Mario_COLS) 50,
       Mario_entities := map (\<lambda>e. e\<lparr>ent_active := False\<rparr>) (Mario_entities s)\<rparr>"

text \<open>The height of the ground under the player, as the \<^verbatim>\<open>int\<close> the source computes with.\<close>

definition Mario_groundAt :: "MarioState \<Rightarrow> int" where
  "Mario_groundAt s = uint (Mario_ground s ! nat (Mario_PLAYER_X div 8))"

text \<open>Jump, gravity, landing and the pit.\<close>

definition Mario_player :: "InputSystem \<Rightarrow> MarioState \<Rightarrow> MarioState \<times> bool" where
  "Mario_player inp s =
     (let vy0 = (if (isJustPressed inp SELECT \<or> isJustPressed inp UP)
                    \<and> Mario_playerY s \<ge> of_int (Mario_groundAt s - 8 - 2)
                 then - 3.5 else Mario_playerVy s);
          vy1 = vy0 + 0.3;
          y1 = Mario_playerY s + vy1;
          landed = (y1 > of_int (Mario_groundAt s - 8));
          y2 = (if landed then of_int (Mario_groundAt s - 8) else y1);
          vy2 = (if landed then 0 else vy1)
      in (s\<lparr>Mario_playerY := y2, Mario_playerVy := vy2\<rparr>, y2 > of_int SCREEN_HEIGHT))"

text \<open>\<^verbatim>\<open>for (i = 0; i < COLS-1; i++) ground[i] = ground[i+1]\<close>, from index \<open>i\<close> on.\<close>

function Mario_shift :: "nat \<Rightarrow> 8 word list \<Rightarrow> 8 word list" where
  "Mario_shift i g = (if i < 16 then Mario_shift (Suc i) (g[i := g ! Suc i]) else g)"
  by pat_completeness auto
termination
  by (relation "measure (\<lambda>(i, g). 16 - i)") auto

text \<open>The new last column: a pit, or the previous height moved by a random step and
  clamped.\<close>

definition Mario_newGround :: "rng \<Rightarrow> 8 word list \<Rightarrow> 8 word list \<times> rng" where
  "Mario_newGround r g =
     (let prev = uint (g ! nat (Mario_COLS - 2));
          (p, r1) = random_range 0 10 r
      in if p < 2 then (g[nat (Mario_COLS - 1) := word_of_int (SCREEN_HEIGHT + 20)], r1)
         else
           (let (d, r2) = random_range (- 4) 5 r1;
                h = prev + d;
                h1 = (if h < 32 then 32 else h);
                h2 = (if h1 > 60 then 60 else h1)
            in (g[nat (Mario_COLS - 1) := word_of_int h2], r2)))"

text \<open>The search for a free entity slot, from index \<open>i\<close> on.\<close>

function Mario_fill :: "nat \<Rightarrow> rng \<Rightarrow> int \<Rightarrow> Entity list \<Rightarrow> Entity list \<times> rng" where
  "Mario_fill i r gnd es =
     (if i < 5 then
        (if \<not> ent_active (es ! i) then
           (let (t, r1) = random_range 0 2 r;
                e = \<lparr>ent_x = of_int ((Mario_COLS - 1) * 8), ent_y = of_int gnd - 8, ent_type = t,
                     ent_active = True\<rparr>
            in (es[i := (if ent_type e = 0 then e\<lparr>ent_y := ent_y e - 16\<rparr> else e)], r1))
         else Mario_fill (Suc i) r gnd es)
      else (es, r))"
  by pat_completeness auto
termination
  by (relation "measure (\<lambda>(i, r, gnd, es). 5 - i)") auto

definition Mario_spawn :: "rng \<Rightarrow> MarioState \<Rightarrow> MarioState \<times> rng" where
  "Mario_spawn r s =
     (let gnd = uint (Mario_ground s ! nat (Mario_COLS - 1)) in
      if gnd < SCREEN_HEIGHT then
        (let (p, r1) = random_range 0 10 r in
         if p < 3 then
           (let (es, r2) = Mario_fill 0 r1 gnd (Mario_entities s)
            in (s\<lparr>Mario_entities := es\<rparr>, r2))
         else (s, r1))
      else (s, r))"

text \<open>The scroll: every eight pixels the ground moves by one column and the score grows.\<close>

definition Mario_scroll :: "rng \<Rightarrow> MarioState \<Rightarrow> u32 \<Rightarrow> MarioState \<times> u32 \<times> rng" where
  "Mario_scroll r s score =
     (let off = Mario_offset s + Mario_speed s in
      if off \<ge> 8 then
        (let (g, r1) = Mario_newGround r (Mario_shift 0 (Mario_ground s));
             (s1, r2) = Mario_spawn r1 (s\<lparr>Mario_offset := off - 8, Mario_ground := g\<rparr>)
         in (s1, score + 1, r2))
      else (s\<lparr>Mario_offset := off\<rparr>, score, r))"

text \<open>The body of the loop over the entities, for one entity.\<close>

definition Mario_entity ::
  "rat \<Rightarrow> rat \<Rightarrow> Entity \<times> u32 \<times> bool \<Rightarrow> Entity \<times> u32 \<times> bool" where
  "Mario_entity speed py = (\<lambda>(e, score, over).
     if ent_active e then
       (let e1 = e\<lparr>ent_x := ent_x e - speed\<rparr>;
            touch = (ent_x e1 < of_int (Mario_PLAYER_X + 8) \<and> ent_x e1 + 8 > of_int Mario_PLAYER_X
                     \<and> ent_y e1 < py + 8 \<and> ent_y e1 + 8 > py);
            (e2, score', over') =
               (if touch then
                  (if ent_type e1 = 0 then (e1\<lparr>ent_active := False\<rparr>, score + 10, over)
                   else (e1, score, True))
                else (e1, score, over))
        in (if ent_x e2 < - 8 then e2\<lparr>ent_active := False\<rparr> else e2, score', over'))
     else (e, score, over))"

definition Mario_entityAt ::
  "rat \<Rightarrow> rat \<Rightarrow> nat \<Rightarrow> Entity list \<times> u32 \<times> bool \<Rightarrow> Entity list \<times> u32 \<times> bool" where
  "Mario_entityAt speed py i = (\<lambda>(es, score, over).
     let (e, score', over') = Mario_entity speed py (es ! i, score, over)
     in (es[i := e], score', over'))"

definition Mario_update ::
  "InputSystem \<Rightarrow> rng \<Rightarrow> MarioState \<Rightarrow> u32 \<Rightarrow> MarioState \<times> u32 \<times> bool \<times> rng" where
  "Mario_update inp r s score =
     (let (s1, over1) = Mario_player inp s;
          (s2, score1, r') = Mario_scroll r s1 score;
          (es, score2, over2) =
             fold (Mario_entityAt (Mario_speed s2) (Mario_playerY s2)) [0..<5]
               (Mario_entities s2, score1, over1)
      in (s2\<lparr>Mario_entities := es\<rparr>, score2, over2, r'))"

definition Mario_boot :: MarioState where
  "Mario_boot = \<lparr>Mario_playerY = 0, Mario_playerVy = 0, Mario_ground = replicate 17 0,
                  Mario_entities = replicate 5 \<lparr>ent_x = 0, ent_y = 0, ent_type = 0,
                                                 ent_active = False\<rparr>,
                  Mario_speed = 0, Mario_offset = 0\<rparr>"

section \<open>Helicopter\<close>

definition Heli_COLS :: int where "Heli_COLS = 17"

record HeliState =
  Heli_y :: rat
  Heli_vy :: rat
  Heli_roof :: "8 word list"
  Heli_floor :: "8 word list"
  Heli_offset :: rat
  Heli_speed :: rat

definition Heli_init :: "HeliState \<Rightarrow> HeliState" where
  "Heli_init s =
     s\<lparr>Heli_y := 32, Heli_vy := 0, Heli_speed := 2.0, Heli_offset := 0,
       Heli_roof := replicate (nat Heli_COLS) 10, Heli_floor := replicate (nat Heli_COLS) 54\<rparr>"

text \<open>The shift of both arrays by one column, from index \<open>i\<close> on.\<close>

function Heli_shift :: "nat \<Rightarrow> 8 word list \<Rightarrow> 8 word list" where
  "Heli_shift i g = (if i < 16 then Heli_shift (Suc i) (g[i := g ! Suc i]) else g)"
  by pat_completeness auto
termination
  by (relation "measure (\<lambda>(i, g). 16 - i)") auto

text \<open>The new last column of the cave.\<close>

definition Heli_generate :: "rng \<Rightarrow> HeliState \<Rightarrow> HeliState \<times> rng" where
  "Heli_generate r s =
     (let (d1, r1) = random_range (- 2) 3 r;
          rf = uint (Heli_roof s ! nat (Heli_COLS - 2)) + d1;
          (d2, r2) = random_range (- 2) 3 r1;
          fl = uint (Heli_floor s ! nat (Heli_COLS - 2)) + d2;
          rf1 = (if rf < 8 then 8 else rf);
          fl1 = (if fl > 63 then 63 else fl);
          (rf2, fl2, r3) =
             (if fl1 - rf1 < 20 then
                (let (c, r') = random_range 0 2 r2
                 in if c = 0 then (rf1 - 2, fl1, r') else (rf1, fl1 + 2, r'))
              else (rf1, fl1, r2))
      in (s\<lparr>Heli_roof := (Heli_roof s)[nat (Heli_COLS - 1) := word_of_int rf2],
            Heli_floor := (Heli_floor s)[nat (Heli_COLS - 1) := word_of_int fl2]\<rparr>, r3))"

definition Heli_update ::
  "InputSystem \<Rightarrow> rng \<Rightarrow> HeliState \<Rightarrow> u32 \<Rightarrow> HeliState \<times> u32 \<times> bool \<times> rng" where
  "Heli_update inp r s score =
     (let vy0 = (if isPressed inp SELECT \<or> isPressed inp UP then Heli_vy s + (- 0.3)
                 else Heli_vy s);
          vy1 = vy0 + 0.15;
          y1 = Heli_y s + vy1;
          off = Heli_offset s + Heli_speed s;
          s1 = s\<lparr>Heli_vy := vy1, Heli_y := y1\<rparr>;
          (s2, score', r') =
             (if off \<ge> 8 then
                (let (s', r1) = Heli_generate r
                                 (s1\<lparr>Heli_offset := off - 8,
                                     Heli_roof := Heli_shift 0 (Heli_roof s1),
                                     Heli_floor := Heli_shift 0 (Heli_floor s1)\<rparr>)
                 in (s', score + 1, r1))
              else (s1\<lparr>Heli_offset := off\<rparr>, score, r));
          col = nat (20 div 8);
          over = (y1 < of_int (uint (Heli_roof s2 ! col))
                  \<or> y1 + 6 > of_int (uint (Heli_floor s2 ! col)))
      in (s2, score', over, r'))"

definition Heli_boot :: HeliState where
  "Heli_boot = \<lparr>Heli_y = 0, Heli_vy = 0, Heli_roof = replicate 17 0,
                 Heli_floor = replicate 17 0, Heli_offset = 0, Heli_speed = 0\<rparr>"

section \<open>Tunnel Runner\<close>

definition Tunnel_ROWS :: int where "Tunnel_ROWS = 16"

record TunnelState =
  Tunnel_leftWall :: "8 word list"
  Tunnel_rightWall :: "8 word list"
  Tunnel_playerX :: rat
  Tunnel_speedMs :: int
  Tunnel_lastMove :: u32

definition Tunnel_init :: "u32 \<Rightarrow> TunnelState \<Rightarrow> TunnelState" where
  "Tunnel_init now s =
     s\<lparr>Tunnel_playerX := of_int (SCREEN_WIDTH div 2), Tunnel_speedMs := 100,
       Tunnel_lastMove := now,
       Tunnel_leftWall := replicate (nat Tunnel_ROWS) 20,
       Tunnel_rightWall := replicate (nat Tunnel_ROWS) (word_of_int (SCREEN_WIDTH - 20))\<rparr>"

text \<open>\<^verbatim>\<open>for (i = ROWS-1; i > 0; i--) wall[i] = wall[i-1]\<close>, from \<open>i = k\<close> on.\<close>

fun Tunnel_shift :: "nat \<Rightarrow> 8 word list \<Rightarrow> 8 word list" where
  "Tunnel_shift 0 g = g"
| "Tunnel_shift (Suc k) g = Tunnel_shift k (g[Suc k := g ! k])"

text \<open>The step of the tunnel when the interval has passed.\<close>

definition Tunnel_step :: "u32 \<Rightarrow> rng \<Rightarrow> TunnelState \<Rightarrow> u32 \<Rightarrow> TunnelState \<times> u32 \<times> rng" where
  "Tunnel_step now r s score =
     (if now - Tunnel_lastMove s > word_of_int (Tunnel_speedMs s) then
        (let lw = Tunnel_shift (nat (Tunnel_ROWS - 1)) (Tunnel_leftWall s);
             rw = Tunnel_shift (nat (Tunnel_ROWS - 1)) (Tunnel_rightWall s);
             (d1, r1) = random_range (- 4) 5 r;
             l = uint (lw ! 1) + d1;
             (d2, r2) = random_range (- 4) 5 r1;
             rt = uint (rw ! 1) + d2;
             l1 = (if l < 0 then 0 else l);
             rt1 = (if rt > SCREEN_WIDTH then SCREEN_WIDTH else rt);
             narrow = (rt1 - l1 < 20);
             l2 = (if narrow then l1 - 2 else l1);
             rt2 = (if narrow then rt1 + 2 else rt1);
             s1 = s\<lparr>Tunnel_lastMove := now, Tunnel_leftWall := lw[0 := word_of_int l2],
                     Tunnel_rightWall := rw[0 := word_of_int rt2]\<rparr>
         in (if Tunnel_speedMs s1 > 20 then s1\<lparr>Tunnel_speedMs := Tunnel_speedMs s1 - 1\<rparr> else s1,
             score + 1, r2))
      else (s, score, r))"

definition Tunnel_update ::
  "InputSystem \<Rightarrow> u32 \<Rightarrow> rng \<Rightarrow> TunnelState \<Rightarrow> u32 \<Rightarrow> TunnelState \<times> u32 \<times> bool \<times> rng" where
  "Tunnel_update inp now r s score =
     (let x1 = (if isPressed inp LEFT then Tunnel_playerX s - 2 else Tunnel_playerX s);
          x2 = (if isPressed inp RIGHT then x1 + 2 else x1);
          (s1, score', r') = Tunnel_step now r (s\<lparr>Tunnel_playerX := x2\<rparr>) score;
          pRow = nat (Tunnel_ROWS - 2);
          over = (x2 < of_int (uint (Tunnel_leftWall s1 ! pRow))
                  \<or> x2 + 4 > of_int (uint (Tunnel_rightWall s1 ! pRow)))
      in (s1, score', over, r'))"

definition Tunnel_boot :: TunnelState where
  "Tunnel_boot = \<lparr>Tunnel_leftWall = replicate 16 0, Tunnel_rightWall = replicate 16 0,
                   Tunnel_playerX = 0, Tunnel_speedMs = 0, Tunnel_lastMove = 0\<rparr>"

section \<open>Doodle Jump\<close>

record Platform =
  plat_x :: rat
  plat_y :: rat
  plat_active :: bool

record DoodleState =
  Doodle_playerX :: rat
  Doodle_playerY :: rat
  Doodle_playerVy :: rat
  Doodle_plats :: "Platform list"
  Doodle_cameraY :: rat
  Doodle_maxScoreY :: rat

text \<open>The loop of \<^verbatim>\<open>Doodle::init\<close> over the platforms, from index \<open>i\<close> on.\<close>

function Doodle_place :: "nat \<Rightarrow> rng \<Rightarrow> Platform list \<Rightarrow> Platform list \<times> rng" where
  "Doodle_place i r ps =
     (if i < 10 then
        (let (x, r1) = random_range 0 (SCREEN_WIDTH - 10) r
         in Doodle_place (Suc i) r1
              (ps[i := \<lparr>plat_x = of_int x, plat_y = of_int (SCREEN_HEIGHT - int i * 15),
                        plat_active = True\<rparr>]))
      else (ps, r))"
  by pat_completeness auto
termination
  by (relation "measure (\<lambda>(i, r, ps). 10 - i)") auto

definition Doodle_init :: "rng \<Rightarrow> DoodleState \<Rightarrow> DoodleState \<times> rng" where
  "Doodle_init r s =
     (let (ps, r') = Doodle_place 0 r (Doodle_plats s)
      in (s\<lparr>Doodle_playerX := of_int (SCREEN_WIDTH div 2),
             Doodle_playerY := of_int (SCREEN_HEIGHT div 2), Doodle_playerVy := 0,
             Doodle_cameraY := 0, Doodle_maxScoreY := 0, Doodle_plats := ps\<rparr>, r'))"

text \<open>Steering, the wrap around the screen, and gravity.\<close>

definition Doodle_player :: "InputSystem \<Rightarrow> DoodleState \<Rightarrow> DoodleState" where
  "Doodle_player inp s =
     (let x1 = (if isPressed inp LEFT then Doodle_playerX s - 2 else Doodle_playerX s);
          x2 = (if isPressed inp RIGHT then x1 + 2 else x1);
          x3 = (if x2 < - 4 then of_int SCREEN_WIDTH else x2);
          x4 = (if x3 > of_int SCREEN_WIDTH then - 4 else x3);
          vy = Doodle_playerVy s + 0.2
      in s\<lparr>Doodle_playerX := x4, Doodle_playerVy := vy, Doodle_playerY := Doodle_playerY s + vy\<rparr>)"

text \<open>The shift of the platforms by \<open>diff\<close>, from index \<open>i\<close> on; a platform that leaves
  the screen comes back above it.\<close>

function Doodle_shift :: "rat \<Rightarrow> nat \<Rightarrow> rng \<Rightarrow> Platform list \<Rightarrow> Platform list \<times> rng" where
  "Doodle_shift diff i r ps =
     (if i < 10 then
        (let p = (ps ! i)\<lparr>plat_y := plat_y (ps ! i) + diff\<rparr> in
         if plat_y p > of_int SCREEN_HEIGHT then
           (let (y, r1) = random_range (- 10) 0 r;
                (x, r2) = random_range 0 (SCREEN_WIDTH - 10) r1
            in Doodle_shift diff (Suc i) r2 (ps[i := p\<lparr>plat_y := of_int y, plat_x := of_int x\<rparr>]))
         else Doodle_shift diff (Suc i) r (ps[i := p]))
      else (ps, r))"
  by pat_completeness auto
termination
  by (relation "measure (\<lambda>(diff, i, r, ps). 10 - i)") auto

text \<open>The camera follows the player above the middle of the screen; this is where the
  score is assigned from \<^verbatim>\<open>maxScoreY\<close>.\<close>

definition Doodle_camera :: "rng \<Rightarrow> DoodleState \<Rightarrow> u32 \<Rightarrow> DoodleState \<times> u32 \<times> rng" where
  "Doodle_camera r s score =
     (if Doodle_playerY s < of_int (SCREEN_HEIGHT div 2) then
        (let diff = of_int (SCREEN_HEIGHT div 2) - Doodle_playerY s;
             m = Doodle_maxScoreY s + diff;
             (ps, r') = Doodle_shift diff 0 r (Doodle_plats s)
         in (s\<lparr>Doodle_playerY := of_int (SCREEN_HEIGHT div 2),
                Doodle_cameraY := Doodle_cameraY s + diff, Doodle_maxScoreY := m,
                Doodle_plats := ps\<rparr>,
             float_to_u32 (m / 10), r'))
      else (s, score, r))"

text \<open>The bounce: any platform under the feet of a falling player.\<close>

definition Doodle_bounce :: "DoodleState \<Rightarrow> DoodleState" where
  "Doodle_bounce s =
     (if Doodle_playerVy s > 0
         \<and> list_ex (\<lambda>i. Doodle_playerX s + 4 > plat_x (Doodle_plats s ! i)
                         \<and> Doodle_playerX s < plat_x (Doodle_plats s ! i) + 10
                         \<and> Doodle_playerY s + 8 > plat_y (Doodle_plats s ! i)
                         \<and> Doodle_playerY s + 8 < plat_y (Doodle_plats s ! i) + 8) [0..<10]
      then s\<lparr>Doodle_playerVy := - 4.0\<rparr> else s)"

definition Doodle_update ::
  "InputSystem \<Rightarrow> rng \<Rightarrow> DoodleState \<Rightarrow> u32 \<Rightarrow> DoodleState \<times> u32 \<times> bool \<times> rng" where
  "Doodle_update inp r s score =
     (let (s1, score', r') = Doodle_camera r (Doodle_player inp s) score;
          s2 = Doodle_bounce s1
      in (s2, score', Doodle_playerY s2 > of_int SCREEN_HEIGHT, r'))"

definition Doodle_boot :: DoodleState where
  "Doodle_boot = \<lparr>Doodle_playerX = 0, Doodle_playerY = 0, Doodle_playerVy = 0,
                   Doodle_plats = replicate 10 \<lparr>plat_x = 0, plat_y = 0, plat_active = False\<rparr>,
                   Doodle_cameraY = 0, Doodle_maxScoreY = 0\<rparr>"

text \<open>The relation between the score and the height that \<^verbatim>\<open>init\<close> and the reset of the
  score establish and every update keeps.\<close>

definition Doodle_inv :: "DoodleState \<Rightarrow> u32 \<Rightarrow> bool" where
  "Doodle_inv s score = (0 \<le> Doodle_maxScoreY s \<and> int (unat score) \<le> ftrunc (Doodle_maxScoreY s / 10))"

text \<open>A state in which the score is ahead of the height.\<close>

definition Doodle_ahead :: DoodleState where
  "Doodle_ahead = Doodle_boot\<lparr>Doodle_playerY := 31\<rparr>"

text \<open>A player on the way up: a new game in which the player moves up at 4 and the height
  reached so far is 8.\<close>

definition Doodle_rising :: DoodleState where
  "Doodle_rising =
     (fst (Doodle_init zeros Doodle_boot))\<lparr>Doodle_playerVy := - 4, Doodle_maxScoreY := 8\<rparr>"
section \<open>Game engine and state machine\<close>

datatype GameState = STATE_MENU | STATE_PLAYING | STATE_PAUSED

text \<open>The enumerators of \<^verbatim>\<open>GameType\<close>, by value: the menu index is cast to this type.\<close>

definition GAME_FLAPPY :: int where "GAME_FLAPPY = 0"
definition GAME_SNAKE :: int where "GAME_SNAKE = 1"
definition GAME_BRICK :: int where "GAME_BRICK = 2"
definition GAME_PONG :: int where "GAME_PONG = 3"
definition GAME_KNIFE :: int where "GAME_KNIFE = 4"
definition GAME_MARIO :: int where "GAME_MARIO = 5"
definition GAME_STACK :: int where "GAME_STACK = 6"
definition GAME_DOODLE :: int where "GAME_DOODLE = 7"
definition GAME_DODGE :: int where "GAME_DODGE = 8"
definition GAME_TUNNEL :: int where "GAME_TUNNEL = 9"
definition GAME_TETRIS :: int where "GAME_TETRIS = 10"
definition GAME_HELI :: int where "GAME_HELI = 11"
definition GAME_COUNT :: int where "GAME_COUNT = 12"

text \<open>
  Everything the program keeps: the input system, the mute flag of the sound system, the
  random generator, the fields of \<^verbatim>\<open>GameEngine\<close>, and the variables of the twelve
  namespaces.
\<close>

record World =
  World_input :: InputSystem
  World_muted :: bool
  World_rng :: rng
  Engine_currentState :: GameState
  Engine_selectedGame :: int
  Engine_menuIndex :: int
  Engine_score :: u32
  Engine_highScore :: u32
  Engine_difficulty :: int
  World_flappy :: FlappyState
  World_snake :: SnakeState
  World_pong :: PongState
  World_brick :: BrickState
  World_knife :: KnifeState
  World_dodge :: DodgeState
  World_mario :: MarioState
  World_heli :: HeliState
  World_tunnel :: TunnelState
  World_doodle :: DoodleState
  World_stack :: StackState
  World_tetris :: TetrisState

text \<open>What a call does: it returns, it runs into undefined behaviour, or it never returns.\<close>

datatype 'a outcome = Done 'a | Faulted fault | Hangs

text \<open>\<^verbatim>\<open>GameEngine::startGame\<close>, with the cases in the order of the source.\<close>

definition Engine_startGame :: "u32 \<Rightarrow> int \<Rightarrow> World \<Rightarrow> World outcome" where
  "Engine_startGame now game w0 =
     (let w = w0\<lparr>Engine_currentState := STATE_PLAYING, Engine_score := 0, Engine_difficulty := 1\<rparr>;
          r = World_rng w
      in if game = GAME_FLAPPY then Done (w\<lparr>World_flappy := Flappy_init (World_flappy w)\<rparr>)
         else if game = GAME_SNAKE then
           (case Snake_init now r (World_snake w) of
              None \<Rightarrow> Hangs
            | Some (s, r') \<Rightarrow> Done (w\<lparr>World_snake := s, World_rng := r'\<rparr>))
         else if game = GAME_PONG then Done (w\<lparr>World_pong := Pong_init (World_pong w)\<rparr>)
         else if game = GAME_BRICK then
           (let (s, r') = Brick_init now r (World_brick w)
            in Done (w\<lparr>World_brick := s, World_rng := r'\<rparr>))
         else if game = GAME_KNIFE then Done (w\<lparr>World_knife := Knife_init (World_knife w)\<rparr>)
         else if game = GAME_DODGE then Done (w\<lparr>World_dodge := Dodge_init now (World_dodge w)\<rparr>)
         else if game = GAME_MARIO then Done (w\<lparr>World_mario := Mario_init (World_mario w)\<rparr>)
         else if game = GAME_HELI then Done (w\<lparr>World_heli := Heli_init (World_heli w)\<rparr>)
         else if game = GAME_TUNNEL then Done (w\<lparr>World_tunnel := Tunnel_init now (World_tunnel w)\<rparr>)
         else if game = GAME_DOODLE then
           (let (s, r') = Doodle_init r (World_doodle w)
            in Done (w\<lparr>World_doodle := s, World_rng := r'\<rparr>))
         else if game = GAME_STACK then Done (w\<lparr>World_stack := Stack_init (World_stack w)\<rparr>)
         else if game = GAME_TETRIS then
           (let (s, r') = Tetris_init now r (World_tetris w)
            in Done (w\<lparr>World_tetris := s, World_rng := r'\<rparr>))
         else Done w)"

text \<open>\<^verbatim>\<open>GameEngine::updateMenu\<close>: four tests, one after the other.\<close>

definition Engine_updateMenu :: "u32 \<Rightarrow> World \<Rightarrow> World outcome" where
  "Engine_updateMenu now w =
     (let inp = World_input w;
          w1 = (if isJustPressed inp UP then
                  (let i = Engine_menuIndex w - 1
                   in w\<lparr>Engine_menuIndex := (if i < 0 then GAME_COUNT - 1 else i)\<rparr>)
                else w);
          w2 = (if isJustPressed inp DOWN then
                  (let i = Engine_menuIndex w1 + 1
                   in w1\<lparr>Engine_menuIndex := (if i \<ge> GAME_COUNT then 0 else i)\<rparr>)
                else w1);
          toggle = (\<lambda>v. if isJustPressed inp LEFT \<or> isJustPressed inp RIGHT
                         then v\<lparr>World_muted := \<not> World_muted v\<rparr> else v)
      in if isJustPressed inp SELECT then
           (case Engine_startGame now (Engine_menuIndex w2)
                   (w2\<lparr>Engine_selectedGame := Engine_menuIndex w2\<rparr>) of
              Done w3 \<Rightarrow> Done (toggle w3)
            | Faulted e \<Rightarrow> Faulted e
            | Hangs \<Rightarrow> Hangs)
         else Done (toggle w2))"

definition Engine_updatePause :: "World \<Rightarrow> World" where
  "Engine_updatePause w =
     (let inp = World_input w;
          w1 = (if isJustPressed inp SELECT then w\<lparr>Engine_currentState := STATE_PLAYING\<rparr> else w);
          w2 = (if isJustPressed inp LEFT then w1\<lparr>Engine_currentState := STATE_MENU\<rparr> else w1)
      in if isJustPressed inp RIGHT then w2\<lparr>World_muted := \<not> World_muted w2\<rparr> else w2)"

text \<open>The end of \<^verbatim>\<open>updateGame\<close>: a game that is over gives the state back to the menu.\<close>

definition Engine_finish :: "bool \<Rightarrow> World \<Rightarrow> World" where
  "Engine_finish gameOver w = (if gameOver then w\<lparr>Engine_currentState := STATE_MENU\<rparr> else w)"

text \<open>
  The dispatch of \<^verbatim>\<open>updateGame\<close>: the update of the selected module, on the score of the
  engine, with the game-over flag starting as false. The result is the world with the
  module's variables and the score stored back, and the flag.
\<close>

definition Engine_dispatch :: "u32 \<Rightarrow> World \<Rightarrow> (World \<times> bool) outcome" where
  "Engine_dispatch now w =
     (let g = Engine_selectedGame w; inp = World_input w; r = World_rng w; sc = Engine_score w
      in if g = GAME_FLAPPY then
           (let (s, sc', over, r') = Flappy_update inp r (World_flappy w) sc
            in Done (w\<lparr>World_flappy := s, Engine_score := sc', World_rng := r'\<rparr>, over))
         else if g = GAME_SNAKE then
           (case Snake_update inp now r (World_snake w) sc of
              None \<Rightarrow> Hangs
            | Some (s, sc', over, r') \<Rightarrow>
                Done (w\<lparr>World_snake := s, Engine_score := sc', World_rng := r'\<rparr>, over))
         else if g = GAME_PONG then
           (let (s, sc', over) = Pong_update inp (World_pong w) sc
            in Done (w\<lparr>World_pong := s, Engine_score := sc'\<rparr>, over))
         else if g = GAME_BRICK then
           (let (s, sc', over, r') = Brick_update inp now r (World_brick w) sc
            in Done (w\<lparr>World_brick := s, Engine_score := sc', World_rng := r'\<rparr>, over))
         else if g = GAME_KNIFE then
           (let (s, sc', over) = Knife_update inp (World_knife w) sc
            in Done (w\<lparr>World_knife := s, Engine_score := sc'\<rparr>, over))
         else if g = GAME_DODGE then
           (let (s, sc', over, r') = Dodge_update inp now r (World_dodge w) sc
            in Done (w\<lparr>World_dodge := s, Engine_score := sc', World_rng := r'\<rparr>, over))
         else if g = GAME_MARIO then
           (let (s, sc', over, r') = Mario_update inp r (World_mario w) sc
            in Done (w\<lparr>World_mario := s, Engine_score := sc', World_rng := r'\<rparr>, over))
         else if g = GAME_HELI then
           (let (s, sc', over, r') = Heli_update inp r (World_heli w) sc
            in Done (w\<lparr>World_heli := s, Engine_score := sc', World_rng := r'\<rparr>, over))
         else if g = GAME_TUNNEL then
           (let (s, sc', over, r') = Tunnel_update inp now r (World_tunnel w) sc
            in Done (w\<lparr>World_tunnel := s, Engine_score := sc', World_rng := r'\<rparr>, over))
         else if g = GAME_DOODLE then
           (let (s, sc', over, r') = Doodle_update inp r (World_doodle w) sc
            in Done (w\<lparr>World_doodle := s, Engine_score := sc', World_rng := r'\<rparr>, over))
         else if g = GAME_STACK then
           (let (s, sc', over) = Stack_update inp (World_stack w) sc
            in Done (w\<lparr>World_stack := s, Engine_score := sc'\<rparr>, over))
         else if g = GAME_TETRIS then
           (case Tetris_update inp now r (World_tetris w) sc of
              Inl e \<Rightarrow> Faulted e
            | Inr (s, sc', over, r') \<Rightarrow>
                Done (w\<lparr>World_tetris := s, Engine_score := sc', World_rng := r'\<rparr>, over))
         else Done (w, False))"

definition Engine_updateGame :: "u32 \<Rightarrow> World \<Rightarrow> World outcome" where
  "Engine_updateGame now w =
     (case Engine_dispatch now w of
        Done (w', gameOver) \<Rightarrow> Done (Engine_finish gameOver w')
      | Faulted e \<Rightarrow> Faulted e
      | Hangs \<Rightarrow> Hangs)"

text \<open>
  \<^verbatim>\<open>GameEngine::update\<close>. The long press of SELECT is asked for only while playing (the
  \<^verbatim>\<open>&&\<close> of the source), and pauses the game.
\<close>

definition Engine_update :: "u32 \<Rightarrow> World \<Rightarrow> World outcome" where
  "Engine_update now w =
     (let (lp, inp) = (if Engine_currentState w = STATE_PLAYING
                       then isLongPressed SELECT now (World_input w)
                       else (False, World_input w));
          w1 = w\<lparr>World_input := inp\<rparr>
      in if lp then Done (w1\<lparr>Engine_currentState := STATE_PAUSED\<rparr>)
         else (case Engine_currentState w1 of
                 STATE_MENU \<Rightarrow> Engine_updateMenu now w1
               | STATE_PLAYING \<Rightarrow> Engine_updateGame now w1
               | STATE_PAUSED \<Rightarrow> Done (Engine_updatePause w1)))"

text \<open>One pass of \<^verbatim>\<open>loop()\<close>: the poll of the buttons, then the engine.\<close>

definition Engine_loop :: "(nat \<Rightarrow> bool) \<Rightarrow> u32 \<Rightarrow> World \<Rightarrow> World outcome" where
  "Engine_loop low now w =
     Engine_update now (w\<lparr>World_input := input_update low now (World_input w)\<rparr>)"

fun Engine_run :: "((nat \<Rightarrow> bool) \<times> u32) list \<Rightarrow> World \<Rightarrow> World outcome" where
  "Engine_run [] w = Done w"
| "Engine_run ((low, now) # ticks) w =
     (case Engine_loop low now w of
        Done w' \<Rightarrow> Engine_run ticks w'
      | Faulted e \<Rightarrow> Faulted e
      | Hangs \<Rightarrow> Hangs)"

text \<open>The world after \<^verbatim>\<open>setup()\<close>, with a given generator.\<close>

definition World_boot :: "rng \<Rightarrow> World" where
  "World_boot r =
     \<lparr>World_input = input_init, World_muted = False, World_rng = r,
      Engine_currentState = STATE_MENU, Engine_selectedGame = GAME_FLAPPY, Engine_menuIndex = 0,
      Engine_score = 0, Engine_highScore = 0, Engine_difficulty = 1,
      World_flappy = Flappy_boot, World_snake = Snake_boot, World_pong = Pong_boot,
      World_brick = Brick_boot, World_knife = Knife_boot, World_dodge = Dodge_boot,
      World_mario = Mario_boot, World_heli = Heli_boot, World_tunnel = Tunnel_boot,
      World_doodle = Doodle_boot, World_stack = Stack_boot, World_tetris = Tetris_boot\<rparr>"

text \<open>Readings of the pins: DOWN held, nothing held; and the scenario of three presses of
  DOWN, each followed by a release, then a press of SELECT.\<close>

definition only_down_low :: "nat \<Rightarrow> bool" where
  "only_down_low p = (p = PIN_DOWN)"

definition none_low :: "nat \<Rightarrow> bool" where
  "none_low p = False"

definition three_down :: "((nat \<Rightarrow> bool) \<times> u32) list" where
  "three_down = [(only_down_low, 100), (none_low, 200), (only_down_low, 300), (none_low, 400),
                 (only_down_low, 500), (none_low, 600)]"

definition then_select :: "((nat \<Rightarrow> bool) \<times> u32) list" where
  "then_select = three_down @ [(only_select_low, 700)]"

text \<open>\<open>n\<close> passes of the loop with no button down, 100 ms apart from time \<open>t\<close> on.\<close>

fun idle_ticks :: "u32 \<Rightarrow> nat \<Rightarrow> ((nat \<Rightarrow> bool) \<times> u32) list" where
  "idle_ticks t 0 = []"
| "idle_ticks t (Suc n) = (none_low, t) # idle_ticks (t + 100) n"

text \<open>An input system in which DOWN has just gone down; the menu with the cursor on an
  entry and a given input system; and a game of Pong in a given position.\<close>

definition down_pressed :: InputSystem where
  "down_pressed = input_update only_down_low 0 input_init"

definition World_menu :: "int \<Rightarrow> InputSystem \<Rightarrow> World" where
  "World_menu i inp = (World_boot zeros)\<lparr>Engine_menuIndex := i, World_input := inp\<rparr>"

definition World_pong_at :: "PongState \<Rightarrow> World" where
  "World_pong_at s =
     (World_boot zeros)\<lparr>Engine_currentState := STATE_PLAYING, Engine_selectedGame := GAME_PONG,
                         Engine_menuIndex := 3, World_pong := s\<rparr>"


section \<open>Properties of the input system\<close>

lemma bidx_less: "bidx b < 5"
  by (cases b) simp_all

lemma bidx_inj: "bidx b = bidx c \<Longrightarrow> b = c"
  by (cases b; cases c) simp_all

lemma length_input_update: "length (input_update low now bs) = 5"
  by (simp add: input_update_def)

lemma nth_input_update:
  "i < 5 \<Longrightarrow> input_update low now bs ! i = poll_button low now (bs ! i)"
  by (simp add: input_update_def)

lemma poll_button_pin: "pin (poll_button low now st) = pin st"
  by (simp add: poll_button_def Let_def)

lemma poll_button_held:
  "low (pin st) \<Longrightarrow> pressed st \<Longrightarrow>
   poll_button low now st = st\<lparr>justPressed := False\<rparr>"
  by (simp add: poll_button_def Let_def)

lemma poll_button_rising:
  "low (pin st) \<Longrightarrow> \<not> pressed st \<Longrightarrow>
   poll_button low now st =
     st\<lparr>justPressed := True, pressed := True, pressTime := now, longPressHandled := False\<rparr>"
  by (simp add: poll_button_def Let_def)

lemma length_isLongPressed: "length (snd (isLongPressed c t bs)) = length bs"
  by (simp add: isLongPressed_def Let_def)

lemma nth_isLongPressed_other:
  assumes "c \<noteq> b"
  shows "snd (isLongPressed c t bs) ! bidx b = bs ! bidx b"
proof -
  have "bidx c \<noteq> bidx b" using assms bidx_inj by blast
  then show ?thesis by (simp add: isLongPressed_def Let_def)
qed

lemma run_handled:
  "length bs = 5 \<Longrightarrow> pressed (bs ! bidx b) \<Longrightarrow> longPressHandled (bs ! bidx b) \<Longrightarrow>
   held (pin (bs ! bidx b)) es \<Longrightarrow>
   answers b (run es bs) = replicate (length (asked b (run es bs))) False"
proof (induction es arbitrary: bs)
  case Nil
  then show ?case by (simp add: answers_def asked_def)
next
  case (Cons e es)
  show ?case
  proof (cases e)
    case (Poll low now)
    let ?bs = "input_update low now bs"
    from Cons.prems Poll have low: "low (pin (bs ! bidx b))" and h: "held (pin (bs ! bidx b)) es"
      by simp_all
    have nth: "?bs ! bidx b = (bs ! bidx b)\<lparr>justPressed := False\<rparr>"
      using low Cons.prems(2) by (simp add: nth_input_update bidx_less poll_button_held)
    have "answers b (run es ?bs) = replicate (length (asked b (run es ?bs))) False"
      by (rule Cons.IH) (use nth Cons.prems h in \<open>simp_all add: length_input_update\<close>)
    then show ?thesis using Poll by simp
  next
    case (Ask c t)
    let ?bs = "snd (isLongPressed c t bs)"
    have r: "run (e # es) bs = (c, t, fst (isLongPressed c t bs)) # run es ?bs"
      using Ask by (simp add: case_prod_beta Let_def)
    have same: "?bs ! bidx b = bs ! bidx b"
    proof (cases "c = b")
      case True
      then show ?thesis using Cons.prems by (simp add: isLongPressed_def Let_def)
    next
      case False
      then show ?thesis by (rule nth_isLongPressed_other)
    qed
    have IH: "answers b (run es ?bs) = replicate (length (asked b (run es ?bs))) False"
      by (rule Cons.IH) (use same Cons.prems Ask in \<open>simp_all add: length_isLongPressed\<close>)
    have f: "c = b \<Longrightarrow> fst (isLongPressed c t bs) = False"
      using Cons.prems by (simp add: isLongPressed_def Let_def)
    show ?thesis using IH f by (cases "c = b") (simp_all add: r answers_def asked_def)
  qed
qed

lemma run_armed:
  "length bs = 5 \<Longrightarrow> pressed (bs ! bidx b) \<Longrightarrow> \<not> longPressHandled (bs ! bidx b) \<Longrightarrow>
   held (pin (bs ! bidx b)) es \<Longrightarrow>
   answers b (run es bs) = one_shot (pressTime (bs ! bidx b)) (asked b (run es bs))"
proof (induction es arbitrary: bs)
  case Nil
  then show ?case by (simp add: answers_def asked_def)
next
  case (Cons e es)
  show ?case
  proof (cases e)
    case (Poll low now)
    let ?bs = "input_update low now bs"
    from Cons.prems Poll have low: "low (pin (bs ! bidx b))" and h: "held (pin (bs ! bidx b)) es"
      by simp_all
    have nth: "?bs ! bidx b = (bs ! bidx b)\<lparr>justPressed := False\<rparr>"
      using low Cons.prems(2) by (simp add: nth_input_update bidx_less poll_button_held)
    have "answers b (run es ?bs) = one_shot (pressTime (?bs ! bidx b)) (asked b (run es ?bs))"
      by (rule Cons.IH) (use nth Cons.prems h in \<open>simp_all add: length_input_update\<close>)
    then show ?thesis using Poll nth by simp
  next
    case (Ask c t)
    let ?bs = "snd (isLongPressed c t bs)"
    have r: "run (e # es) bs = (c, t, fst (isLongPressed c t bs)) # run es ?bs"
      using Ask by (simp add: case_prod_beta Let_def)
    have h: "held (pin (bs ! bidx b)) es" using Cons.prems Ask by simp
    show ?thesis
    proof (cases "c = b")
      case False
      have same: "?bs ! bidx b = bs ! bidx b"
        using False by (rule nth_isLongPressed_other)
      have "answers b (run es ?bs) = one_shot (pressTime (?bs ! bidx b)) (asked b (run es ?bs))"
        by (rule Cons.IH) (use same Cons.prems h in \<open>simp_all add: length_isLongPressed\<close>)
      then show ?thesis using False same by (simp add: r answers_def asked_def)
    next
      case True
      show ?thesis
      proof (cases "t - pressTime (bs ! bidx b) > 600")
        case fire: True
        have res: "isLongPressed c t bs =
                (True, bs[bidx b := (bs ! bidx b)\<lparr>longPressHandled := True\<rparr>])"
          using Cons.prems fire \<open>c = b\<close> by (simp add: isLongPressed_def Let_def LONG_PRESS_MS_def)
        have nth: "?bs ! bidx b = (bs ! bidx b)\<lparr>longPressHandled := True\<rparr>"
          using res Cons.prems(1) by (simp add: bidx_less)
        have "answers b (run es ?bs) = replicate (length (asked b (run es ?bs))) False"
          by (rule run_handled) (use nth Cons.prems h in \<open>simp_all add: length_isLongPressed\<close>)
        then show ?thesis using fire res \<open>c = b\<close> by (simp add: r answers_def asked_def)
      next
        case nofire: False
        have res: "isLongPressed c t bs = (False, bs)"
          using nofire \<open>c = b\<close> by (simp add: isLongPressed_def Let_def LONG_PRESS_MS_def)
        have "answers b (run es bs) = one_shot (pressTime (bs ! bidx b)) (asked b (run es bs))"
          by (rule Cons.IH) (use Cons.prems h in simp_all)
        then show ?thesis using nofire res \<open>c = b\<close> by (simp add: r answers_def asked_def)
      qed
    qed
  qed
qed

lemma one_shot_length: "length (one_shot t0 ts) = length ts"
  by (induction ts) simp_all

lemma one_shot_count: "length (filter id (one_shot t0 ts)) \<le> 1"
  by (induction ts) simp_all

lemma one_shot_nth:
  "i < length ts \<Longrightarrow>
   one_shot t0 ts ! i = (ts ! i - t0 > 600 \<and> (\<forall>j<i. \<not> ts ! j - t0 > 600))"
proof (induction ts arbitrary: i)
  case Nil
  then show ?case by simp
next
  case (Cons t ts)
  show ?case
  proof (cases i)
    case 0
    then show ?thesis by simp
  next
    case (Suc k)
    with Cons.prems have k: "k < length ts" by simp
    show ?thesis
    proof (cases "t - t0 > 600")
      case True
      then show ?thesis using Suc k by auto
    next
      case False
      have "(\<forall>j<Suc k. \<not> (t # ts) ! j - t0 > 600) = (\<forall>j<k. \<not> ts ! j - t0 > 600)"
        using False by (auto simp: less_Suc_eq_0_disj)
      then show ?thesis using False Suc Cons.IH [OF k] by simp
    qed
  qed
qed

lemma fired_simps: "fired [] = 0" "fired (r # rs) = (if r then Suc (fired rs) else fired rs)"
  by (simp_all add: fired_def)

lemma fired_replicate_False: "fired (replicate n False) = 0"
  by (simp add: fired_def)

lemma one_shot_fired: "fired (one_shot t0 ts) \<le> 1"
  by (induction ts) (simp_all add: fired_simps fired_replicate_False)

lemma run_released:
  "length bs = 5 \<Longrightarrow> \<not> pressed (bs ! bidx b) \<Longrightarrow> held (pin (bs ! bidx b)) es \<Longrightarrow>
   fired (answers b (run es bs)) \<le> 1"
proof (induction es arbitrary: bs)
  case Nil
  then show ?case by (simp add: answers_def fired_simps)
next
  case (Cons e es)
  show ?case
  proof (cases e)
    case (Poll low now)
    let ?bs = "input_update low now bs"
    from Cons.prems Poll have low: "low (pin (bs ! bidx b))" and h: "held (pin (bs ! bidx b)) es"
      by simp_all
    have nth: "?bs ! bidx b = (bs ! bidx b)\<lparr>justPressed := True, pressed := True,
                 pressTime := now, longPressHandled := False\<rparr>"
      using low Cons.prems(2) by (simp add: nth_input_update bidx_less poll_button_rising)
    have "answers b (run es ?bs) = one_shot (pressTime (?bs ! bidx b)) (asked b (run es ?bs))"
      by (rule run_armed) (use nth h in \<open>simp_all add: length_input_update\<close>)
    then show ?thesis using Poll one_shot_fired [of "pressTime (?bs ! bidx b)" "asked b (run es ?bs)"]
      by simp
  next
    case (Ask c t)
    have res: "isLongPressed c t bs = (False, bs) \<or> c \<noteq> b"
      using Cons.prems(2) by (auto simp: isLongPressed_def Let_def)
    let ?bs = "snd (isLongPressed c t bs)"
    have r: "run (e # es) bs = (c, t, fst (isLongPressed c t bs)) # run es ?bs"
      using Ask by (simp add: case_prod_beta Let_def)
    have same: "?bs ! bidx b = bs ! bidx b"
      using res nth_isLongPressed_other [of c b t bs] by auto
    have "fired (answers b (run es ?bs)) \<le> 1"
      by (rule Cons.IH) (use same Cons.prems Ask in \<open>simp_all add: length_isLongPressed\<close>)
    then show ?thesis using res by (auto simp: r answers_def fired_simps)
  qed
qed

lemma run_at_most_once:
  assumes "length bs = 5" and "held (pin (bs ! bidx b)) es"
  shows "fired (answers b (run es bs)) \<le> 1"
proof (cases "pressed (bs ! bidx b)")
  case False
  then show ?thesis using assms run_released [of bs b es] by simp
next
  case True
  show ?thesis
  proof (cases "longPressHandled (bs ! bidx b)")
    case True
    with \<open>pressed (bs ! bidx b)\<close> assms
    have "answers b (run es bs) = replicate (length (asked b (run es bs))) False"
      by (simp add: run_handled)
    then show ?thesis by (simp add: fired_replicate_False)
  next
    case False
    with \<open>pressed (bs ! bidx b)\<close> assms
    have "answers b (run es bs) = one_shot (pressTime (bs ! bidx b)) (asked b (run es bs))"
      by (simp add: run_armed)
    then show ?thesis
      using one_shot_fired [of "pressTime (bs ! bidx b)" "asked b (run es bs)"] by simp
  qed
qed

text \<open>
  Claim C2. A button that is up is seen down by a poll at time \<open>t0\<close> and then held: its pin
  reads LOW at every later poll of the trace. Among the long-press queries for that button,
  the answer is true at exactly the first query whose elapsed time \<open>t - t0\<close> (read by the
  query itself, in 32-bit arithmetic) exceeds 600, and false at every other query of the
  press. The starting state is arbitrary apart from the button being up, so the same holds
  again after a release and a new press.
\<close>

theorem long_press_exactly_once:
  assumes "length bs = 5"
    and "\<not> pressed (bs ! bidx b)"
    and "low (pin (bs ! bidx b))"
    and "held (pin (bs ! bidx b)) es"
  shows "answers b (run (Poll low t0 # es) bs)
         = one_shot t0 (asked b (run (Poll low t0 # es) bs))"
proof -
  let ?bs = "input_update low t0 bs"
  have nth: "?bs ! bidx b = (bs ! bidx b)\<lparr>justPressed := True, pressed := True,
               pressTime := t0, longPressHandled := False\<rparr>"
    using assms by (simp add: nth_input_update bidx_less poll_button_rising)
  have "answers b (run es ?bs) = one_shot (pressTime (?bs ! bidx b)) (asked b (run es ?bs))"
    by (rule run_armed) (use nth assms in \<open>simp_all add: length_input_update\<close>)
  then show ?thesis using nth by simp
qed

lemma input_init_simps:
  "length input_init = 5" "pin (input_init ! 4) = PIN_SELECT" "\<not> pressed (input_init ! 4)"
  by (simp_all add: input_init_def mkButton_def)

lemma only_select_low_SELECT: "only_select_low PIN_SELECT"
  by (simp add: only_select_low_def)

lemma held_select_trace: "held PIN_SELECT select_trace"
  by (simp add: select_trace_def only_select_low_def)

lemma pressed_select:
  "input_update only_select_low 0 input_init ! 4 =
     \<lparr>pin = PIN_SELECT, pressed = True, justPressed = True, pressTime = 0,
      longPressHandled = False\<rparr>"
  by (simp add: nth_input_update poll_button_def input_init_def mkButton_def only_select_low_def)

lemma asked_select_trace:
  "asked SELECT (run select_trace (input_update only_select_low 0 input_init)) = [100, 700, 800]"
  by (simp add: select_trace_def asked_def case_prod_beta)

text \<open>C2 at a concrete trace: SELECT pressed at 0 and asked at 100, 700 and 800.\<close>

theorem long_press_exactly_once_witness:
  "length input_init = 5 \<and> \<not> pressed (input_init ! bidx SELECT)
   \<and> only_select_low (pin (input_init ! bidx SELECT))
   \<and> held (pin (input_init ! bidx SELECT)) select_trace
   \<and> answers SELECT (run (Poll only_select_low 0 # select_trace) input_init)
       = [False, True, False]"
  using long_press_exactly_once [of input_init SELECT only_select_low select_trace 0]
  by (simp add: input_init_simps held_select_trace asked_select_trace only_select_low_SELECT)

lemma held_and_fired_select:
  "held_and_fired ! 4 = \<lparr>pin = PIN_SELECT, pressed = True, justPressed = True, pressTime = 0,
                          longPressHandled = True\<rparr>"
  by (simp add: held_and_fired_def isLongPressed_def Let_def pressed_select
        length_input_update LONG_PRESS_MS_def)

text \<open>
  Claim C8 says that every poll resets the long-press-consumed flag. SELECT is pressed at
  time 0 and its long press is reported at 650; the poll at 700 sees the button still down
  and leaves the flag set.
\<close>

theorem poll_resets_both_flags_counterexample:
  "longPressHandled (input_update only_select_low 700 held_and_fired ! bidx SELECT)"
  by (simp add: nth_input_update held_and_fired_select poll_button_def only_select_low_SELECT)

text \<open>
  Claim C8, amended. After every poll and for each of the five buttons, the edge flag is
  true exactly when this poll saw the button go down (so a flag left from the poll before
  is gone); the long-press-consumed flag is cleared only by a poll that sees the button go
  down, and keeps its value at every other poll; and over any trace with the button held,
  from any state, at most one long-press query for it is answered true.
\<close>

theorem poll_flags_and_one_shot:
  "(\<forall>i<5. justPressed (input_update low now bs ! i) = (low (pin (bs ! i)) \<and> \<not> pressed (bs ! i)))
   \<and> (\<forall>i<5. longPressHandled (input_update low now bs ! i)
              = (longPressHandled (bs ! i) \<and> \<not> (low (pin (bs ! i)) \<and> \<not> pressed (bs ! i))))
   \<and> (length bs = 5 \<and> held (pin (bs ! bidx b)) es
        \<longrightarrow> fired (answers b (run es bs)) \<le> 1)"
proof (intro conjI allI impI)
  fix i :: nat assume "i < 5"
  then show "justPressed (input_update low now bs ! i) = (low (pin (bs ! i)) \<and> \<not> pressed (bs ! i))"
    by (simp add: nth_input_update poll_button_def Let_def)
next
  fix i :: nat assume "i < 5"
  then show "longPressHandled (input_update low now bs ! i)
              = (longPressHandled (bs ! i) \<and> \<not> (low (pin (bs ! i)) \<and> \<not> pressed (bs ! i)))"
    by (simp add: nth_input_update poll_button_def Let_def)
next
  assume "length bs = 5 \<and> held (pin (bs ! bidx b)) es"
  then show "fired (answers b (run es bs)) \<le> 1"
    using run_at_most_once [of bs b es] by simp
qed

lemma length_held_and_fired: "length held_and_fired = 5"
  by (simp add: held_and_fired_def length_isLongPressed length_input_update)

text \<open>The amended C8 at the state and the trace above.\<close>

theorem poll_flags_and_one_shot_witness:
  "\<not> justPressed (input_update only_select_low 700 held_and_fired ! 4)
   \<and> longPressHandled (input_update only_select_low 700 held_and_fired ! 4)
   \<and> length held_and_fired = 5 \<and> held (pin (held_and_fired ! bidx SELECT)) select_trace
   \<and> fired (answers SELECT (run select_trace held_and_fired)) \<le> 1"
  using poll_flags_and_one_shot [of only_select_low 700 held_and_fired SELECT select_trace]
  by (simp add: length_held_and_fired held_and_fired_select held_select_trace
        only_select_low_SELECT)


section \<open>Properties of Tetris\<close>

subsection \<open>Line clearing\<close>

lemma length_shiftRows: "length (shiftRows y g) = length g"
  by (induction y arbitrary: g) simp_all

lemma shiftRows_eq:
  "y < length g \<Longrightarrow> shiftRows y g = g ! 0 # take y g @ drop (Suc y) g"
proof (induction y arbitrary: g)
  case 0
  then show ?case by (cases g) simp_all
next
  case (Suc k)
  let ?g = "g[Suc k := g ! k]"
  have k: "k < length g" using Suc.prems by simp
  have "shiftRows (Suc k) g = ?g ! 0 # take k ?g @ drop (Suc k) ?g"
    using Suc.IH [of ?g] k by simp
  also have "?g ! 0 = g ! 0" by simp
  also have "take k ?g = take k g" by simp
  also have "drop (Suc k) ?g = g ! k # drop (Suc (Suc k)) g"
    using Suc.prems by (simp add: drop_update_swap flip: upd_conv_take_nth_drop Cons_nth_drop_Suc)
  finally show ?case using k by (simp add: take_Suc_conv_app_nth)
qed


lemma shift_and_blank:
  "y < length g \<Longrightarrow> (shiftRows y g)[0 := 0] = 0 # take y g @ drop (Suc y) g"
  by (simp add: shiftRows_eq)

lemma full_rows_split: "full_rows xs + length (filter (\<lambda>row. row \<noteq> 1023) xs) = length xs"
  unfolding full_rows_def by (induction xs) simp_all

lemma full_rows_snoc:
  "full_rows (xs @ [x]) = (if x = 1023 then Suc (full_rows xs) else full_rows xs)"
  by (simp add: full_rows_def)

lemma behind_prefix:
  assumes "length P = m" and "m < length g"
  shows "(P @ drop m g) ! m = g ! m"
    and "take m (P @ drop m g) = P"
    and "drop (Suc m) (P @ drop m g) = drop (Suc m) g"
    and "m < length (P @ drop m g)"
    and "P @ drop m g = P @ g ! m # drop (Suc m) g"
  using assms by (simp_all add: nth_append Cons_nth_drop_Suc)

lemma clear_prefix:
  "m \<le> length g \<Longrightarrow>
   fold clear_step [0..<m] (g, score, speed) =
     (replicate (full_rows (take m g)) 0 @ filter (\<lambda>row. row \<noteq> 1023) (take m g) @ drop m g,
      score + 10 * of_nat (full_rows (take m g)),
      speed - 10 * int (full_rows (take m g)))"
proof (induction m)
  case 0
  then show ?case by (simp add: full_rows_def)
next
  case (Suc m)
  let ?c = "full_rows (take m g)"
  let ?F = "filter (\<lambda>row. row \<noteq> 1023) (take m g)"
  define P where "P = replicate ?c (0::16 word) @ ?F"
  have m: "m < length g" using Suc.prems by simp
  have len: "length P = m"
    using full_rows_split [of "take m g"] m by (simp add: P_def)
  note bp = behind_prefix [OF len m]
  have snoc: "take (Suc m) g = take m g @ [g ! m]"
    using m by (simp add: take_Suc_conv_app_nth)
  have "fold clear_step [0..<Suc m] (g, score, speed) =
        clear_step m (fold clear_step [0..<m] (g, score, speed))"
    by simp
  also have "fold clear_step [0..<m] (g, score, speed) =
        (P @ drop m g, score + 10 * of_nat ?c, speed - 10 * int ?c)"
    using Suc.IH m by (simp add: P_def)
  finally have step: "fold clear_step [0..<Suc m] (g, score, speed) =
        clear_step m (P @ drop m g, score + 10 * of_nat ?c, speed - 10 * int ?c)" .
  show ?case
  proof (cases "g ! m = 1023")
    case True
    have "(shiftRows m (P @ drop m g))[0 := 0] = 0 # P @ drop (Suc m) g"
      using shift_and_blank [OF bp(4)] by (simp only: bp(2) bp(3))
    then have res: "clear_step m (P @ drop m g, score + 10 * of_nat ?c, speed - 10 * int ?c) =
        (0 # P @ drop (Suc m) g, score + 10 * of_nat ?c + 10, speed - 10 * int ?c - 10)"
      using True bp(1) by (simp add: clear_step_def)
    show ?thesis
      unfolding step res using True by (simp add: snoc full_rows_snoc P_def)
  next
    case False
    have res: "clear_step m (P @ drop m g, score + 10 * of_nat ?c, speed - 10 * int ?c) =
        (P @ g ! m # drop (Suc m) g, score + 10 * of_nat ?c, speed - 10 * int ?c)"
      using False bp(1) bp(5) by (simp add: clear_step_def)
    show ?thesis
      unfolding step res using False by (simp add: snoc full_rows_snoc P_def)
  qed
qed

lemma clearLines_cleared:
  "length g = 20 \<Longrightarrow>
   Tetris_clearLines (g, score, speed) =
     (cleared g, score + 10 * of_nat (full_rows g), speed - 10 * int (full_rows g))"
  using clear_prefix [of 20 g score speed] by (simp add: Tetris_clearLines_def cleared_def)

lemma length_cleared: "length (cleared g) = length g"
  using full_rows_split [of g] by (simp add: cleared_def)

lemma cleared_no_full_row: "1023 \<notin> set (cleared g)"
  by (simp add: cleared_def)

subsection \<open>Collision test and placement\<close>

lemma cells_collide_total:
  "length g = 20 \<Longrightarrow> \<exists>b. cells_collide g px py cs = Inr b"
proof (induction cs)
  case Nil
  show ?case by (rule exI [of _ False]) simp
next
  case (Cons c cs)
  obtain bx "by" where c: "c = (bx, by)" by (cases c)
  from Cons obtain b where b: "cells_collide g px py cs = Inr b" by blast
  show ?case
    using b Cons.prems
    by (auto simp: c Let_def fbind_def grid_read_def Tetris_ROWS_def Tetris_COLS_def)
qed

lemma cells_collide_outside:
  "length g = 20 \<Longrightarrow> (bx, by) \<in> set cs \<Longrightarrow>
   px + bx < 0 \<or> px + bx \<ge> 10 \<or> py + by \<ge> 20 \<Longrightarrow>
   cells_collide g px py cs = Inr True"
proof (induction cs)
  case Nil
  then show ?case by simp
next
  case (Cons c cs)
  obtain cx cy where c: "c = (cx, cy)" by (cases c)
  show ?case
  proof (cases "c = (bx, by)")
    case True
    then show ?thesis using Cons.prems(3) c by (auto simp: Tetris_ROWS_def Tetris_COLS_def)
  next
    case False
    then have "cells_collide g px py cs = Inr True" using Cons by simp
    then show ?thesis
      using Cons.prems(1)
      by (simp add: c Let_def fbind_def grid_read_def Tetris_ROWS_def Tetris_COLS_def)
  qed
qed

lemma cells_collide_above:
  "\<forall>(bx, by) \<in> set cs. 0 \<le> px + bx \<and> px + bx < 10 \<and> py + by < 0 \<Longrightarrow>
   cells_collide g px py cs = Inr False"
  by (induction cs) (auto simp: Let_def Tetris_ROWS_def Tetris_COLS_def)

lemma cells_collide_free:
  "length g = 20 \<Longrightarrow> cells_collide g px py cs = Inr False \<Longrightarrow> (bx, by) \<in> set cs \<Longrightarrow>
   0 \<le> px + bx \<and> px + bx < 10 \<and> py + by < 20"
  using cells_collide_outside [of g bx "by" cs px py] by fastforce

lemma place_cells_ok:
  "length g = 20 \<Longrightarrow>
   \<forall>(bx, by) \<in> set cs. 0 \<le> cx + bx \<and> cx + bx < 10 \<and> cy + by < 20 \<Longrightarrow>
   \<exists>g'. place_cells g cx cy cs = Inr g' \<and> length g' = 20"
proof (induction cs arbitrary: g)
  case Nil
  then show ?case by simp
next
  case (Cons c cs)
  obtain bx "by" where c: "c = (bx, by)" by (cases c)
  have rest: "\<forall>(bx, by) \<in> set cs. 0 \<le> cx + bx \<and> cx + bx < 10 \<and> cy + by < 20"
    using Cons.prems(2) by simp
  have here: "0 \<le> cx + bx" "cx + bx < 10" "cy + by < 20"
    using Cons.prems(2) c by simp_all
  show ?case
  proof (cases "cy + by \<ge> 0")
    case True
    let ?g = "g[nat (cy + by) := g ! nat (cy + by) OR push_bit (nat (cx + bx)) 1]"
    have "\<exists>g'. place_cells ?g cx cy cs = Inr g' \<and> length g' = 20"
      using Cons.IH [of ?g] Cons.prems(1) rest by simp
    then show ?thesis using True here Cons.prems(1) by (simp add: c Let_def)
  next
    case False
    then show ?thesis using Cons.IH [of g] Cons.prems(1) rest by (simp add: c Let_def)
  qed
qed

text \<open>A row that no cell of the piece lies in keeps its value.\<close>

lemma place_cells_other_rows:
  "place_cells g cx cy cs = Inr g' \<Longrightarrow> \<forall>(bx, by) \<in> set cs. cy + by \<noteq> int i \<Longrightarrow>
   g' ! i = g ! i"
proof (induction cs arbitrary: g)
  case Nil
  then show ?case by simp
next
  case (Cons c cs)
  obtain bx "by" where c: "c = (bx, by)" by (cases c)
  have ne: "cy + by \<noteq> int i" and rest: "\<forall>(bx, by) \<in> set cs. cy + by \<noteq> int i"
    using Cons.prems(2) c by simp_all
  show ?case
  proof (cases "cy + by \<ge> 0")
    case True
    let ?g = "g[nat (cy + by) := g ! nat (cy + by) OR push_bit (nat (cx + bx)) 1]"
    have p: "place_cells ?g cx cy cs = Inr g'"
      using Cons.prems(1) True by (simp add: c Let_def split: if_splits)
    have "nat (cy + by) \<noteq> i" using ne True by auto
    then have "?g ! i = g ! i" by simp
    then show ?thesis using Cons.IH [OF p rest] by simp
  next
    case False
    then have "place_cells g cx cy cs = Inr g'" using Cons.prems(1) by (simp add: c Let_def)
    then show ?thesis using Cons.IH rest by simp
  qed
qed

lemma getBlocks_Some:
  assumes "0 \<le> t" "t < 7" "0 \<le> rot" "rot < 4"
  shows "\<exists>cs. Tetris_getBlocks t rot = Some cs
        \<and> (\<forall>(bx, by) \<in> set cs. 0 \<le> bx \<and> bx \<le> 3 \<and> 0 \<le> by \<and> by \<le> 3)"
proof -
  have t: "t = 0 \<or> t = 1 \<or> t = 2 \<or> t = 3 \<or> t = 4 \<or> t = 5 \<or> t = 6" using assms by arith
  have r: "rot = 0 \<or> rot = 1 \<or> rot = 2 \<or> rot = 3" using assms by arith
  show ?thesis
    using t r by (auto simp: Tetris_getBlocks_def cmod_def)
qed

lemma getBlocks_spawn:
  assumes "0 \<le> t" "t < 7"
  shows "\<exists>cs. Tetris_getBlocks t 0 = Some cs
        \<and> (\<forall>(bx, by) \<in> set cs. 0 \<le> bx \<and> bx \<le> 3 \<and> 0 \<le> by \<and> by \<le> 1)"
proof -
  have t: "t = 0 \<or> t = 1 \<or> t = 2 \<or> t = 3 \<or> t = 4 \<or> t = 5 \<or> t = 6" using assms by arith
  show ?thesis
    using t by (auto simp: Tetris_getBlocks_def cmod_def)
qed

lemma checkCollision_same:
  "Tetris_grid s' = Tetris_grid s \<Longrightarrow>
   piece_type (Tetris_curr s') = piece_type (Tetris_curr s) \<Longrightarrow>
   Tetris_checkCollision s' px py rot = Tetris_checkCollision s px py rot"
  by (simp add: Tetris_checkCollision_def split: option.splits)

lemma random_range_bounds:
  assumes "lo < hi"
  shows "lo \<le> fst (random_range lo hi r) \<and> fst (random_range lo hi r) < hi"
proof -
  have "0 \<le> int (r 0) mod (hi - lo)" "int (r 0) mod (hi - lo) < hi - lo"
    using assms by simp_all
  moreover have "fst (random_range lo hi r) = lo + int (r 0) mod (hi - lo)"
    using assms by (simp add: random_range_def)
  ultimately show ?thesis by linarith
qed

subsection \<open>The invariant of Tetris\<close>

lemma checkCollision_total:
  assumes "length (Tetris_grid s) = 20"
    and "0 \<le> piece_type (Tetris_curr s)" "piece_type (Tetris_curr s) < 7"
    and "0 \<le> rot" "rot < 4"
  shows "\<exists>b. Tetris_checkCollision s px py rot = Inr b"
proof -
  obtain cs where "Tetris_getBlocks (piece_type (Tetris_curr s)) rot = Some cs"
    using getBlocks_Some [of "piece_type (Tetris_curr s)" rot] assms by blast
  then show ?thesis
    using cells_collide_total [OF assms(1), of px py cs] by (simp add: Tetris_checkCollision_def)
qed

lemma cmod_next_rot: "0 \<le> rot \<Longrightarrow> rot < 4 \<Longrightarrow> 0 \<le> cmod (rot + 1) 4 \<and> cmod (rot + 1) 4 < 4"
  by (simp add: cmod_def sgn_if)

lemma inv_rotate:
  assumes "Tetris_inv s"
  shows "\<exists>s1. Tetris_rotate inp s = Inr s1 \<and> Tetris_inv s1"
proof (cases "isJustPressed inp SELECT")
  case False
  then show ?thesis using assms by (simp add: Tetris_rotate_def)
next
  case True
  let ?c = "Tetris_curr s"
  let ?n = "cmod (piece_rot ?c + 1) 4"
  have n: "0 \<le> ?n" "?n < 4" using assms cmod_next_rot by (simp_all add: Tetris_inv_def)
  obtain b where b: "Tetris_checkCollision s (piece_x ?c) (piece_y ?c) ?n = Inr b"
    using checkCollision_total [of s ?n "piece_x ?c" "piece_y ?c"] assms n
    by (auto simp: Tetris_inv_def)
  show ?thesis
  proof (cases b)
    case True
    then show ?thesis using assms b \<open>isJustPressed inp SELECT\<close>
      by (simp add: Tetris_rotate_def Let_def fbind_def)
  next
    case False
    let ?s = "s\<lparr>Tetris_curr := ?c\<lparr>piece_rot := ?n\<rparr>\<rparr>"
    have "Tetris_checkCollision ?s (piece_x ?c) (piece_y ?c) ?n = Inr False"
      using b False checkCollision_same [of ?s s] by simp
    then have "Tetris_inv ?s" using assms n by (simp add: Tetris_inv_def)
    then show ?thesis using b False \<open>isJustPressed inp SELECT\<close>
      by (simp add: Tetris_rotate_def Let_def fbind_def)
  qed
qed

lemma inv_left:
  assumes "Tetris_inv s"
  shows "\<exists>s1. Tetris_left inp s = Inr s1 \<and> Tetris_inv s1"
proof (cases "isJustPressed inp LEFT")
  case False
  then show ?thesis using assms by (simp add: Tetris_left_def)
next
  case True
  let ?c = "Tetris_curr s"
  obtain b where b: "Tetris_checkCollision s (piece_x ?c - 1) (piece_y ?c) (piece_rot ?c) = Inr b"
    using checkCollision_total [of s "piece_rot ?c" "piece_x ?c - 1" "piece_y ?c"] assms
    by (auto simp: Tetris_inv_def)
  show ?thesis
  proof (cases b)
    case True
    then show ?thesis using assms b \<open>isJustPressed inp LEFT\<close>
      by (simp add: Tetris_left_def Let_def fbind_def)
  next
    case False
    let ?s = "s\<lparr>Tetris_curr := ?c\<lparr>piece_x := piece_x ?c - 1\<rparr>\<rparr>"
    have "Tetris_checkCollision ?s (piece_x ?c - 1) (piece_y ?c) (piece_rot ?c) = Inr False"
      using b False checkCollision_same [of ?s s] by simp
    then have "Tetris_inv ?s" using assms by (simp add: Tetris_inv_def)
    then show ?thesis using b False \<open>isJustPressed inp LEFT\<close>
      by (simp add: Tetris_left_def Let_def fbind_def)
  qed
qed

lemma inv_right:
  assumes "Tetris_inv s"
  shows "\<exists>s1. Tetris_right inp s = Inr s1 \<and> Tetris_inv s1"
proof (cases "isJustPressed inp RIGHT")
  case False
  then show ?thesis using assms by (simp add: Tetris_right_def)
next
  case True
  let ?c = "Tetris_curr s"
  obtain b where b: "Tetris_checkCollision s (piece_x ?c + 1) (piece_y ?c) (piece_rot ?c) = Inr b"
    using checkCollision_total [of s "piece_rot ?c" "piece_x ?c + 1" "piece_y ?c"] assms
    by (auto simp: Tetris_inv_def)
  show ?thesis
  proof (cases b)
    case True
    then show ?thesis using assms b \<open>isJustPressed inp RIGHT\<close>
      by (simp add: Tetris_right_def Let_def fbind_def)
  next
    case False
    let ?s = "s\<lparr>Tetris_curr := ?c\<lparr>piece_x := piece_x ?c + 1\<rparr>\<rparr>"
    have "Tetris_checkCollision ?s (piece_x ?c + 1) (piece_y ?c) (piece_rot ?c) = Inr False"
      using b False checkCollision_same [of ?s s] by simp
    then have "Tetris_inv ?s" using assms by (simp add: Tetris_inv_def)
    then show ?thesis using b False \<open>isJustPressed inp RIGHT\<close>
      by (simp add: Tetris_right_def Let_def fbind_def)
  qed
qed

lemma placePiece_ok:
  assumes "Tetris_inv s"
  shows "\<exists>s1. Tetris_placePiece s = Inr s1 \<and> length (Tetris_grid s1) = 20
          \<and> Tetris_curr s1 = Tetris_curr s \<and> Tetris_dropSpeed s1 = Tetris_dropSpeed s
          \<and> Tetris_lastDrop s1 = Tetris_lastDrop s"
proof -
  let ?c = "Tetris_curr s"
  obtain cs where cs: "Tetris_getBlocks (piece_type ?c) (piece_rot ?c) = Some cs"
    using getBlocks_Some [of "piece_type ?c" "piece_rot ?c"] assms
    by (auto simp: Tetris_inv_def)
  have len: "length (Tetris_grid s) = 20" using assms by (simp add: Tetris_inv_def)
  have free: "cells_collide (Tetris_grid s) (piece_x ?c) (piece_y ?c) cs = Inr False"
    using assms cs by (simp add: Tetris_inv_def Tetris_checkCollision_def)
  have "\<forall>(bx, by) \<in> set cs. 0 \<le> piece_x ?c + bx \<and> piece_x ?c + bx < 10 \<and> piece_y ?c + by < 20"
    using cells_collide_free [OF len free] by blast
  then obtain g' where "place_cells (Tetris_grid s) (piece_x ?c) (piece_y ?c) cs = Inr g'"
    and "length g' = 20"
    using place_cells_ok [OF len] by blast
  then show ?thesis using cs by (simp add: Tetris_placePiece_def Let_def fbind_def)
qed

lemma spawnPiece_inv:
  assumes "length (Tetris_grid s) = 20"
  shows "Tetris_inv (fst (Tetris_spawnPiece r s))"
    and "Tetris_grid (fst (Tetris_spawnPiece r s)) = Tetris_grid s"
proof -
  let ?t = "fst (random_range 0 7 r)"
  have t: "0 \<le> ?t" "?t < 7" using random_range_bounds [of 0 7 r] by simp_all
  obtain cs where cs: "Tetris_getBlocks ?t 0 = Some cs"
    and bnd: "\<forall>(bx, by) \<in> set cs. 0 \<le> bx \<and> bx \<le> 3 \<and> 0 \<le> by \<and> by \<le> 1"
    using getBlocks_spawn [of ?t] t by blast
  have "\<forall>(bx, by) \<in> set cs. (0::int) \<le> 3 + bx \<and> 3 + bx < (10::int) \<and> - 2 + by < (0::int)"
    using bnd by fastforce
  then have "cells_collide (Tetris_grid s) 3 (- 2) cs = Inr False"
    by (rule cells_collide_above)
  then show "Tetris_inv (fst (Tetris_spawnPiece r s))"
    using assms t cs
    by (simp add: Tetris_spawnPiece_def case_prod_beta Tetris_inv_def Tetris_checkCollision_def)
  show "Tetris_grid (fst (Tetris_spawnPiece r s)) = Tetris_grid s"
    by (simp add: Tetris_spawnPiece_def case_prod_beta)
qed

lemma inv_same:
  "Tetris_grid s' = Tetris_grid s \<Longrightarrow> Tetris_curr s' = Tetris_curr s \<Longrightarrow>
   Tetris_inv s' = Tetris_inv s"
  using checkCollision_same [of s' s] by (simp add: Tetris_inv_def)

lemma init_inv: "Tetris_inv (fst (Tetris_init now r s))"
proof -
  let ?s = "s\<lparr>Tetris_grid := replicate 20 0\<rparr>"
  have "Tetris_inv (fst (Tetris_spawnPiece r ?s))"
    by (rule spawnPiece_inv) simp
  then show ?thesis
    using inv_same [of "fst (Tetris_init now r s)" "fst (Tetris_spawnPiece r ?s)"]
    by (simp add: Tetris_init_def case_prod_beta)
qed

lemma inv_moves:
  assumes "Tetris_inv s"
  shows "\<exists>m. Tetris_moves inp s = Inr m \<and> Tetris_inv m"
proof -
  obtain s1 where s1: "Tetris_rotate inp s = Inr s1" "Tetris_inv s1"
    using inv_rotate [OF assms] by blast
  obtain s2 where s2: "Tetris_left inp s1 = Inr s2" "Tetris_inv s2"
    using inv_left [OF s1(2)] by blast
  obtain s3 where s3: "Tetris_right inp s2 = Inr s3" "Tetris_inv s3"
    using inv_right [OF s2(2)] by blast
  show ?thesis using s1 s2 s3 by (simp add: Tetris_moves_def fbind_def)
qed

lemma lock_result:
  assumes "Tetris_inv s" and "0 \<le> piece_y (Tetris_curr s)"
  shows "\<exists>p s' r'. Tetris_placePiece s = Inr p
          \<and> Tetris_lock r s score
              = Inr (s', score + 10 * of_nat (full_rows (Tetris_grid p)), False, r')
          \<and> Tetris_grid s' = cleared (Tetris_grid p) \<and> Tetris_inv s'"
proof -
  obtain p where p: "Tetris_placePiece s = Inr p" "length (Tetris_grid p) = 20"
    using placePiece_ok [OF assms(1)] by blast
  let ?n = "full_rows (Tetris_grid p)"
  let ?q = "p\<lparr>Tetris_grid := cleared (Tetris_grid p),
               Tetris_dropSpeed := Tetris_dropSpeed p - 10 * int ?n\<rparr>"
  have len: "length (Tetris_grid ?q) = 20" using p(2) by (simp add: length_cleared)
  have "Tetris_lock r s score =
      Inr (fst (Tetris_spawnPiece r ?q), score + 10 * of_nat ?n, False,
           snd (Tetris_spawnPiece r ?q))"
    using assms(2) p
    by (simp add: Tetris_lock_def fbind_def clearLines_cleared case_prod_beta)
  moreover have "Tetris_inv (fst (Tetris_spawnPiece r ?q))"
    using spawnPiece_inv(1) [OF len] .
  moreover have "Tetris_grid (fst (Tetris_spawnPiece r ?q)) = cleared (Tetris_grid p)"
    using spawnPiece_inv(2) [OF len] by simp
  ultimately show ?thesis using p(1) by blast
qed

lemma inv_lock:
  assumes "Tetris_inv s"
  shows "\<exists>s' score' over r'. Tetris_lock r s score = Inr (s', score', over, r') \<and> Tetris_inv s'"
proof (cases "piece_y (Tetris_curr s) < 0")
  case True
  then show ?thesis using assms by (auto simp: Tetris_lock_def)
next
  case False
  then show ?thesis using lock_result [OF assms, of r score] by fastforce
qed

lemma inv_stamp: "Tetris_inv (s\<lparr>Tetris_lastDrop := now\<rparr>) = Tetris_inv s"
  by (rule inv_same) simp_all

lemma inv_drop:
  assumes "Tetris_inv s"
  shows "\<exists>s' score' over r'. Tetris_drop inp now r s score = Inr (s', score', over, r')
          \<and> Tetris_inv s'"
proof (cases "isPressed inp DOWN \<or> now - Tetris_lastDrop s > word_of_int (Tetris_dropSpeed s)")
  case False
  then show ?thesis using assms by (auto simp: Tetris_drop_def)
next
  case True
  let ?st = "s\<lparr>Tetris_lastDrop := now\<rparr>"
  let ?c = "Tetris_curr s"
  have inv0: "Tetris_inv ?st" using assms by (simp add: inv_stamp)
  obtain b where b: "Tetris_checkCollision ?st (piece_x ?c) (piece_y ?c + 1) (piece_rot ?c) = Inr b"
    using checkCollision_total [of ?st "piece_rot ?c" "piece_x ?c" "piece_y ?c + 1"] assms
    by (auto simp: Tetris_inv_def)
  show ?thesis
  proof (cases b)
    case True
    have "Tetris_drop inp now r s score = Tetris_lock r ?st score"
      using \<open>isPressed inp DOWN \<or> _\<close> b True
      by (simp add: Tetris_drop_def Let_def fbind_def)
    then show ?thesis using inv_lock [OF inv0, of r score] by simp
  next
    case False
    let ?s = "?st\<lparr>Tetris_curr := ?c\<lparr>piece_y := piece_y ?c + 1\<rparr>\<rparr>"
    have "Tetris_checkCollision ?s (piece_x ?c) (piece_y ?c + 1) (piece_rot ?c)
          = Tetris_checkCollision ?st (piece_x ?c) (piece_y ?c + 1) (piece_rot ?c)"
      by (rule checkCollision_same) simp_all
    also have "\<dots> = Inr False" using b False by simp
    finally have "Tetris_checkCollision ?s (piece_x ?c) (piece_y ?c + 1) (piece_rot ?c) = Inr False" .
    then have "Tetris_inv ?s" using assms by (simp add: Tetris_inv_def)
    moreover have "Tetris_drop inp now r s score = Inr (?s, score, False, r)"
      using \<open>isPressed inp DOWN \<or> _\<close> b False
      by (simp add: Tetris_drop_def Let_def fbind_def)
    ultimately show ?thesis by blast
  qed
qed

lemma inv_update:
  assumes "Tetris_inv s"
  shows "\<exists>s' score' over r'. Tetris_update inp now r s score = Inr (s', score', over, r')
          \<and> Tetris_inv s'"
proof -
  obtain m where m: "Tetris_moves inp s = Inr m" "Tetris_inv m"
    using inv_moves [OF assms] by blast
  show ?thesis using m(1) inv_drop [OF m(2), of inp now r score]
    by (simp add: Tetris_update_def fbind_def)
qed

lemma play_total:
  "Tetris_inv s \<Longrightarrow> \<exists>res. Tetris_play ticks r s score = Inr res"
proof (induction ticks arbitrary: r s score)
  case Nil
  then show ?case by auto
next
  case (Cons t ticks)
  obtain inp now where t: "t = (inp, now)" by (cases t)
  obtain s' score' over r' where
    u: "Tetris_update inp now r s score = Inr (s', score', over, r')" and inv: "Tetris_inv s'"
    using inv_update [OF Cons.prems] by blast
  show ?case
    using u Cons.IH [OF inv, of r' score'] by (auto simp: t fbind_def)
qed

text \<open>
  Claim C3, amended: the full rows are cleared in the update in which the piece locks, not
  in the one after it. In a state that satisfies the invariant, after the moves of the
  tick the drop is due and the piece cannot go down, so it locks. If its origin is still
  above the grid (\<open>y < 0\<close>), the update reports game over and leaves the score alone.
  Otherwise the piece is placed and, in that same update, every row equal to 1023 is
  removed: the grid that the update returns is \<open>cleared\<close> of the grid with the piece
  placed (the rows above a removed row one lower each, empty rows entering at the top),
  it has no row equal to 1023, and the score has grown by 10 for each removed row.
\<close>

theorem tetris_lock_clears_full_rows:
  assumes "Tetris_inv s"
    and "Tetris_moves inp s = Inr m"
    and "isPressed inp DOWN \<or> now - Tetris_lastDrop m > word_of_int (Tetris_dropSpeed m)"
    and "Tetris_checkCollision m (piece_x (Tetris_curr m)) (piece_y (Tetris_curr m) + 1)
           (piece_rot (Tetris_curr m)) = Inr True"
  shows "(piece_y (Tetris_curr m) < 0 \<longrightarrow>
            (\<exists>s' r'. Tetris_update inp now r s score = Inr (s', score, True, r')))
       \<and> (0 \<le> piece_y (Tetris_curr m) \<longrightarrow>
            (\<exists>p s' r'. Tetris_placePiece (m\<lparr>Tetris_lastDrop := now\<rparr>) = Inr p
               \<and> Tetris_update inp now r s score
                   = Inr (s', score + 10 * of_nat (full_rows (Tetris_grid p)), False, r')
               \<and> Tetris_grid s' = cleared (Tetris_grid p)
               \<and> 1023 \<notin> set (Tetris_grid s')))"
proof -
  let ?st = "m\<lparr>Tetris_lastDrop := now\<rparr>"
  obtain m' where m': "Tetris_moves inp s = Inr m'" "Tetris_inv m'"
    using inv_moves [OF assms(1)] by blast
  then have invm: "Tetris_inv m" using assms(2) by simp
  have inv0: "Tetris_inv ?st" using invm by (simp add: inv_stamp)
  have "Tetris_checkCollision ?st (piece_x (Tetris_curr m)) (piece_y (Tetris_curr m) + 1)
           (piece_rot (Tetris_curr m))
        = Tetris_checkCollision m (piece_x (Tetris_curr m)) (piece_y (Tetris_curr m) + 1)
           (piece_rot (Tetris_curr m))"
    by (rule checkCollision_same) simp_all
  then have upd: "Tetris_update inp now r s score = Tetris_lock r ?st score"
    using assms(2,3,4) by (simp add: Tetris_update_def Tetris_drop_def fbind_def Let_def)
  show ?thesis
  proof (intro conjI impI)
    assume "piece_y (Tetris_curr m) < 0"
    then show "\<exists>s' r'. Tetris_update inp now r s score = Inr (s', score, True, r')"
      by (simp add: upd Tetris_lock_def)
  next
    assume "0 \<le> piece_y (Tetris_curr m)"
    then have "0 \<le> piece_y (Tetris_curr ?st)" by simp
    from lock_result [OF inv0 this, of r score]
    obtain p s' r' where "Tetris_placePiece ?st = Inr p"
      and "Tetris_lock r ?st score
            = Inr (s', score + 10 * of_nat (full_rows (Tetris_grid p)), False, r')"
      and "Tetris_grid s' = cleared (Tetris_grid p)"
      by blast
    then show "\<exists>p s' r'. Tetris_placePiece ?st = Inr p
               \<and> Tetris_update inp now r s score
                   = Inr (s', score + 10 * of_nat (full_rows (Tetris_grid p)), False, r')
               \<and> Tetris_grid s' = cleared (Tetris_grid p)
               \<and> 1023 \<notin> set (Tetris_grid s')"
      using cleared_no_full_row [of "Tetris_grid p"] by (auto simp: upd)
  qed
qed

text \<open>The amended C3 at a concrete position: the I piece completes the bottom row.\<close>

lemma almost_inv: "Tetris_inv Tetris_almost"
  by (simp add: Tetris_inv_def Tetris_almost_def Tetris_checkCollision_def Tetris_getBlocks_def
        cmod_def Let_def fbind_def grid_read_def Tetris_ROWS_def Tetris_COLS_def nth_append)

lemma almost_moves: "Tetris_moves input_init Tetris_almost = Inr Tetris_almost"
  by (simp add: Tetris_moves_def Tetris_rotate_def Tetris_left_def Tetris_right_def
        isJustPressed_def input_init_def mkButton_def fbind_def)

lemma almost_blocked:
  "Tetris_checkCollision Tetris_almost 3 19 0 = Inr True"
  by (simp add: Tetris_almost_def Tetris_checkCollision_def Tetris_getBlocks_def
        cmod_def Let_def Tetris_ROWS_def Tetris_COLS_def)

lemma almost_placed:
  "Tetris_placePiece (Tetris_almost\<lparr>Tetris_lastDrop := 1000\<rparr>)
     = Inr (Tetris_almost\<lparr>Tetris_lastDrop := 1000, Tetris_grid := replicate 18 0 @ [5, 1023]\<rparr>)"
  by (simp add: Tetris_almost_def Tetris_placePiece_def Tetris_getBlocks_def
        cmod_def Let_def fbind_def list_update_append nth_append)

lemma almost_cleared:
  "full_rows (replicate 18 0 @ [5, 1023]) = 1"
  "cleared (replicate 18 0 @ [5, 1023]) = 0 # replicate 18 0 @ [5]"
  by (simp_all add: cleared_def full_rows_def)

theorem tetris_lock_clears_full_rows_witness:
  "Tetris_inv Tetris_almost
   \<and> Tetris_moves input_init Tetris_almost = Inr Tetris_almost
   \<and> (1000::u32) - Tetris_lastDrop Tetris_almost > word_of_int (Tetris_dropSpeed Tetris_almost)
   \<and> Tetris_checkCollision Tetris_almost (piece_x (Tetris_curr Tetris_almost))
        (piece_y (Tetris_curr Tetris_almost) + 1) (piece_rot (Tetris_curr Tetris_almost)) = Inr True
   \<and> (\<exists>s' r'. Tetris_update input_init 1000 zeros Tetris_almost 40 = Inr (s', 50, False, r')
        \<and> Tetris_grid s' = 0 # replicate 18 0 @ [5])"
proof -
  have due: "isPressed input_init DOWN
      \<or> (1000::u32) - Tetris_lastDrop Tetris_almost > word_of_int (Tetris_dropSpeed Tetris_almost)"
    by (simp add: Tetris_almost_def)
  have blocked: "Tetris_checkCollision Tetris_almost (piece_x (Tetris_curr Tetris_almost))
        (piece_y (Tetris_curr Tetris_almost) + 1) (piece_rot (Tetris_curr Tetris_almost)) = Inr True"
    using almost_blocked by (simp add: Tetris_almost_def)
  have y: "0 \<le> piece_y (Tetris_curr Tetris_almost)" by (simp add: Tetris_almost_def)
  from tetris_lock_clears_full_rows [OF almost_inv almost_moves due blocked, of zeros 40] y
  obtain p s' r' where p: "Tetris_placePiece (Tetris_almost\<lparr>Tetris_lastDrop := 1000\<rparr>) = Inr p"
    and u: "Tetris_update input_init 1000 zeros Tetris_almost 40
           = Inr (s', 40 + 10 * of_nat (full_rows (Tetris_grid p)), False, r')"
    and g: "Tetris_grid s' = cleared (Tetris_grid p)"
    by blast
  have "Tetris_grid p = replicate 18 0 @ [5, 1023]"
    using p by (auto simp: almost_placed)
  with u g have "Tetris_update input_init 1000 zeros Tetris_almost 40 = Inr (s', 50, False, r')
        \<and> Tetris_grid s' = 0 # replicate 18 0 @ [5]"
    by (simp add: almost_placed almost_cleared)
  then show ?thesis using almost_inv almost_moves blocked by (auto simp: Tetris_almost_def)
qed

text \<open>
  Claim C10. On a grid of 20 rows \<^verbatim>\<open>checkCollision\<close> never reads outside the array; it
  reports a collision as soon as some cell of the piece has its column outside \<open>[0, 10)\<close>
  or its row at 20 or more, and it reports none when every cell is inside the columns and
  above the grid (rows below 0 count as empty). \<^verbatim>\<open>placePiece\<close> skips the cells with a
  negative row and, for a piece that collides with nothing where it is, writes inside the
  array. The invariant holds after \<^verbatim>\<open>init\<close> and is kept by every update, which returns
  without a fault; so no update of a session accesses the grid out of bounds.
\<close>

theorem tetris_grid_access_in_bounds:
  "(length (Tetris_grid s) = 20 \<longrightarrow> Tetris_checkCollision s px py rot \<noteq> Inl OutOfBounds)
   \<and> (length (Tetris_grid s) = 20
        \<and> Tetris_getBlocks (piece_type (Tetris_curr s)) rot = Some cs \<and> (bx, by) \<in> set cs
        \<and> (px + bx < 0 \<or> 10 \<le> px + bx \<or> 20 \<le> py + by)
        \<longrightarrow> Tetris_checkCollision s px py rot = Inr True)
   \<and> (Tetris_getBlocks (piece_type (Tetris_curr s)) rot = Some cs
        \<and> (\<forall>(cx, cy) \<in> set cs. 0 \<le> px + cx \<and> px + cx < 10 \<and> py + cy < 0)
        \<longrightarrow> Tetris_checkCollision s px py rot = Inr False)
   \<and> (Tetris_inv s \<longrightarrow> (\<exists>p. Tetris_placePiece s = Inr p \<and> length (Tetris_grid p) = 20))
   \<and> (Tetris_inv s \<longrightarrow>
        (\<exists>s' score' over r'. Tetris_update inp now r s score = Inr (s', score', over, r')
           \<and> Tetris_inv s'))
   \<and> Tetris_inv (fst (Tetris_init now r s))
   \<and> (\<exists>res. Tetris_play ticks (snd (Tetris_init now r s)) (fst (Tetris_init now r s)) 0
               = Inr res)"
proof (intro conjI impI)
  assume len: "length (Tetris_grid s) = 20"
  show "Tetris_checkCollision s px py rot \<noteq> Inl OutOfBounds"
  proof (cases "Tetris_getBlocks (piece_type (Tetris_curr s)) rot")
    case None
    then show ?thesis by (simp add: Tetris_checkCollision_def)
  next
    case (Some cs')
    then show ?thesis
      using cells_collide_total [OF len, of px py cs'] by (auto simp: Tetris_checkCollision_def)
  qed
next
  assume "length (Tetris_grid s) = 20
        \<and> Tetris_getBlocks (piece_type (Tetris_curr s)) rot = Some cs \<and> (bx, by) \<in> set cs
        \<and> (px + bx < 0 \<or> 10 \<le> px + bx \<or> 20 \<le> py + by)"
  then show "Tetris_checkCollision s px py rot = Inr True"
    using cells_collide_outside [of "Tetris_grid s" bx "by" cs px py]
    by (simp add: Tetris_checkCollision_def)
next
  assume "Tetris_getBlocks (piece_type (Tetris_curr s)) rot = Some cs
        \<and> (\<forall>(cx, cy) \<in> set cs. 0 \<le> px + cx \<and> px + cx < 10 \<and> py + cy < 0)"
  then show "Tetris_checkCollision s px py rot = Inr False"
    using cells_collide_above [of cs px py "Tetris_grid s"]
    by (simp add: Tetris_checkCollision_def)
next
  assume "Tetris_inv s"
  then show "\<exists>p. Tetris_placePiece s = Inr p \<and> length (Tetris_grid p) = 20"
    using placePiece_ok [of s] by blast
next
  assume "Tetris_inv s"
  then show "\<exists>s' score' over r'. Tetris_update inp now r s score = Inr (s', score', over, r')
           \<and> Tetris_inv s'"
    by (rule inv_update)
next
  show "Tetris_inv (fst (Tetris_init now r s))" by (rule init_inv)
next
  show "\<exists>res. Tetris_play ticks (snd (Tetris_init now r s)) (fst (Tetris_init now r s)) 0
               = Inr res"
    using init_inv by (rule play_total)
qed

text \<open>C10 at the concrete position above.\<close>

lemma almost_blocks: "Tetris_getBlocks (piece_type (Tetris_curr Tetris_almost)) 0
    = Some [(0, 1), (1, 1), (2, 1), (3, 1)]"
  by (simp add: Tetris_almost_def Tetris_getBlocks_def cmod_def)

theorem tetris_grid_access_in_bounds_witness:
  "length (Tetris_grid Tetris_almost) = 20
   \<and> Tetris_getBlocks (piece_type (Tetris_curr Tetris_almost)) 0 = Some [(0, 1), (1, 1), (2, 1), (3, 1)]
   \<and> Tetris_checkCollision Tetris_almost 7 5 0 = Inr True
   \<and> Tetris_checkCollision Tetris_almost 3 (- 2) 0 = Inr False
   \<and> Tetris_inv Tetris_almost
   \<and> (\<exists>p. Tetris_placePiece Tetris_almost = Inr p \<and> length (Tetris_grid p) = 20)
   \<and> (\<exists>s' score' over r'.
        Tetris_update input_init 1000 zeros Tetris_almost 40 = Inr (s', score', over, r')
        \<and> Tetris_inv s')"
  using tetris_grid_access_in_bounds
    [of Tetris_almost 7 5 0 "[(0, 1), (1, 1), (2, 1), (3, 1)]" 3 1 input_init 1000 zeros 40]
    tetris_grid_access_in_bounds
    [of Tetris_almost 3 "- 2" 0 "[(0, 1), (1, 1), (2, 1), (3, 1)]" 3 1 input_init 1000 zeros 40]
    almost_inv almost_blocks
  by (simp add: Tetris_almost_def)

lemma zeros_rest: "rng_rest zeros = zeros"
  by (simp add: rng_rest_def zeros_def)

lemma lock_tick:
  "Tetris_update input_init 1000 zeros Tetris_almost 40 = Inr (Tetris_locked, 50, False, zeros)"
proof -
  have "map_sum id (\<lambda>(s, sc, ov, r). (s, sc, ov)) (Tetris_update input_init 1000 zeros Tetris_almost 40)
        = Inr (Tetris_locked, 50, False)"
    by code_simp
  moreover have "\<And>x. Tetris_update input_init 1000 zeros Tetris_almost 40 = Inr x \<Longrightarrow> snd (snd (snd x)) = zeros"
    by (auto simp: Tetris_update_def Tetris_drop_def Tetris_lock_def Tetris_spawnPiece_def
        random_range_def zeros_rest fbind_def Let_def split: if_splits sum.splits prod.splits)
  ultimately show ?thesis
    by (cases "Tetris_update input_init 1000 zeros Tetris_almost 40") auto
qed


lemma next_tick:
  "Tetris_update input_init 2000 zeros Tetris_locked 50 = Inr (Tetris_falling, 50, False, zeros)"
proof -
  have "map_sum id (\<lambda>(s, sc, ov, r). (s, sc, ov)) (Tetris_update input_init 2000 zeros Tetris_locked 50)
        = Inr (Tetris_falling, 50, False)"
    by code_simp
  moreover have "\<And>x. Tetris_update input_init 2000 zeros Tetris_locked 50 = Inr x \<Longrightarrow> snd (snd (snd x)) = zeros"
    by (auto simp: Tetris_update_def Tetris_drop_def Tetris_lock_def Tetris_spawnPiece_def
        random_range_def zeros_rest fbind_def Let_def split: if_splits sum.splits prod.splits)
  ultimately show ?thesis
    by (cases "Tetris_update input_init 2000 zeros Tetris_locked 50") auto
qed

text \<open>
  Claim C3 puts the clearing of a full row, and its 10 points, on the tick that follows
  the lock. In the position \<open>Tetris_almost\<close> the piece locks in the update at time 1000
  and completes the bottom row. That same update returns the grid without the row and the
  score raised from 40 to 50; the update that follows, at time 2000, changes neither the
  grid nor the score.
\<close>

theorem tetris_clear_next_tick_counterexample:
  "Tetris_update input_init 1000 zeros Tetris_almost 40 = Inr (Tetris_locked, 50, False, zeros)
   \<and> 1023 \<notin> set (Tetris_grid Tetris_locked)
   \<and> Tetris_update input_init 2000 zeros Tetris_locked 50 = Inr (Tetris_falling, 50, False, zeros)
   \<and> Tetris_grid Tetris_falling = Tetris_grid Tetris_locked"
  by (simp add: lock_tick next_tick) (simp add: Tetris_locked_def Tetris_falling_def)


section \<open>Properties of Snake\<close>

lemma spawnFood_food_only:
  assumes "Snake_spawnFood r s = Some res"
  shows "\<exists>f. fst res = s\<lparr>Snake_food := f\<rparr>"
proof (rule Snake_spawnFood.raw_induct
    [where P = "\<lambda>r s res. \<exists>f. fst res = s\<lparr>Snake_food := f\<rparr>", OF _ assms])
  fix spawn :: "rng \<Rightarrow> SnakeState \<Rightarrow> (SnakeState \<times> rng) option"
  fix r :: rng and s :: SnakeState and res :: "SnakeState \<times> rng"
  let ?fx = "random_range 0 (SCREEN_WIDTH div Snake_GRID_SIZE) r"
  let ?fy = "random_range 2 (SCREEN_HEIGHT div Snake_GRID_SIZE) (snd ?fx)"
  let ?s = "s\<lparr>Snake_food := \<lparr>pt_x = fst ?fx, pt_y = fst ?fy\<rparr>\<rparr>"
  assume IH: "\<And>r s res. spawn r s = Some res \<Longrightarrow> \<exists>f. fst res = s\<lparr>Snake_food := f\<rparr>"
    and body: "(let fx = random_range 0 (SCREEN_WIDTH div Snake_GRID_SIZE) r;
          fy = random_range 2 (SCREEN_HEIGHT div Snake_GRID_SIZE) (snd fx);
          s' = s\<lparr>Snake_food := \<lparr>pt_x = fst fx, pt_y = fst fy\<rparr>\<rparr>;
          onBody = list_ex (\<lambda>i. Snake_body s' ! i = Snake_food s') [0..<nat (Snake_length s')]
      in if onBody then spawn (snd fy) s' else Some (s', snd fy)) = Some res"
  show "\<exists>f. fst res = s\<lparr>Snake_food := f\<rparr>"
  proof (cases "list_ex (\<lambda>i. Snake_body ?s ! i = Snake_food ?s) [0..<nat (Snake_length ?s)]")
    case True
    then have "spawn (snd ?fy) ?s = Some res" using body by (simp add: Let_def)
    then obtain f where "fst res = ?s\<lparr>Snake_food := f\<rparr>" using IH by blast
    then show ?thesis by auto
  next
    case False
    then have "res = (?s, snd ?fy)" using body by (simp add: Let_def)
    then show ?thesis by auto
  qed
qed

lemma rng_rest_skip: "rng_rest (rng_rest r) = rng_skip 2 r"
  by (simp add: rng_rest_def rng_skip_def fun_eq_iff)

lemma rng_skip_skip: "rng_skip a (rng_skip b r) = rng_skip (a + b) r"
  by (simp add: rng_skip_def fun_eq_iff add.assoc)

lemma draw_skip: "Snake_draw (rng_skip 2 r) j = Snake_draw r (Suc j)"
  by (simp add: Snake_draw_def rng_skip_def add.commute)

lemma onBody_food: "Snake_onBody (s\<lparr>Snake_food := f\<rparr>) c = Snake_onBody s c"
  by (simp add: Snake_onBody_def)

text \<open>One pass of the loop, in terms of the draw and the test.\<close>

lemma spawnFood_pass:
  "Snake_spawnFood r s =
     (if Snake_onBody s (Snake_draw r 0)
      then Snake_spawnFood (rng_skip 2 r) (s\<lparr>Snake_food := Snake_draw r 0\<rparr>)
      else Some (s\<lparr>Snake_food := Snake_draw r 0\<rparr>, rng_skip 2 r))"
proof -
  have fx: "random_range 0 (SCREEN_WIDTH div Snake_GRID_SIZE) r = (int (r 0) mod 32, rng_rest r)"
    by (simp add: random_range_def SCREEN_WIDTH_def Snake_GRID_SIZE_def)
  have fy: "random_range 2 (SCREEN_HEIGHT div Snake_GRID_SIZE) (rng_rest r)
            = (2 + int (r 1) mod 14, rng_rest (rng_rest r))"
    by (simp add: random_range_def SCREEN_HEIGHT_def Snake_GRID_SIZE_def rng_rest_def)
  have d: "Snake_draw r 0 = \<lparr>pt_x = int (r 0) mod 32, pt_y = 2 + int (r 1) mod 14\<rparr>"
    by (simp add: Snake_draw_def)
  show ?thesis
    by (subst Snake_spawnFood.simps)
       (simp add: fx fy d Let_def Snake_onBody_def rng_rest_skip)
qed

text \<open>The loop returns as soon as the generator offers a free cell.\<close>

lemma spawnFood_at:
  "\<forall>j<k. Snake_onBody s (Snake_draw r j) \<Longrightarrow> \<not> Snake_onBody s (Snake_draw r k) \<Longrightarrow>
   Snake_spawnFood r s = Some (s\<lparr>Snake_food := Snake_draw r k\<rparr>, rng_skip (2 * Suc k) r)"
proof (induction k arbitrary: r s)
  case 0
  then show ?case by (subst spawnFood_pass) simp
next
  case (Suc k)
  let ?s = "s\<lparr>Snake_food := Snake_draw r 0\<rparr>"
  have busy: "Snake_onBody s (Snake_draw r 0)" using Suc.prems(1) by simp
  have "\<forall>j<k. Snake_onBody ?s (Snake_draw (rng_skip 2 r) j)"
    using Suc.prems(1) by (simp add: onBody_food draw_skip)
  moreover have "\<not> Snake_onBody ?s (Snake_draw (rng_skip 2 r) k)"
    using Suc.prems(2) by (simp add: onBody_food draw_skip)
  ultimately have "Snake_spawnFood (rng_skip 2 r) ?s
      = Some (?s\<lparr>Snake_food := Snake_draw (rng_skip 2 r) k\<rparr>, rng_skip (2 * Suc k) (rng_skip 2 r))"
    by (rule Suc.IH)
  then show ?case using busy
    by (subst spawnFood_pass) (simp add: draw_skip rng_skip_skip)
qed

lemma turn_fields:
  "Snake_body (Snake_turn inp s) = Snake_body s"
  "Snake_length (Snake_turn inp s) = Snake_length s"
  "Snake_speedMs (Snake_turn inp s) = Snake_speedMs s"
  "Snake_lastMove (Snake_turn inp s) = Snake_lastMove s"
  "Snake_food (Snake_turn inp s) = Snake_food s"
  by (simp_all add: Snake_turn_def)

lemma moved_fields:
  "Snake_dir (Snake_moved inp now s) = Snake_dir (Snake_turn inp s)"
  "Snake_speedMs (Snake_moved inp now s) = Snake_speedMs s"
  "Snake_food (Snake_moved inp now s) = Snake_food s"
  by (simp_all add: Snake_moved_def Snake_moveBody_def Let_def turn_fields)

lemma grow_fields:
  "Snake_dir (Snake_grow s) = Snake_dir s"
  "Snake_speedMs (Snake_grow s) = Snake_speedMs s"
  by (simp_all add: Snake_grow_def)

lemma eat_result:
  assumes "Snake_eat r s score = Some (s', score', over, r')"
  shows "score' = score + 1 \<and> \<not> over \<and> Snake_dir s' = Snake_dir s
         \<and> Snake_speedMs s' = (if Snake_speedMs s > 50 then Snake_speedMs s - 2 else Snake_speedMs s)"
proof -
  obtain s2 r2 where sp: "Snake_spawnFood r (Snake_grow s) = Some (s2, r2)"
    using assms by (auto simp: Snake_eat_def split: option.splits)
  obtain f where "s2 = (Snake_grow s)\<lparr>Snake_food := f\<rparr>"
    using spawnFood_food_only [OF sp] by auto
  then have "Snake_speedMs s2 = Snake_speedMs s" "Snake_dir s2 = Snake_dir s"
    by (simp_all add: grow_fields)
  then show ?thesis using assms sp by (auto simp: Snake_eat_def split: if_splits)
qed

text \<open>Eating returns when a free cell is offered, and then the threshold follows its rule.\<close>

lemma eat_at:
  assumes "\<forall>j<k. Snake_onBody (Snake_grow s) (Snake_draw r j)"
    and "\<not> Snake_onBody (Snake_grow s) (Snake_draw r k)"
  shows "Snake_eat r s score =
     Some ((Snake_grow s)\<lparr>Snake_food := Snake_draw r k,
              Snake_speedMs := (if Snake_speedMs s > 50 then Snake_speedMs s - 2
                                else Snake_speedMs s)\<rparr>,
           score + 1, False, rng_skip (2 * Suc k) r)"
  using spawnFood_at [OF assms] by (simp add: Snake_eat_def grow_fields)

lemma init_at:
  assumes "\<forall>j<k. Snake_onBody (Snake_reset s) (Snake_draw r j)"
    and "\<not> Snake_onBody (Snake_reset s) (Snake_draw r k)"
  shows "Snake_init now r s =
     Some ((Snake_reset s)\<lparr>Snake_food := Snake_draw r k, Snake_lastMove := now,
              Snake_speedMs := 150\<rparr>, rng_skip (2 * Suc k) r)"
  using spawnFood_at [OF assms] by (simp add: Snake_init_def)

lemma update_result:
  assumes "Snake_update inp now r s score = Some (s', score', over, r')"
  shows "Snake_speedMs s' = Snake_speedMs s
       \<or> Snake_speedMs s' = (if Snake_speedMs s > 50 then Snake_speedMs s - 2
                              else Snake_speedMs s)"
proof (cases "now - Snake_lastMove s > word_of_int (Snake_speedMs s)")
  case False
  then show ?thesis using assms by (auto simp: Snake_update_def Let_def turn_fields)
next
  case True
  let ?m = "Snake_moved inp now s"
  show ?thesis
  proof (cases "\<not> Snake_hitsWall ?m \<and> \<not> Snake_hitsSelf ?m \<and> Snake_body ?m ! 0 = Snake_food ?m")
    case False
    then have "s' = ?m"
      using assms True by (auto simp: Snake_update_def Let_def turn_fields split: if_splits)
    then show ?thesis by (simp add: moved_fields)
  next
    case eat: True
    then have "Snake_eat r ?m score = Some (s', score', over, r')"
      using assms True by (simp add: Snake_update_def Let_def turn_fields)
    from eat_result [OF this] show ?thesis by (simp add: moved_fields)
  qed
qed

lemma update_speed_ok:
  assumes "Snake_update inp now r s score = Some (s', score', over, r')" and "speed_ok s"
  shows "speed_ok s'"
  using update_result [OF assms(1)] assms(2) unfolding speed_ok_def by (auto split: if_splits)

lemma play_speed_ok:
  "Snake_play ticks r s score = Some (s', score', over, r') \<Longrightarrow> speed_ok s \<Longrightarrow> speed_ok s'"
proof (induction ticks arbitrary: r s score)
  case Nil
  then show ?case by simp
next
  case (Cons t ticks)
  obtain inp now where t: "t = (inp, now)" by (cases t)
  obtain s1 score1 over1 r1 where u: "Snake_update inp now r s score = Some (s1, score1, over1, r1)"
    using Cons.prems(1) by (auto simp: t split: option.splits)
  have ok1: "speed_ok s1" using update_speed_ok [OF u Cons.prems(2)] .
  show ?case
  proof (cases over1)
    case True
    then show ?thesis using Cons.prems(1) u ok1 by (simp add: t)
  next
    case False
    then have "Snake_play ticks r1 s1 score1 = Some (s', score', over, r')"
      using Cons.prems(1) u by (simp add: t)
    then show ?thesis using Cons.IH ok1 by blast
  qed
qed

lemma init_speed:
  assumes "Snake_init now r s = Some (s', r')"
  shows "Snake_speedMs s' = 150"
  using assms by (auto simp: Snake_init_def split: option.splits)

text \<open>
  Claim C6. With \<open>m\<close> the state after the turn and one step of the body:
  \<^item> a snake that moves along x turns to up on UP, to down on DOWN, and otherwise keeps its
    direction, whatever LEFT and RIGHT say; a snake that moves along y turns on LEFT and
    RIGHT only; the turn leaves the body alone;
  \<^item> if the elapsed time does not exceed \<^verbatim>\<open>speedMs\<close>, the update returns the state after
    the turn, the same score and no game over: the body has not moved;
  \<^item> if it does, the update returns \<open>m\<close> with game over when the head is in a wall or in
    the body, and \<open>m\<close> with the same score when the head is not on the food;
  \<^item> if the head is on the food and the generator offers a free cell in pass \<open>k\<close> of the
    loop of \<^verbatim>\<open>spawnFood\<close> (after \<open>k\<close> cells on the body), the update returns: the score
    is one more, the food is that cell, and the threshold has dropped by 2 if it was above
    50 and is unchanged otherwise;
  \<^item> under the same condition on the generator \<^verbatim>\<open>init\<close> returns, with threshold 150;
  \<^item> at the end of every session that starts with \<^verbatim>\<open>init\<close> the threshold is between 50
    and 150.
\<close>

theorem snake_turns_and_speed:
  "(pt_y (Snake_dir s) = 0 \<and> pt_x (Snake_dir s) \<noteq> 0 \<longrightarrow>
      Snake_dir (Snake_turn inp s)
        = (if isJustPressed inp UP then \<lparr>pt_x = 0, pt_y = - 1\<rparr>
           else if isJustPressed inp DOWN then \<lparr>pt_x = 0, pt_y = 1\<rparr> else Snake_dir s))
   \<and> (pt_x (Snake_dir s) = 0 \<and> pt_y (Snake_dir s) \<noteq> 0 \<longrightarrow>
      Snake_dir (Snake_turn inp s)
        = (if isJustPressed inp LEFT then \<lparr>pt_x = - 1, pt_y = 0\<rparr>
           else if isJustPressed inp RIGHT then \<lparr>pt_x = 1, pt_y = 0\<rparr> else Snake_dir s))
   \<and> Snake_body (Snake_turn inp s) = Snake_body s
   \<and> (\<not> now - Snake_lastMove s > word_of_int (Snake_speedMs s) \<longrightarrow>
        Snake_update inp now r s score = Some (Snake_turn inp s, score, False, r))
   \<and> (now - Snake_lastMove s > word_of_int (Snake_speedMs s)
        \<and> (Snake_hitsWall (Snake_moved inp now s) \<or> Snake_hitsSelf (Snake_moved inp now s)) \<longrightarrow>
        Snake_update inp now r s score = Some (Snake_moved inp now s, score, True, r))
   \<and> (now - Snake_lastMove s > word_of_int (Snake_speedMs s)
        \<and> \<not> Snake_hitsWall (Snake_moved inp now s) \<and> \<not> Snake_hitsSelf (Snake_moved inp now s)
        \<and> Snake_body (Snake_moved inp now s) ! 0 \<noteq> Snake_food (Snake_moved inp now s) \<longrightarrow>
        Snake_update inp now r s score = Some (Snake_moved inp now s, score, False, r))
   \<and> (now - Snake_lastMove s > word_of_int (Snake_speedMs s)
        \<and> \<not> Snake_hitsWall (Snake_moved inp now s) \<and> \<not> Snake_hitsSelf (Snake_moved inp now s)
        \<and> Snake_body (Snake_moved inp now s) ! 0 = Snake_food (Snake_moved inp now s)
        \<and> (\<forall>j<k. Snake_onBody (Snake_grow (Snake_moved inp now s)) (Snake_draw r j))
        \<and> \<not> Snake_onBody (Snake_grow (Snake_moved inp now s)) (Snake_draw r k) \<longrightarrow>
        Snake_update inp now r s score
          = Some ((Snake_grow (Snake_moved inp now s))
                     \<lparr>Snake_food := Snake_draw r k,
                      Snake_speedMs := (if Snake_speedMs s > 50 then Snake_speedMs s - 2
                                        else Snake_speedMs s)\<rparr>,
                  score + 1, False, rng_skip (2 * Suc k) r))
   \<and> ((\<forall>j<k. Snake_onBody (Snake_reset s) (Snake_draw r j))
        \<and> \<not> Snake_onBody (Snake_reset s) (Snake_draw r k) \<longrightarrow>
        Snake_init now r s
          = Some ((Snake_reset s)\<lparr>Snake_food := Snake_draw r k, Snake_lastMove := now,
                     Snake_speedMs := 150\<rparr>, rng_skip (2 * Suc k) r))
   \<and> (Snake_init now r s = Some (s0, r0) \<and> Snake_play ticks r0 s0 0 = Some (s', score', over, r')
        \<longrightarrow> 50 \<le> Snake_speedMs s' \<and> Snake_speedMs s' \<le> 150)"
proof -
  let ?due = "now - Snake_lastMove s > word_of_int (Snake_speedMs s)"
  let ?m = "Snake_moved inp now s"
  have c1: "pt_y (Snake_dir s) = 0 \<and> pt_x (Snake_dir s) \<noteq> 0 \<longrightarrow>
      Snake_dir (Snake_turn inp s)
        = (if isJustPressed inp UP then \<lparr>pt_x = 0, pt_y = - 1\<rparr>
           else if isJustPressed inp DOWN then \<lparr>pt_x = 0, pt_y = 1\<rparr> else Snake_dir s)"
    by (simp add: Snake_turn_def)
  have c2: "pt_x (Snake_dir s) = 0 \<and> pt_y (Snake_dir s) \<noteq> 0 \<longrightarrow>
      Snake_dir (Snake_turn inp s)
        = (if isJustPressed inp LEFT then \<lparr>pt_x = - 1, pt_y = 0\<rparr>
           else if isJustPressed inp RIGHT then \<lparr>pt_x = 1, pt_y = 0\<rparr> else Snake_dir s)"
    by (simp add: Snake_turn_def)
  have c3: "Snake_body (Snake_turn inp s) = Snake_body s" by (rule turn_fields)
  have c4: "\<not> ?due \<longrightarrow> Snake_update inp now r s score = Some (Snake_turn inp s, score, False, r)"
    by (simp add: Snake_update_def Let_def turn_fields)
  have c5: "?due \<and> (Snake_hitsWall ?m \<or> Snake_hitsSelf ?m) \<longrightarrow>
        Snake_update inp now r s score = Some (?m, score, True, r)"
    by (simp add: Snake_update_def Let_def turn_fields)
  have c6: "?due \<and> \<not> Snake_hitsWall ?m \<and> \<not> Snake_hitsSelf ?m
        \<and> Snake_body ?m ! 0 \<noteq> Snake_food ?m \<longrightarrow>
        Snake_update inp now r s score = Some (?m, score, False, r)"
    by (simp add: Snake_update_def Let_def turn_fields)
  have c7: "?due \<and> \<not> Snake_hitsWall ?m \<and> \<not> Snake_hitsSelf ?m
        \<and> Snake_body ?m ! 0 = Snake_food ?m
        \<and> (\<forall>j<k. Snake_onBody (Snake_grow ?m) (Snake_draw r j))
        \<and> \<not> Snake_onBody (Snake_grow ?m) (Snake_draw r k) \<longrightarrow>
        Snake_update inp now r s score
          = Some ((Snake_grow ?m)
                     \<lparr>Snake_food := Snake_draw r k,
                      Snake_speedMs := (if Snake_speedMs s > 50 then Snake_speedMs s - 2
                                        else Snake_speedMs s)\<rparr>,
                  score + 1, False, rng_skip (2 * Suc k) r)"
  proof
    assume a: "?due \<and> \<not> Snake_hitsWall ?m \<and> \<not> Snake_hitsSelf ?m
        \<and> Snake_body ?m ! 0 = Snake_food ?m
        \<and> (\<forall>j<k. Snake_onBody (Snake_grow ?m) (Snake_draw r j))
        \<and> \<not> Snake_onBody (Snake_grow ?m) (Snake_draw r k)"
    then have "Snake_update inp now r s score = Snake_eat r ?m score"
      by (simp add: Snake_update_def Let_def turn_fields)
    also have "\<dots> = Some ((Snake_grow ?m)\<lparr>Snake_food := Snake_draw r k,
              Snake_speedMs := (if Snake_speedMs ?m > 50 then Snake_speedMs ?m - 2
                                else Snake_speedMs ?m)\<rparr>,
           score + 1, False, rng_skip (2 * Suc k) r)"
      using a by (intro eat_at) simp_all
    finally show "Snake_update inp now r s score
          = Some ((Snake_grow ?m)
                     \<lparr>Snake_food := Snake_draw r k,
                      Snake_speedMs := (if Snake_speedMs s > 50 then Snake_speedMs s - 2
                                        else Snake_speedMs s)\<rparr>,
                  score + 1, False, rng_skip (2 * Suc k) r)"
      by (simp add: moved_fields)
  qed
  have c8: "(\<forall>j<k. Snake_onBody (Snake_reset s) (Snake_draw r j))
        \<and> \<not> Snake_onBody (Snake_reset s) (Snake_draw r k) \<longrightarrow>
        Snake_init now r s
          = Some ((Snake_reset s)\<lparr>Snake_food := Snake_draw r k, Snake_lastMove := now,
                     Snake_speedMs := 150\<rparr>, rng_skip (2 * Suc k) r)"
    using init_at [of k s r now] by blast
  have c9: "Snake_init now r s = Some (s0, r0) \<and> Snake_play ticks r0 s0 0 = Some (s', score', over, r')
        \<longrightarrow> 50 \<le> Snake_speedMs s' \<and> Snake_speedMs s' \<le> 150"
  proof
    assume a: "Snake_init now r s = Some (s0, r0)
        \<and> Snake_play ticks r0 s0 0 = Some (s', score', over, r')"
    then have "speed_ok s0" using init_speed [of now r s s0 r0] by (simp add: speed_ok_def)
    then have "speed_ok s'" using a play_speed_ok by blast
    then show "50 \<le> Snake_speedMs s' \<and> Snake_speedMs s' \<le> 150" by (simp add: speed_ok_def)
  qed
  show ?thesis by (intro conjI c1 c2 c3 c4 c5 c6 c7 c8 c9)
qed


text \<open>
  C6 at concrete inputs: the snake of a new game moves right; LEFT is ignored and UP is
  taken; an update at time 200 moves the snake onto the food, the generator \<open>zeros\<close>
  offers the free cell (0, 2) at once, and the threshold becomes 148; \<^verbatim>\<open>init\<close> returns
  with 150.
\<close>

lemma started_dir: "pt_y (Snake_dir Snake_started) = 0 \<and> pt_x (Snake_dir Snake_started) \<noteq> 0"
  by (simp add: Snake_started_def)

lemma pressed_buttons:
  "isJustPressed left_pressed LEFT" "\<not> isJustPressed left_pressed UP"
  "\<not> isJustPressed left_pressed DOWN" "isJustPressed up_pressed UP"
  by code_simp+

lemma started_due: "(200::u32) - Snake_lastMove Snake_started > word_of_int (Snake_speedMs Snake_started)"
  by (simp add: Snake_started_def)

lemma started_moved:
  "\<not> Snake_hitsWall (Snake_moved input_init 200 Snake_started)"
  "\<not> Snake_hitsSelf (Snake_moved input_init 200 Snake_started)"
  "Snake_body (Snake_moved input_init 200 Snake_started) ! 0
     = Snake_food (Snake_moved input_init 200 Snake_started)"
  "\<not> Snake_onBody (Snake_grow (Snake_moved input_init 200 Snake_started)) (Snake_draw zeros 0)"
  "Snake_draw zeros 0 = \<lparr>pt_x = 0, pt_y = 2\<rparr>"
  "Snake_speedMs Snake_started = 150"
  by code_simp+

lemma boot_free: "\<not> Snake_onBody (Snake_reset Snake_boot) (Snake_draw food_ahead 0)"
  by code_simp

theorem snake_turns_and_speed_witness:
  "pt_y (Snake_dir Snake_started) = 0 \<and> pt_x (Snake_dir Snake_started) \<noteq> 0
   \<and> isJustPressed left_pressed LEFT
   \<and> Snake_dir (Snake_turn left_pressed Snake_started) = Snake_dir Snake_started
   \<and> isJustPressed up_pressed UP
   \<and> Snake_dir (Snake_turn up_pressed Snake_started) = \<lparr>pt_x = 0, pt_y = - 1\<rparr>
   \<and> (200::u32) - Snake_lastMove Snake_started > word_of_int (Snake_speedMs Snake_started)
   \<and> Snake_body (Snake_moved input_init 200 Snake_started) ! 0
        = Snake_food (Snake_moved input_init 200 Snake_started)
   \<and> \<not> Snake_onBody (Snake_grow (Snake_moved input_init 200 Snake_started)) (Snake_draw zeros 0)
   \<and> (\<exists>s' r'. Snake_update input_init 200 zeros Snake_started 7 = Some (s', 8, False, r')
         \<and> Snake_speedMs s' = 148 \<and> Snake_food s' = \<lparr>pt_x = 0, pt_y = 2\<rparr>)
   \<and> \<not> Snake_onBody (Snake_reset Snake_boot) (Snake_draw food_ahead 0)
   \<and> (\<exists>s0 r0. Snake_init 0 food_ahead Snake_boot = Some (s0, r0) \<and> Snake_speedMs s0 = 150)"
proof -
  have l: "Snake_dir (Snake_turn left_pressed Snake_started) = Snake_dir Snake_started"
    using snake_turns_and_speed [where s = Snake_started and inp = left_pressed, THEN conjunct1]
      started_dir pressed_buttons by simp
  have u: "Snake_dir (Snake_turn up_pressed Snake_started) = \<lparr>pt_x = 0, pt_y = - 1\<rparr>"
    using snake_turns_and_speed [where s = Snake_started and inp = up_pressed, THEN conjunct1]
      started_dir pressed_buttons by simp
  have e: "Snake_update input_init 200 zeros Snake_started 7
      = Some ((Snake_grow (Snake_moved input_init 200 Snake_started))
                 \<lparr>Snake_food := Snake_draw zeros 0,
                  Snake_speedMs := (if Snake_speedMs Snake_started > 50
                                    then Snake_speedMs Snake_started - 2
                                    else Snake_speedMs Snake_started)\<rparr>,
              7 + 1, False, rng_skip (2 * Suc 0) zeros)"
    using snake_turns_and_speed [where s = Snake_started and inp = input_init and now = 200
        and r = zeros and score = 7 and k = 0,
        THEN conjunct2, THEN conjunct2, THEN conjunct2, THEN conjunct2, THEN conjunct2,
        THEN conjunct2, THEN conjunct1]
      started_due started_moved(1-4) by simp
  have i: "Snake_init 0 food_ahead Snake_boot
      = Some ((Snake_reset Snake_boot)\<lparr>Snake_food := Snake_draw food_ahead 0, Snake_lastMove := 0,
                 Snake_speedMs := 150\<rparr>, rng_skip (2 * Suc 0) food_ahead)"
    using snake_turns_and_speed [where s = Snake_boot and now = 0 and r = food_ahead and k = 0,
        THEN conjunct2, THEN conjunct2, THEN conjunct2, THEN conjunct2, THEN conjunct2,
        THEN conjunct2, THEN conjunct2, THEN conjunct1]
      boot_free by simp
  have e': "\<exists>s' r'. Snake_update input_init 200 zeros Snake_started 7 = Some (s', 8, False, r')
         \<and> Snake_speedMs s' = 148 \<and> Snake_food s' = \<lparr>pt_x = 0, pt_y = 2\<rparr>"
    by (simp add: e started_moved(5,6))
  have i': "\<exists>s0 r0. Snake_init 0 food_ahead Snake_boot = Some (s0, r0) \<and> Snake_speedMs s0 = 150"
    by (simp add: i)
  show ?thesis
    by (intro conjI started_dir [THEN conjunct1] started_dir [THEN conjunct2] pressed_buttons(1)
        pressed_buttons(4) l u started_due started_moved(3) started_moved(4) e' boot_free i')
qed


section \<open>Properties of Stack Builder\<close>






section \<open>Properties of Knife Thrower\<close>

lemma near_zero_hit: "Knife_hitAngle (Knife_rotate Knife_near_zero) = 6.25"
  by code_simp

lemma near_zero_update:
  "Knife_update input_init Knife_near_zero 1
     = (\<lparr>Knife_angle = 4.68, Knife_knifeY = 54, Knife_knifeFlying = False,
         Knife_knives = 0.05 # 6.25 # replicate 18 0, Knife_knifeCount = 2,
         Knife_knivesToWin = 6, Knife_level = 1\<rparr>, 2, False)"
  by code_simp

text \<open>
  Claim C5 says that a knife collides with a stuck knife whenever their angles are within
  0.2, also across the boundary between \<open>2\<pi>\<close> and 0. The source compares the plain
  difference. With one knife stuck at 0.05, a knife that arrives when the bottom of the
  target is at 6.25 is 0.08 away from it around the circle (0.2 is not reached even with
  the exact \<open>2\<pi>\<close>), and still the update reports no game over, sticks the second knife
  at 6.25 and raises the score.
\<close>

theorem knife_misses_wrapped_collision:
  "Knife_hitAngle (Knife_rotate Knife_near_zero) = 6.25
   \<and> Knife_knives Knife_near_zero ! 0 = 0.05
   \<and> circular_distance 6.28 0.05 6.25 < 0.2
   \<and> \<not> Knife_collision ((Knife_rotate Knife_near_zero)\<lparr>Knife_knifeY := 42\<rparr>)
   \<and> snd (Knife_update input_init Knife_near_zero 1) = (2, False)
   \<and> Knife_knives (fst (Knife_update input_init Knife_near_zero 1)) ! 1 = 6.25"
proof -
  have "circular_distance 6.28 0.05 6.25 < 0.2" by code_simp
  moreover have "Knife_knives Knife_near_zero ! 0 = 0.05" by code_simp
  moreover have "\<not> Knife_collision ((Knife_rotate Knife_near_zero)\<lparr>Knife_knifeY := 42\<rparr>)"
    by code_simp
  moreover have "Knife_knives (fst (Knife_update input_init Knife_near_zero 1)) ! 1 = 6.25"
    by (simp add: near_zero_update)
  ultimately show ?thesis by (simp add: near_zero_hit near_zero_update)
qed


section \<open>Properties of Pong\<close>

lemmas pong_defs = Pong_tick_def Pong_update_def Pong_walls_def Pong_hitAi_def Pong_hitPlayer_def
  Pong_aiHit_def Pong_playerHit_def Pong_ball_def Pong_ai_def Pong_clamp_def Pong_track_def
  Pong_player_def Pong_init_def Pong_boot_def Pong_low_def Pong_PADDLE_H_def Pong_PADDLE_W_def
  SCREEN_WIDTH_def SCREEN_HEIGHT_def isPressed_def input_init_def mkButton_def Let_def

text \<open>The position \<open>Pong_low\<close> is the one a new game is in after 18 updates.\<close>

lemma low_reached: "(Pong_tick ^^ 18) (Pong_init Pong_boot) = Pong_low"
  by (simp add: eval_nat_numeral pong_defs)

text \<open>
  Claim C7 says that the AI paddle moves in steps of exactly 1.5. In the position reached
  after 18 updates of a new game the centre of the AI paddle is above the ball, and the
  next update moves the paddle by 0.5, onto its stop at 52.
\<close>

theorem pong_ai_step_counterexample:
  "Pong_aiY Pong_low + 6 < Pong_ballY Pong_low
   \<and> Pong_aiY (fst (Pong_update input_init Pong_low 0)) - Pong_aiY Pong_low = 1 / 2"
  by (simp add: pong_defs)

lemma track_cases:
  "(y \<ge> a + 6 + 1.5 \<longrightarrow> Pong_track a y = a + 1.5)
   \<and> (y < a + 6 \<longrightarrow> Pong_track a y = a - 1.5)
   \<and> (a + 6 \<le> y \<and> y < a + 6 + 1.5 \<longrightarrow> Pong_track a y = a)"
  by (auto simp: Pong_track_def Pong_PADDLE_H_def Let_def)

lemma clamp_inside: "8 \<le> a \<Longrightarrow> a \<le> 52 \<Longrightarrow> Pong_clamp a = a"
  by (simp add: Pong_clamp_def Let_def SCREEN_HEIGHT_def Pong_PADDLE_H_def)

lemma clamp_range: "8 \<le> Pong_clamp a \<and> Pong_clamp a \<le> 52"
  by (simp add: Pong_clamp_def Let_def SCREEN_HEIGHT_def Pong_PADDLE_H_def)

lemma before_hits:
  "Pong_aiY (Pong_ball (Pong_ai (Pong_player inp s))) = Pong_clamp (Pong_track (Pong_aiY s) (Pong_ballY s))"
  "Pong_ballVx (Pong_ball (Pong_ai (Pong_player inp s))) = Pong_ballVx s"
  by (simp_all add: Pong_ball_def Pong_ai_def Pong_player_def Let_def)

lemma after_hits:
  fixes b :: PongState
  defines "h \<equiv> Pong_hitAi (Pong_hitPlayer b)"
  shows "Pong_aiY h = Pong_aiY b"
    and "Pong_playerHit b \<Longrightarrow> Pong_ballVx h = - Pong_ballVx b * 1.1 \<and> Pong_ballX h = 5"
    and "\<not> Pong_playerHit b \<Longrightarrow> Pong_aiHit b \<Longrightarrow> Pong_ballVx h = - Pong_ballVx b \<and> Pong_ballX h = 121"
    and "\<not> Pong_playerHit b \<Longrightarrow> \<not> Pong_aiHit b \<Longrightarrow> h = b"
  unfolding h_def
  by (auto simp: Pong_hitAi_def Pong_hitPlayer_def Pong_aiHit_def Pong_playerHit_def
      Pong_PADDLE_W_def Pong_PADDLE_H_def SCREEN_WIDTH_def)

lemma walls_result:
  "Pong_walls h score = (s', score', over) \<Longrightarrow>
   Pong_aiY s' = Pong_aiY h \<and> over = (Pong_ballX h < 0)
   \<and> score' = (if Pong_ballX h > 128 then score + 1 else score)
   \<and> (\<not> Pong_ballX h > 128 \<longrightarrow> Pong_ballVx s' = Pong_ballVx h)"
  by (auto simp: Pong_walls_def Let_def SCREEN_WIDTH_def split: if_splits)


text \<open>
  Claim C7, amended. With \<open>b\<close> the state after the paddles and the ball have moved: the
  AI paddle ends at the clamp to \<open>[8, 52]\<close> of the position the tracking gives, which is
  1.5 further down when the ball is at least 1.5 below the centre of the paddle, 1.5
  further up when the ball is above the centre, and the old position in between; where
  the clamp does nothing the step is therefore 1.5 or 0. A hit of the player's paddle
  turns \<open>ballVx\<close> into \<open>- ballVx * 1.1\<close>, a hit of the AI paddle into \<open>- ballVx\<close>. The
  score changes only by one, and exactly when the ball is beyond the right wall after the
  AI paddle has missed it; the update reports game over exactly when the ball is beyond
  the left wall after the player's paddle has missed it.
\<close>

theorem pong_update_rules:
  assumes "Pong_update inp s score = (s', score', over)"
    and "b = Pong_ball (Pong_ai (Pong_player inp s))"
  shows "Pong_aiY s' = Pong_clamp (Pong_track (Pong_aiY s) (Pong_ballY s))
       \<and> 8 \<le> Pong_aiY s' \<and> Pong_aiY s' \<le> 52
       \<and> (Pong_ballY s \<ge> Pong_aiY s + 6 + 1.5 \<longrightarrow>
            Pong_track (Pong_aiY s) (Pong_ballY s) = Pong_aiY s + 1.5)
       \<and> (Pong_ballY s < Pong_aiY s + 6 \<longrightarrow>
            Pong_track (Pong_aiY s) (Pong_ballY s) = Pong_aiY s - 1.5)
       \<and> (Pong_aiY s + 6 \<le> Pong_ballY s \<and> Pong_ballY s < Pong_aiY s + 6 + 1.5 \<longrightarrow>
            Pong_track (Pong_aiY s) (Pong_ballY s) = Pong_aiY s)
       \<and> (8 \<le> Pong_track (Pong_aiY s) (Pong_ballY s)
            \<and> Pong_track (Pong_aiY s) (Pong_ballY s) \<le> 52 \<longrightarrow>
            Pong_aiY s' = Pong_track (Pong_aiY s) (Pong_ballY s))
       \<and> (Pong_playerHit b \<longrightarrow> Pong_ballVx s' = - Pong_ballVx s * 1.1)
       \<and> (\<not> Pong_playerHit b \<and> Pong_aiHit b \<longrightarrow> Pong_ballVx s' = - Pong_ballVx s)
       \<and> (score' \<noteq> score \<longrightarrow> score' = score + 1 \<and> Pong_ballX b > 128 \<and> \<not> Pong_aiHit b)
       \<and> (Pong_ballX b > 128 \<and> \<not> Pong_aiHit b \<longrightarrow> score' = score + 1)
       \<and> (over \<longleftrightarrow> Pong_ballX b < 0 \<and> \<not> Pong_playerHit b)"
proof -
  define h where "h = Pong_hitAi (Pong_hitPlayer b)"
  have w: "Pong_walls h score = (s', score', over)"
    using assms by (simp add: Pong_update_def h_def)
  note wr = walls_result [OF w]
  note ah = after_hits [of b, folded h_def]
  have bx: "Pong_playerHit b \<Longrightarrow> Pong_ballX b \<le> 5" "Pong_aiHit b \<Longrightarrow> Pong_ballX b \<ge> 121"
    by (simp_all add: Pong_playerHit_def Pong_aiHit_def Pong_PADDLE_W_def SCREEN_WIDTH_def)
  have ai: "Pong_aiY s' = Pong_clamp (Pong_track (Pong_aiY s) (Pong_ballY s))"
    using wr ah(1) before_hits(1) [of inp s] assms(2) by simp
  have vx: "Pong_ballVx b = Pong_ballVx s" using before_hits(2) [of inp s] assms(2) by simp
  have c1: "Pong_playerHit b \<longrightarrow> Pong_ballVx s' = - Pong_ballVx s * 1.1"
    using wr ah(2) vx by auto
  have c2: "\<not> Pong_playerHit b \<and> Pong_aiHit b \<longrightarrow> Pong_ballVx s' = - Pong_ballVx s"
    using wr ah(3) vx by auto
  have hx: "Pong_ballX h = (if Pong_playerHit b then 5 else if Pong_aiHit b then 121
                            else Pong_ballX b)"
    using ah(2,3,4) by auto
  have c3: "score' \<noteq> score \<longrightarrow> score' = score + 1 \<and> Pong_ballX b > 128 \<and> \<not> Pong_aiHit b"
    using wr hx by (auto split: if_splits)
  have c4: "Pong_ballX b > 128 \<and> \<not> Pong_aiHit b \<longrightarrow> score' = score + 1"
    using wr hx bx(1) by (auto split: if_splits)
  have c5: "over \<longleftrightarrow> Pong_ballX b < 0 \<and> \<not> Pong_playerHit b"
    using wr hx bx(2) by (auto split: if_splits)
  have r1: "8 \<le> Pong_aiY s'" and r2: "Pong_aiY s' \<le> 52"
    using ai clamp_range [of "Pong_track (Pong_aiY s) (Pong_ballY s)"] by simp_all
  note tc = track_cases [of "Pong_aiY s" "Pong_ballY s"]
  have t1: "Pong_ballY s \<ge> Pong_aiY s + 6 + 1.5 \<longrightarrow>
            Pong_track (Pong_aiY s) (Pong_ballY s) = Pong_aiY s + 1.5"
    using tc by (rule conjunct1)
  have t2: "Pong_ballY s < Pong_aiY s + 6 \<longrightarrow>
            Pong_track (Pong_aiY s) (Pong_ballY s) = Pong_aiY s - 1.5"
    using tc [THEN conjunct2] by (rule conjunct1)
  have t3: "Pong_aiY s + 6 \<le> Pong_ballY s \<and> Pong_ballY s < Pong_aiY s + 6 + 1.5 \<longrightarrow>
            Pong_track (Pong_aiY s) (Pong_ballY s) = Pong_aiY s"
    using tc [THEN conjunct2] by (rule conjunct2)
  have ci: "8 \<le> Pong_track (Pong_aiY s) (Pong_ballY s)
            \<and> Pong_track (Pong_aiY s) (Pong_ballY s) \<le> 52 \<longrightarrow>
            Pong_aiY s' = Pong_track (Pong_aiY s) (Pong_ballY s)"
    using clamp_inside [of "Pong_track (Pong_aiY s) (Pong_ballY s)"] by (simp add: ai)
  show ?thesis
    by (intro conjI) (fact ai r1 r2 t1 t2 t3 ci c1 c2 c3 c4 c5)+
qed

text \<open>The amended C7 at the position above: the tracking asks for 53, the clamp gives 52.\<close>

lemma low_update:
  "Pong_update input_init Pong_low 0
     = (\<lparr>Pong_ballX = 102, Pong_ballY = 121 / 2, Pong_ballVx = 2, Pong_ballVy = 3 / 2,
         Pong_paddleY = 26, Pong_aiY = 52\<rparr>, 0, False)"
  by (simp add: pong_defs)

theorem pong_update_rules_witness:
  "Pong_update input_init Pong_low 0
     = (\<lparr>Pong_ballX = 102, Pong_ballY = 121 / 2, Pong_ballVx = 2, Pong_ballVy = 3 / 2,
         Pong_paddleY = 26, Pong_aiY = 52\<rparr>, 0, False)
   \<and> Pong_clamp (Pong_track (Pong_aiY Pong_low) (Pong_ballY Pong_low)) = 52"
  using pong_update_rules [OF low_update refl, THEN conjunct1] low_update
  by simp


section \<open>The score under the updates of the modules\<close>

lemma bumped_refl: "bumped k a a"
  by (simp add: bumped_def)

lemma bumped_one: "bumped (Suc k) a (a + 1)"
  by (simp add: bumped_def)

lemma bumped_mono: "bumped k a b \<Longrightarrow> k \<le> m \<Longrightarrow> bumped m a b"
  by (simp add: bumped_def)

lemma bumped_trans: "bumped k a b \<Longrightarrow> bumped m b c \<Longrightarrow> bumped (k + m) a c"
proof -
  assume 1: "bumped k a b" and 2: "bumped m b c"
  have "c - a = (b - a) + (c - b)" by simp
  then have "unat (c - a) \<le> unat (b - a) + unat (c - b)"
    by (metis unat_add_lem unat_word_ariths(1) mod_less_eq_dividend)
  then show ?thesis using 1 2 by (simp add: bumped_def)
qed

lemma bumped_chain: "bumped k a b \<Longrightarrow> bumped m b c \<Longrightarrow> k + m \<le> n \<Longrightarrow> bumped n a c"
  using bumped_trans bumped_mono by blast

lemma bumped_add: "bumped k a b \<Longrightarrow> n \<le> m - k \<Longrightarrow> k \<le> m \<Longrightarrow> unat d \<le> n \<Longrightarrow> bumped m a (b + d)"
proof -
  assume 1: "bumped k a b" and 2: "n \<le> m - k" "k \<le> m" "unat d \<le> n"
  have "bumped n b (b + d)" using 2 by (simp add: bumped_def)
  then have "bumped (k + n) a (b + d)" using 1 bumped_trans by blast
  then show ?thesis using 2 by (simp add: bumped_def)
qed

lemma bumped_no_wrap:
  assumes "bumped k a b" and "unat a + k < 2 ^ 32"
  shows "unat a \<le> unat b"
proof -
  have "unat a + unat (b - a) < 2 ^ 32" using assms by (simp add: bumped_def)
  then have "unat (a + (b - a)) = unat a + unat (b - a)"
    using unat_add_lem [of a "b - a"] by simp
  then show ?thesis by simp
qed


subsection \<open>Modules without loops over the score\<close>

lemma stack_bumped: "Stack_update inp s score = (s', score', over) \<Longrightarrow> bumped 1 score score'"
  by (auto simp: Stack_update_def Let_def bumped_def split: if_splits)

lemma pong_bumped: "Pong_update inp s score = (s', score', over) \<Longrightarrow> bumped 1 score score'"
  by (auto simp: Pong_update_def Pong_walls_def Let_def bumped_def split: if_splits)

lemma knife_stick_bumped: "Knife_stick s score = (s', score') \<Longrightarrow> bumped 11 score score'"
  by (auto simp: Knife_stick_def Let_def bumped_def split: if_splits)

lemma knife_bumped: "Knife_update inp s score = (s', score', over) \<Longrightarrow> bumped 11 score score'"
  by (auto simp: Knife_update_def Let_def bumped_refl split: if_splits prod.splits
      dest: knife_stick_bumped)

lemma brick_bumped:
  "Brick_update inp now r s score = (s', score', over, r') \<Longrightarrow> bumped 1 score score'"
  by (auto simp: Brick_update_def Brick_hitBrick_def Let_def bumped_def split: if_splits prod.splits)

lemma heli_bumped:
  "Heli_update inp r s score = (s', score', over, r') \<Longrightarrow> bumped 1 score score'"
  by (auto simp: Heli_update_def Let_def bumped_def split: if_splits prod.splits)

lemma tunnel_step_score:
  "fst (snd (Tunnel_step now r s score)) = score
   \<or> fst (snd (Tunnel_step now r s score)) = score + 1"
  by (simp add: Tunnel_step_def Let_def split: prod.splits)

lemma tunnel_bumped:
  assumes "Tunnel_update inp now r s score = (s', score', over, r')"
  shows "bumped 1 score score'"
proof -
  let ?x1 = "if isPressed inp LEFT then Tunnel_playerX s - 2 else Tunnel_playerX s"
  let ?t = "s\<lparr>Tunnel_playerX := (if isPressed inp RIGHT then ?x1 + 2 else ?x1)\<rparr>"
  obtain s1 sc1 r1 where st: "Tunnel_step now r ?t score = (s1, sc1, r1)"
    by (metis prod_cases3)
  have "score' = sc1" using assms st by (simp add: Tunnel_update_def Let_def)
  moreover from tunnel_step_score [of now r ?t score] have "sc1 = score \<or> sc1 = score + 1"
    unfolding st by simp
  ultimately show ?thesis by (auto simp: bumped_def)
qed

subsection \<open>Modules with a loop that scores\<close>

lemma flappy_pipe_bumped:
  "Flappy_pipe y (p, score, over, r) = (p', score', over', r') \<Longrightarrow> bumped 1 score score'"
  by (auto simp: Flappy_pipe_def Let_def bumped_def split: if_splits prod.splits)

lemma flappy_pipeAt_bumped:
  "Flappy_pipeAt y i (ps, score, over, r) = (ps', score', over', r') \<Longrightarrow> bumped 1 score score'"
  by (auto simp: Flappy_pipeAt_def split: prod.splits dest: flappy_pipe_bumped)

lemma flappy_bumped:
  assumes "Flappy_update inp r s score = (s', score', over, r')"
  shows "bumped 2 score score'"
proof -
  let ?y = "Flappy_birdY s + (Flappy_birdVy s + 0.25)"
  let ?o = "?y < 0 \<or> ?y > of_int (SCREEN_HEIGHT - 8)"
  obtain ps1 sc1 o1 r1 where a: "Flappy_pipeAt ?y 0 (Flappy_pipes s, score, ?o, r) = (ps1, sc1, o1, r1)"
    by (metis prod_cases4)
  obtain ps2 sc2 o2 r2 where b: "Flappy_pipeAt ?y 1 (ps1, sc1, o1, r1) = (ps2, sc2, o2, r2)"
    by (metis prod_cases4)
  have "[0..<2] = [0, 1]" by (simp add: upt_rec)
  then have "score' = sc2" using assms a b by (simp add: Flappy_update_def Let_def)
  moreover have "bumped 2 score sc2"
    using flappy_pipeAt_bumped [OF a] flappy_pipeAt_bumped [OF b] by (rule bumped_chain) simp
  ultimately show ?thesis by simp
qed

lemma dodge_obstacle_bumped:
  "Dodge_obstacle px py (ob, score, over) = (ob', score', over') \<Longrightarrow> bumped 1 score score'"
  by (auto simp: Dodge_obstacle_def Let_def bumped_def split: if_splits)

lemma dodge_fold_bumped:
  "fold (Dodge_obstacleAt px py) [0..<n] (obs, score, over) = (obs', score', over') \<Longrightarrow>
   bumped n score score'"
proof (induction n arbitrary: obs' score' over')
  case 0
  then show ?case by (simp add: bumped_refl)
next
  case (Suc n)
  obtain obs1 sc1 o1 where a: "fold (Dodge_obstacleAt px py) [0..<n] (obs, score, over) = (obs1, sc1, o1)"
    by (metis prod_cases3)
  obtain ob sc2 o2 where b: "Dodge_obstacle px py (obs1 ! n, sc1, o1) = (ob, sc2, o2)"
    by (metis prod_cases3)
  have "fold (Dodge_obstacleAt px py) [0..<Suc n] (obs, score, over)
        = Dodge_obstacleAt px py n (obs1, sc1, o1)"
    by (simp add: a)
  also have "\<dots> = (obs1[n := ob], sc2, o2)" using b by (simp add: Dodge_obstacleAt_def)
  finally have "score' = sc2" using Suc.prems by simp
  moreover have "bumped (Suc n) score sc2"
    using Suc.IH [OF a] dodge_obstacle_bumped [OF b] by (rule bumped_chain) simp
  ultimately show ?case by simp
qed

lemma dodge_bumped:
  "Dodge_update inp now r s score = (s', score', over, r') \<Longrightarrow> bumped 10 score score'"
  by (auto simp: Dodge_update_def Let_def split: prod.splits dest: dodge_fold_bumped)

lemma mario_entity_bumped:
  "Mario_entity sp py (e, score, over) = (e', score', over') \<Longrightarrow> bumped 10 score score'"
  by (auto simp: Mario_entity_def Let_def bumped_def split: if_splits)

lemma mario_fold_bumped:
  "fold (Mario_entityAt sp py) [0..<n] (es, score, over) = (es', score', over') \<Longrightarrow>
   bumped (n * 10) score score'"
proof (induction n arbitrary: es' score' over')
  case 0
  then show ?case by (simp add: bumped_refl)
next
  case (Suc n)
  obtain es1 sc1 o1 where a: "fold (Mario_entityAt sp py) [0..<n] (es, score, over) = (es1, sc1, o1)"
    by (metis prod_cases3)
  obtain e sc2 o2 where b: "Mario_entity sp py (es1 ! n, sc1, o1) = (e, sc2, o2)"
    by (metis prod_cases3)
  have "fold (Mario_entityAt sp py) [0..<Suc n] (es, score, over)
        = Mario_entityAt sp py n (es1, sc1, o1)"
    by (simp add: a)
  also have "\<dots> = (es1[n := e], sc2, o2)" using b by (simp add: Mario_entityAt_def)
  finally have "score' = sc2" using Suc.prems by simp
  moreover have "bumped (Suc n * 10) score sc2"
    using Suc.IH [OF a] mario_entity_bumped [OF b] by (rule bumped_chain) simp
  ultimately show ?case by simp
qed

lemma mario_scroll_bumped:
  "Mario_scroll r s score = (s', score', r') \<Longrightarrow> bumped 1 score score'"
  by (auto simp: Mario_scroll_def Let_def bumped_def split: if_splits prod.splits)

lemma mario_bumped:
  assumes "Mario_update inp r s score = (s', score', over, r')"
  shows "bumped 51 score score'"
proof -
  obtain s1 o1 where a: "Mario_player inp s = (s1, o1)" by (metis prod.exhaust)
  obtain s2 sc1 r1 where b: "Mario_scroll r s1 score = (s2, sc1, r1)" by (metis prod_cases3)
  obtain es sc2 o2 where c: "fold (Mario_entityAt (Mario_speed s2) (Mario_playerY s2)) [0..<5]
               (Mario_entities s2, sc1, o1) = (es, sc2, o2)" by (metis prod_cases3)
  have "score' = sc2" using assms a b c by (simp add: Mario_update_def)
  moreover have "bumped 51 score sc2"
    using mario_scroll_bumped [OF b] mario_fold_bumped [OF c] by (rule bumped_chain) simp
  ultimately show ?thesis by simp
qed

lemma snake_score:
  assumes "Snake_update inp now r s score = Some (s', score', over, r')"
  shows "score' = score \<or> score' = score + 1"
proof (cases "now - Snake_lastMove (Snake_turn inp s) > word_of_int (Snake_speedMs (Snake_turn inp s))")
  case False
  then show ?thesis using assms by (simp add: Snake_update_def Let_def)
next
  case True
  let ?m = "Snake_moved inp now s"
  show ?thesis
  proof (cases "\<not> Snake_hitsWall ?m \<and> \<not> Snake_hitsSelf ?m \<and> Snake_body ?m ! 0 = Snake_food ?m")
    case False
    then show ?thesis using assms True
      by (auto simp: Snake_update_def Let_def split: if_splits)
  next
    case eat: True
    then have "Snake_eat r ?m score = Some (s', score', over, r')"
      using assms True by (simp add: Snake_update_def Let_def)
    then show ?thesis
      by (auto simp: Snake_eat_def split: option.splits)
  qed
qed

lemma snake_bumped:
  assumes "Snake_update inp now r s score = Some (s', score', over, r')"
  shows "bumped 1 score score'"
  using snake_score [OF assms] by (auto simp: bumped_def)

lemma clear_step_bumped: "clear_step y (g, score, sp) = (g', score', sp') \<Longrightarrow> bumped 10 score score'"
  by (auto simp: clear_step_def bumped_def split: if_splits)

lemma clear_fold_bumped:
  "fold clear_step [0..<n] (g, score, sp) = (g', score', sp') \<Longrightarrow> bumped (n * 10) score score'"
proof (induction n arbitrary: g' score' sp')
  case 0
  then show ?case by (simp add: bumped_refl)
next
  case (Suc n)
  obtain g1 sc1 sp1 where a: "fold clear_step [0..<n] (g, score, sp) = (g1, sc1, sp1)"
    by (metis prod_cases3)
  have b: "clear_step n (g1, sc1, sp1) = (g', score', sp')" using Suc.prems a by simp
  show ?case
    using Suc.IH [OF a] clear_step_bumped [OF b] by (rule bumped_chain) simp
qed

lemma tetris_lock_bumped:
  "Tetris_lock r s score = Inr (s', score', over, r') \<Longrightarrow> bumped 200 score score'"
  using clear_fold_bumped [of 20]
  by (auto simp: Tetris_lock_def fbind_def Tetris_clearLines_def bumped_refl
      split: if_splits sum.splits prod.splits)

lemma tetris_bumped:
  "Tetris_update inp now r s score = Inr (s', score', over, r') \<Longrightarrow> bumped 200 score score'"
  by (auto simp: Tetris_update_def Tetris_drop_def fbind_def Let_def bumped_refl
      split: if_splits sum.splits dest: tetris_lock_bumped)

subsection \<open>Doodle Jump: the score is assigned\<close>

lemma ftrunc_mono: "0 \<le> a \<Longrightarrow> a \<le> b \<Longrightarrow> ftrunc a \<le> ftrunc b"
  by (simp add: ftrunc_def floor_mono)

lemma ftrunc_nonneg: "0 \<le> a \<Longrightarrow> 0 \<le> ftrunc a"
  by (simp add: ftrunc_def)

lemma unat_float_to_u32:
  assumes "0 \<le> q" and "ftrunc q < 2 ^ 32"
  shows "int (unat (float_to_u32 q)) = ftrunc q"
proof -
  have "0 \<le> ftrunc q" using assms(1) by (rule ftrunc_nonneg)
  then have "uint (word_of_int (ftrunc q) :: u32) = ftrunc q"
    using assms(2) by (simp add: uint_word_of_int)
  then show ?thesis by (simp add: float_to_u32_def)
qed

lemma doodle_camera_score:
  assumes "Doodle_camera r s score = (s', score', r')"
  shows "(Doodle_maxScoreY s' = Doodle_maxScoreY s \<and> score' = score)
       \<or> (Doodle_maxScoreY s < Doodle_maxScoreY s'
          \<and> score' = float_to_u32 (Doodle_maxScoreY s' / 10))"
  using assms
  by (auto simp: Doodle_camera_def Let_def simp del: Doodle_shift.simps
      split: if_splits prod.splits)

lemma doodle_update_score:
  assumes "Doodle_update inp r s score = (s', score', over, r')"
  shows "(Doodle_maxScoreY s' = Doodle_maxScoreY s \<and> score' = score)
       \<or> (Doodle_maxScoreY s < Doodle_maxScoreY s'
          \<and> score' = float_to_u32 (Doodle_maxScoreY s' / 10))"
proof -
  obtain s1 sc1 r1 where c: "Doodle_camera r (Doodle_player inp s) score = (s1, sc1, r1)"
    by (metis prod_cases3)
  have p: "Doodle_maxScoreY (Doodle_player inp s) = Doodle_maxScoreY s"
    by (simp add: Doodle_player_def Let_def)
  have "s' = Doodle_bounce s1" "score' = sc1"
    using assms c by (simp_all add: Doodle_update_def Let_def)
  moreover have "Doodle_maxScoreY (Doodle_bounce s1) = Doodle_maxScoreY s1"
    by (simp add: Doodle_bounce_def)
  ultimately show ?thesis using doodle_camera_score [OF c] p by simp
qed

lemma doodle_mono:
  assumes "Doodle_update inp r s score = (s', score', over, r')"
    and "Doodle_inv s score"
    and "ftrunc (Doodle_maxScoreY s' / 10) < 2 ^ 32"
  shows "unat score \<le> unat score' \<and> Doodle_inv s' score'"
proof -
  from doodle_update_score [OF assms(1)] show ?thesis
  proof
    assume "Doodle_maxScoreY s' = Doodle_maxScoreY s \<and> score' = score"
    then show ?thesis using assms(2) by (simp add: Doodle_inv_def)
  next
    assume a: "Doodle_maxScoreY s < Doodle_maxScoreY s'
          \<and> score' = float_to_u32 (Doodle_maxScoreY s' / 10)"
    have m0: "0 \<le> Doodle_maxScoreY s" using assms(2) by (simp add: Doodle_inv_def)
    then have m1: "0 \<le> Doodle_maxScoreY s' / 10" using a by simp
    have "int (unat score') = ftrunc (Doodle_maxScoreY s' / 10)"
      using a unat_float_to_u32 [OF m1 assms(3)] by simp
    moreover have "ftrunc (Doodle_maxScoreY s / 10) \<le> ftrunc (Doodle_maxScoreY s' / 10)"
      using m0 a by (intro ftrunc_mono) simp_all
    moreover have "int (unat score) \<le> ftrunc (Doodle_maxScoreY s / 10)"
      using assms(2) by (simp add: Doodle_inv_def)
    ultimately have le: "int (unat score) \<le> int (unat score')"
      and fit: "int (unat score') \<le> ftrunc (Doodle_maxScoreY s' / 10)"
      by simp_all
    have "unat score \<le> unat score'" using le by (simp only: of_nat_le_iff)
    moreover have "0 \<le> Doodle_maxScoreY s'" using m0 a by simp
    ultimately show ?thesis using fit unfolding Doodle_inv_def by blast
  qed
qed

lemma doodle_init_inv: "Doodle_inv (fst (Doodle_init r s)) 0"
  by (simp add: Doodle_init_def Doodle_inv_def ftrunc_def del: Doodle_place.simps
      split: prod.splits)

subsection \<open>The score after one update, module by module\<close>

lemma snake_keeps_score:
  assumes "\<not> (now - Snake_lastMove s > word_of_int (Snake_speedMs s)
              \<and> \<not> Snake_hitsWall (Snake_moved inp now s)
              \<and> \<not> Snake_hitsSelf (Snake_moved inp now s)
              \<and> Snake_body (Snake_moved inp now s) ! 0 = Snake_food (Snake_moved inp now s))"
  shows "\<exists>s' ov. Snake_update inp now r s score = Some (s', score, ov, r)"
  using assms by (auto simp: Snake_update_def Let_def turn_fields)

lemma snake_scores_one:
  assumes "now - Snake_lastMove s > word_of_int (Snake_speedMs s)"
    and "\<not> Snake_hitsWall (Snake_moved inp now s)"
    and "\<not> Snake_hitsSelf (Snake_moved inp now s)"
    and "Snake_body (Snake_moved inp now s) ! 0 = Snake_food (Snake_moved inp now s)"
    and "\<forall>j<k. Snake_onBody (Snake_grow (Snake_moved inp now s)) (Snake_draw r j)"
    and "\<not> Snake_onBody (Snake_grow (Snake_moved inp now s)) (Snake_draw r k)"
  shows "\<exists>s'. Snake_update inp now r s score = Some (s', score + 1, False, rng_skip (2 * Suc k) r)"
proof -
  have "Snake_update inp now r s score = Snake_eat r (Snake_moved inp now s) score"
    using assms(1-4) by (simp add: Snake_update_def Let_def turn_fields)
  then show ?thesis using eat_at [OF assms(5,6), of score] by simp
qed

lemma tetris_total_bumped:
  assumes "Tetris_inv s"
  shows "\<exists>s' sc' ov r'. Tetris_update inp now r s score = Inr (s', sc', ov, r')
           \<and> bumped 200 score sc'"
proof -
  obtain s' sc' ov r' where u: "Tetris_update inp now r s score = Inr (s', sc', ov, r')"
    using inv_update [OF assms] by blast
  from tetris_bumped [OF u] u show ?thesis by blast
qed

text \<open>
  Claim C9 says that no update of any module, in any state, lowers the score. Two states
  in which one does. Doodle Jump assigns the score from \<^verbatim>\<open>maxScoreY\<close>: with the player at
  height 31, \<^verbatim>\<open>maxScoreY\<close> at 0 and a score of 5, the update moves the camera by 0.8 and
  sets the score to \<open>\<lfloor>0.08\<rfloor> = 0\<close>. And the score is a 32-bit counter: at \<open>2^32 - 1\<close> the
  first drop of a game of Stack Builder adds one and leaves it at 0.
\<close>

theorem update_lowers_score_counterexample:
  "fst (snd (Doodle_update input_init zeros Doodle_ahead 5)) = 0
   \<and> fst (snd (Stack_update select_pressed (Stack_init Stack_boot) 4294967295)) = 0"
proof -
  have "fst (snd (Doodle_update input_init zeros Doodle_ahead 5)) = 0" by code_simp
  moreover have "fst (snd (Stack_update select_pressed (Stack_init Stack_boot) 4294967295)) = 0"
    by code_simp
  ultimately show ?thesis by simp
qed

text \<open>
  Claim C9, amended. One call to \<^verbatim>\<open>update\<close> does not lower the score as long as the
  32-bit counter has room for what the call can add, and, for Doodle Jump, as long as the
  score is not ahead of the height:
  \<^item> Flappy adds at most 2 (one per pipe); Pong, Brick, Heli, Tunnel and Stack at most 1;
    Knife at most 11 (a hit and the bonus of a level); Dodge at most 10 (one per obstacle);
    Mario at most 51 (the scroll and ten per entity); Tetris at most 200 (ten per row).
    With that much room below \<open>2^32\<close> the score after the call is at least the score
    before. These updates always return; the one of Tetris returns from every state that
    satisfies \<open>Tetris_inv\<close>, and whenever it returns the same bound holds.
  \<^item> Snake: an update that does not bring the head onto the food returns with the score it
    was given; one that brings the head onto the food, when the \<open>k\<close>-th cell drawn for the
    new food is the first one off the body, returns with the score plus one; and whenever
    the update returns, with room for one more, the score has not gone down.
  \<^item> Doodle Jump: \<^verbatim>\<open>init\<close> with the score reset to 0 establishes \<open>Doodle_inv\<close> (the height
    \<^verbatim>\<open>maxScoreY\<close> is not negative and the score is at most a tenth of it, rounded down);
    from a state with \<open>Doodle_inv\<close>, if the tenth of the new height still fits in 32 bits,
    the update does not lower the score and \<open>Doodle_inv\<close> holds again.
\<close>

theorem update_keeps_score_with_room:
  "(unat score + 2 < 2 ^ 32 \<longrightarrow>
      unat score \<le> unat (fst (snd (Flappy_update inp r fl score))))
   \<and> (\<not> (now - Snake_lastMove sn > word_of_int (Snake_speedMs sn)
           \<and> \<not> Snake_hitsWall (Snake_moved inp now sn)
           \<and> \<not> Snake_hitsSelf (Snake_moved inp now sn)
           \<and> Snake_body (Snake_moved inp now sn) ! 0 = Snake_food (Snake_moved inp now sn)) \<longrightarrow>
        (\<exists>s' ov. Snake_update inp now r sn score = Some (s', score, ov, r)))
   \<and> (now - Snake_lastMove sn > word_of_int (Snake_speedMs sn)
        \<and> \<not> Snake_hitsWall (Snake_moved inp now sn)
        \<and> \<not> Snake_hitsSelf (Snake_moved inp now sn)
        \<and> Snake_body (Snake_moved inp now sn) ! 0 = Snake_food (Snake_moved inp now sn)
        \<and> (\<forall>j<k. Snake_onBody (Snake_grow (Snake_moved inp now sn)) (Snake_draw r j))
        \<and> \<not> Snake_onBody (Snake_grow (Snake_moved inp now sn)) (Snake_draw r k) \<longrightarrow>
        (\<exists>s'. Snake_update inp now r sn score
                = Some (s', score + 1, False, rng_skip (2 * Suc k) r)))
   \<and> (Snake_update inp now r sn score = Some (sn', sc', ov', r') \<and> unat score + 1 < 2 ^ 32 \<longrightarrow>
        unat score \<le> unat sc')
   \<and> (unat score + 1 < 2 ^ 32 \<longrightarrow>
        unat score \<le> unat (fst (snd (Pong_update inp po score))))
   \<and> (unat score + 1 < 2 ^ 32 \<longrightarrow>
        unat score \<le> unat (fst (snd (Brick_update inp now r br score))))
   \<and> (unat score + 11 < 2 ^ 32 \<longrightarrow>
        unat score \<le> unat (fst (snd (Knife_update inp kn score))))
   \<and> (unat score + 10 < 2 ^ 32 \<longrightarrow>
        unat score \<le> unat (fst (snd (Dodge_update inp now r dg score))))
   \<and> (unat score + 51 < 2 ^ 32 \<longrightarrow>
        unat score \<le> unat (fst (snd (Mario_update inp r ma score))))
   \<and> (unat score + 1 < 2 ^ 32 \<longrightarrow>
        unat score \<le> unat (fst (snd (Heli_update inp r he score))))
   \<and> (unat score + 1 < 2 ^ 32 \<longrightarrow>
        unat score \<le> unat (fst (snd (Tunnel_update inp now r tu score))))
   \<and> Doodle_inv (fst (Doodle_init r d0)) 0
   \<and> (Doodle_inv dd score
        \<and> ftrunc (Doodle_maxScoreY (fst (Doodle_update inp r dd score)) / 10) < 2 ^ 32 \<longrightarrow>
        unat score \<le> unat (fst (snd (Doodle_update inp r dd score)))
        \<and> Doodle_inv (fst (Doodle_update inp r dd score))
             (fst (snd (Doodle_update inp r dd score))))
   \<and> (unat score + 1 < 2 ^ 32 \<longrightarrow>
        unat score \<le> unat (fst (snd (Stack_update inp st score))))
   \<and> (Tetris_inv te \<and> unat score + 200 < 2 ^ 32 \<longrightarrow>
        (\<exists>s' sc ov r1. Tetris_update inp now r te score = Inr (s', sc, ov, r1)
                        \<and> unat score \<le> unat sc))
   \<and> (Tetris_update inp now r te score = Inr (te', tsc, tov, tr) \<and> unat score + 200 < 2 ^ 32 \<longrightarrow>
        unat score \<le> unat tsc)"
proof -
  have flappy: "unat score + 2 < 2 ^ 32 \<longrightarrow>
      unat score \<le> unat (fst (snd (Flappy_update inp r fl score)))"
  proof -
    obtain s' sc ov r1 where u: "Flappy_update inp r fl score = (s', sc, ov, r1)"
      by (metis prod_cases4)
    show ?thesis using bumped_no_wrap [OF flappy_bumped [OF u]] by (simp add: u)
  qed
  have snake0: "\<not> (now - Snake_lastMove sn > word_of_int (Snake_speedMs sn)
           \<and> \<not> Snake_hitsWall (Snake_moved inp now sn)
           \<and> \<not> Snake_hitsSelf (Snake_moved inp now sn)
           \<and> Snake_body (Snake_moved inp now sn) ! 0 = Snake_food (Snake_moved inp now sn)) \<longrightarrow>
        (\<exists>s' ov. Snake_update inp now r sn score = Some (s', score, ov, r))"
    using snake_keeps_score by blast
  have snake1: "now - Snake_lastMove sn > word_of_int (Snake_speedMs sn)
        \<and> \<not> Snake_hitsWall (Snake_moved inp now sn)
        \<and> \<not> Snake_hitsSelf (Snake_moved inp now sn)
        \<and> Snake_body (Snake_moved inp now sn) ! 0 = Snake_food (Snake_moved inp now sn)
        \<and> (\<forall>j<k. Snake_onBody (Snake_grow (Snake_moved inp now sn)) (Snake_draw r j))
        \<and> \<not> Snake_onBody (Snake_grow (Snake_moved inp now sn)) (Snake_draw r k) \<longrightarrow>
        (\<exists>s'. Snake_update inp now r sn score
                = Some (s', score + 1, False, rng_skip (2 * Suc k) r))"
    using snake_scores_one [of sn now inp k r score] by blast
  have snake2: "Snake_update inp now r sn score = Some (sn', sc', ov', r') \<and> unat score + 1 < 2 ^ 32 \<longrightarrow>
        unat score \<le> unat sc'"
    using snake_bumped [of inp now r sn score sn' sc' ov' r'] bumped_no_wrap [of 1 score sc']
    by blast
  have pong: "unat score + 1 < 2 ^ 32 \<longrightarrow>
        unat score \<le> unat (fst (snd (Pong_update inp po score)))"
  proof -
    obtain s' sc ov where u: "Pong_update inp po score = (s', sc, ov)"
      by (metis prod_cases3)
    show ?thesis using bumped_no_wrap [OF pong_bumped [OF u]] by (simp add: u)
  qed
  have brick: "unat score + 1 < 2 ^ 32 \<longrightarrow>
        unat score \<le> unat (fst (snd (Brick_update inp now r br score)))"
  proof -
    obtain s' sc ov r1 where u: "Brick_update inp now r br score = (s', sc, ov, r1)"
      by (metis prod_cases4)
    show ?thesis using bumped_no_wrap [OF brick_bumped [OF u]] by (simp add: u)
  qed
  have knife: "unat score + 11 < 2 ^ 32 \<longrightarrow>
        unat score \<le> unat (fst (snd (Knife_update inp kn score)))"
  proof -
    obtain s' sc ov where u: "Knife_update inp kn score = (s', sc, ov)"
      by (metis prod_cases3)
    show ?thesis using bumped_no_wrap [OF knife_bumped [OF u]] by (simp add: u)
  qed
  have dodge: "unat score + 10 < 2 ^ 32 \<longrightarrow>
        unat score \<le> unat (fst (snd (Dodge_update inp now r dg score)))"
  proof -
    obtain s' sc ov r1 where u: "Dodge_update inp now r dg score = (s', sc, ov, r1)"
      by (metis prod_cases4)
    show ?thesis using bumped_no_wrap [OF dodge_bumped [OF u]] by (simp add: u)
  qed
  have mario: "unat score + 51 < 2 ^ 32 \<longrightarrow>
        unat score \<le> unat (fst (snd (Mario_update inp r ma score)))"
  proof -
    obtain s' sc ov r1 where u: "Mario_update inp r ma score = (s', sc, ov, r1)"
      by (metis prod_cases4)
    show ?thesis using bumped_no_wrap [OF mario_bumped [OF u]] by (simp add: u)
  qed
  have heli: "unat score + 1 < 2 ^ 32 \<longrightarrow>
        unat score \<le> unat (fst (snd (Heli_update inp r he score)))"
  proof -
    obtain s' sc ov r1 where u: "Heli_update inp r he score = (s', sc, ov, r1)"
      by (metis prod_cases4)
    show ?thesis using bumped_no_wrap [OF heli_bumped [OF u]] by (simp add: u)
  qed
  have tunnel: "unat score + 1 < 2 ^ 32 \<longrightarrow>
        unat score \<le> unat (fst (snd (Tunnel_update inp now r tu score)))"
  proof -
    obtain s' sc ov r1 where u: "Tunnel_update inp now r tu score = (s', sc, ov, r1)"
      by (metis prod_cases4)
    show ?thesis using bumped_no_wrap [OF tunnel_bumped [OF u]] by (simp add: u)
  qed
  have doodle0: "Doodle_inv (fst (Doodle_init r d0)) 0"
    by (rule doodle_init_inv)
  have doodle: "Doodle_inv dd score
        \<and> ftrunc (Doodle_maxScoreY (fst (Doodle_update inp r dd score)) / 10) < 2 ^ 32 \<longrightarrow>
        unat score \<le> unat (fst (snd (Doodle_update inp r dd score)))
        \<and> Doodle_inv (fst (Doodle_update inp r dd score))
             (fst (snd (Doodle_update inp r dd score)))"
  proof -
    obtain s' sc ov r1 where u: "Doodle_update inp r dd score = (s', sc, ov, r1)"
      by (metis prod_cases4)
    show ?thesis using doodle_mono [OF u] by (simp add: u)
  qed
  have stack: "unat score + 1 < 2 ^ 32 \<longrightarrow>
        unat score \<le> unat (fst (snd (Stack_update inp st score)))"
  proof -
    obtain s' sc ov where u: "Stack_update inp st score = (s', sc, ov)"
      by (metis prod_cases3)
    show ?thesis using bumped_no_wrap [OF stack_bumped [OF u]] by (simp add: u)
  qed
  have tetris0: "Tetris_inv te \<and> unat score + 200 < 2 ^ 32 \<longrightarrow>
        (\<exists>s' sc ov r1. Tetris_update inp now r te score = Inr (s', sc, ov, r1)
                        \<and> unat score \<le> unat sc)"
    using tetris_total_bumped [of te inp now r score] bumped_no_wrap [of 200 score] by blast
  have tetris: "Tetris_update inp now r te score = Inr (te', tsc, tov, tr) \<and> unat score + 200 < 2 ^ 32 \<longrightarrow>
        unat score \<le> unat tsc"
    using tetris_bumped [of inp now r te score te' tsc tov tr] bumped_no_wrap [of 200 score tsc]
    by blast
  show ?thesis
    by (intro conjI)
      (fact flappy snake0 snake1 snake2 pong brick knife dodge mario heli tunnel doodle0 doodle
         stack tetris0 tetris)+
qed

text \<open>
  The amended C9 at work: the snake of \<open>Snake_started\<close> eats and scores one; a player of
  Doodle Jump who rises from height 8 to 11.8 takes the score from 0 to 1; the first drop
  of Stack Builder takes a score of 7 to 8; the I piece of \<open>Tetris_almost\<close> completes a
  row and takes a score of 40 to 50.
\<close>

lemma rising_facts:
  "Doodle_inv Doodle_rising 0"
  "ftrunc (Doodle_maxScoreY (fst (Doodle_update input_init zeros Doodle_rising 0)) / 10) < 2 ^ 32"
  "fst (snd (Doodle_update input_init zeros Doodle_rising 0)) = 1"
  by code_simp+

lemma stack_seven: "fst (snd (Stack_update select_pressed (Stack_init Stack_boot) 7)) = 8"
  by code_simp

theorem update_keeps_score_with_room_witness:
  "(200::u32) - Snake_lastMove Snake_started > word_of_int (Snake_speedMs Snake_started)
   \<and> Snake_body (Snake_moved input_init 200 Snake_started) ! 0
        = Snake_food (Snake_moved input_init 200 Snake_started)
   \<and> (\<exists>s'. Snake_update input_init 200 zeros Snake_started 0
              = Some (s', 1, False, rng_skip 2 zeros))
   \<and> Doodle_inv (fst (Doodle_init zeros Doodle_boot)) 0
   \<and> Doodle_inv Doodle_rising 0
   \<and> fst (snd (Doodle_update input_init zeros Doodle_rising 0)) = 1
   \<and> Doodle_inv (fst (Doodle_update input_init zeros Doodle_rising 0)) 1
   \<and> unat (7::u32) \<le> unat (fst (snd (Stack_update select_pressed (Stack_init Stack_boot) 7)))
   \<and> fst (snd (Stack_update select_pressed (Stack_init Stack_boot) 7)) = 8
   \<and> Tetris_inv Tetris_almost
   \<and> (\<exists>s' sc ov r1. Tetris_update input_init 1000 zeros Tetris_almost 40 = Inr (s', sc, ov, r1)
                      \<and> unat (40::u32) \<le> unat sc)
   \<and> Tetris_update input_init 1000 zeros Tetris_almost 40 = Inr (Tetris_locked, 50, False, zeros)
   \<and> unat (40::u32) \<le> unat (50::u32)"
proof -
  have snake: "\<exists>s'. Snake_update input_init 200 zeros Snake_started 0
              = Some (s', 1, False, rng_skip 2 zeros)"
    using update_keeps_score_with_room
      [where score = 0 and inp = input_init and now = 200 and r = zeros
         and sn = Snake_started and k = 0, THEN conjunct2, THEN conjunct2, THEN conjunct1]
      started_due started_moved(1-4)
    by simp
  have d0: "Doodle_inv (fst (Doodle_init zeros Doodle_boot)) 0"
    using update_keeps_score_with_room [where r = zeros and ?d0.0 = Doodle_boot, THEN conjunct2, THEN conjunct2, THEN conjunct2, THEN conjunct2, THEN conjunct2, THEN conjunct2, THEN conjunct2, THEN conjunct2, THEN conjunct2, THEN conjunct2, THEN conjunct2, THEN conjunct1] .
  have d1: "Doodle_inv (fst (Doodle_update input_init zeros Doodle_rising 0)) 1"
    using update_keeps_score_with_room
      [where score = 0 and inp = input_init and r = zeros and dd = Doodle_rising, THEN conjunct2, THEN conjunct2, THEN conjunct2, THEN conjunct2, THEN conjunct2, THEN conjunct2, THEN conjunct2, THEN conjunct2, THEN conjunct2, THEN conjunct2, THEN conjunct2, THEN conjunct2, THEN conjunct1]
      rising_facts
    by simp
  have st: "unat (7::u32) \<le> unat (fst (snd (Stack_update select_pressed (Stack_init Stack_boot) 7)))"
    using update_keeps_score_with_room
      [where score = 7 and inp = select_pressed and st = "Stack_init Stack_boot", THEN conjunct2, THEN conjunct2, THEN conjunct2, THEN conjunct2, THEN conjunct2, THEN conjunct2, THEN conjunct2, THEN conjunct2, THEN conjunct2, THEN conjunct2, THEN conjunct2, THEN conjunct2, THEN conjunct2, THEN conjunct1]
    by simp
  have t0: "\<exists>s' sc ov r1. Tetris_update input_init 1000 zeros Tetris_almost 40 = Inr (s', sc, ov, r1)
                      \<and> unat (40::u32) \<le> unat sc"
    using update_keeps_score_with_room
      [where score = 40 and inp = input_init and now = 1000 and r = zeros
         and te = Tetris_almost, THEN conjunct2, THEN conjunct2, THEN conjunct2, THEN conjunct2, THEN conjunct2, THEN conjunct2, THEN conjunct2, THEN conjunct2, THEN conjunct2, THEN conjunct2, THEN conjunct2, THEN conjunct2, THEN conjunct2, THEN conjunct2, THEN conjunct1]
      almost_inv
    by simp
  have t1: "unat (40::u32) \<le> unat (50::u32)"
    using update_keeps_score_with_room
      [where score = 40 and inp = input_init and now = 1000 and r = zeros
         and te = Tetris_almost and te' = Tetris_locked and tsc = 50 and tov = False
         and tr = zeros, THEN conjunct2, THEN conjunct2, THEN conjunct2, THEN conjunct2, THEN conjunct2, THEN conjunct2, THEN conjunct2, THEN conjunct2, THEN conjunct2, THEN conjunct2, THEN conjunct2, THEN conjunct2, THEN conjunct2, THEN conjunct2, THEN conjunct2]
      lock_tick
    by simp
  show ?thesis
    using snake d0 d1 st t0 t1 started_due started_moved(3) rising_facts(1,3) stack_seven
      almost_inv lock_tick
    by simp
qed


end
